theory Spec2Isabelle
  imports Complex_Main
begin

section \<open>Python values: exceptions, outcomes, strings\<close>

text \<open>
  The window class \<open>widgetAOWindow\<close> of \<open>shesha/widgets/widget_ao.py\<close> is modelled by
  explicit state passing.  A method takes the window state and returns the state it
  leaves behind together with its outcome: Python mutates \<open>self\<close> in place, so the
  changes made before an exception is raised stay, and the state is returned on both
  paths.
\<close>

datatype py_exn =
    AttributeError | KeyError | IndexError | ValueError | TypeError
  | NameError | UnboundLocalError | ZeroDivisionError | SupervisorError

text \<open>
  A call yields \<open>Inr v\<close> when it returns \<open>v\<close> and \<open>Inl e\<close> when it raises \<open>e\<close>;
  a statement returns the unit value.
\<close>

type_synonym outcome = "py_exn + unit"

abbreviation Returned :: outcome where
  "Returned \<equiv> Inr ()"

abbreviation Raised :: "py_exn \<Rightarrow> py_exn + 'a" where
  "Raised e \<equiv> Inl e"

definition bind :: "(py_exn + 'a) \<times> 's \<Rightarrow> ('a \<Rightarrow> 's \<Rightarrow> (py_exn + 'b) \<times> 's) \<Rightarrow> (py_exn + 'b) \<times> 's" where
  "bind r f = (case r of (Inr v, s) \<Rightarrow> f v s | (Inl e, s) \<Rightarrow> (Inl e, s))"

definition and_then :: "(py_exn + 'a) \<times> 's \<Rightarrow> ('s \<Rightarrow> (py_exn + 'b) \<times> 's) \<Rightarrow> (py_exn + 'b) \<times> 's" where
  "and_then r f = bind r (\<lambda>_. f)"

text \<open>A \<open>for\<close> loop over a list: the body runs in order and the first exception ends it.\<close>

primrec for_each :: "'a list \<Rightarrow> ('a \<Rightarrow> 's \<Rightarrow> outcome \<times> 's) \<Rightarrow> 's \<Rightarrow> outcome \<times> 's" where
  "for_each [] body s = (Returned, s)"
| "for_each (x # xs) body s =
     (case body x s of (Inr _, s') \<Rightarrow> for_each xs body s' | (Inl e, s') \<Rightarrow> (Inl e, s'))"

text \<open>Decimal rendering, the \<open>%d\<close> of Python's string formatting.\<close>

definition digit_char :: "nat \<Rightarrow> char" where
  "digit_char d = ''0123456789'' ! d"

fun dec_digits :: "nat \<Rightarrow> string" where
  "dec_digits n =
     (if n < 10 then [digit_char n] else dec_digits (n div 10) @ [digit_char (n mod 10)])"

declare dec_digits.simps [simp del]

definition fmt_d :: "int \<Rightarrow> string" where
  "fmt_d i = (if i < 0 then CHR ''-'' # dec_digits (nat (- i)) else dec_digits (nat i))"

text \<open>
  \<open>"%1.2f" % x\<close> for a finite float: the exact value, correctly rounded to two decimals
  (ties to even), with a minus sign for negative \<open>x\<close>.  NaN, the infinities and the
  negative zero have no counterpart among the reals.
\<close>

definition round_half_even :: "real \<Rightarrow> int" where
  "round_half_even x =
     (let f = \<lfloor>x\<rfloor>; d = x - of_int f
      in if d < 1 / 2 then f else if 1 / 2 < d then f + 1 else if even f then f else f + 1)"

definition fmt_2f :: "real \<Rightarrow> string" where
  "fmt_2f x =
     (let n = nat (round_half_even (\<bar>x\<bar> * 100))
      in (if x < 0 then ''-'' else []) @ dec_digits (n div 100) @ ''.'' @
         [digit_char (n div 10 mod 10), digit_char (n mod 10)])"

text \<open>\<open>needle in key\<close> on strings: \<open>needle\<close> occurs in \<open>key\<close> as a contiguous substring.\<close>

primrec py_in :: "string \<Rightarrow> string \<Rightarrow> bool" where
  "py_in needle [] = (needle = [])"
| "py_in needle (c # cs) = (take (length needle) (c # cs) = needle \<or> py_in needle cs)"

text \<open>\<open>s.split(sep)\<close> for a one-character separator; the result is never empty.\<close>

primrec py_split :: "char \<Rightarrow> string \<Rightarrow> string list" where
  "py_split sep [] = [[]]"
| "py_split sep (c # cs) =
     (if c = sep then [] # py_split sep cs
      else (c # hd (py_split sep cs)) # tl (py_split sep cs))"

text \<open>
  \<open>int(s)\<close> on a string: surrounding white space is stripped, one sign is allowed, and
  the rest must be groups of decimal digits, none of them empty, separated by single
  underscores (\<open>int("1_0")\<close> is 10; \<open>"_1"\<close>, \<open>"1_"\<close> and \<open>"1__0"\<close> are refused);
  anything else is a \<open>ValueError\<close>.  The white space is the ASCII white space of
  Python (the characters 9 to 13, 28 to 31 and the blank).  Python also accepts
  non-ASCII digits and white space, which an ASCII string does not have.
\<close>

definition is_space :: "char \<Rightarrow> bool" where
  "is_space c =
     (c \<in> set [CHR '' '', CHR 0x09, CHR 0x0A, CHR 0x0B, CHR 0x0C, CHR 0x0D,
               CHR 0x1C, CHR 0x1D, CHR 0x1E, CHR 0x1F])"

definition strip :: "string \<Rightarrow> string" where
  "strip s = rev (dropWhile is_space (rev (dropWhile is_space s)))"

definition is_digit :: "char \<Rightarrow> bool" where
  "is_digit c = (c \<in> set ''0123456789'')"

definition digit_val :: "char \<Rightarrow> nat" where
  "digit_val c = of_char c - 48"

definition digits_val :: "string \<Rightarrow> nat" where
  "digits_val ds = foldl (\<lambda>a c. 10 * a + digit_val c) 0 ds"

definition py_int :: "string \<Rightarrow> py_exn + int" where
  "py_int s =
     (let t = strip s;
          neg = (t \<noteq> [] \<and> hd t = CHR ''-'');
          ds = (if t \<noteq> [] \<and> (hd t = CHR ''-'' \<or> hd t = CHR ''+'') then tl t else t);
          groups = py_split CHR ''_'' ds
      in if \<not> list_all (\<lambda>g. g \<noteq> [] \<and> list_all is_digit g) groups then Raised ValueError
         else Inr (if neg then - int (digits_val (concat groups))
                   else int (digits_val (concat groups))))"

text \<open>Python indexing and slicing of a list: negative indices count from the end.\<close>

definition py_nth :: "'a list \<Rightarrow> int \<Rightarrow> py_exn + 'a" where
  "py_nth xs i =
     (if 0 \<le> i \<and> i < int (length xs) then Inr (xs ! nat i)
      else if i < 0 \<and> - int (length xs) \<le> i then Inr (xs ! nat (int (length xs) + i))
      else Raised IndexError)"

definition clamp_idx :: "nat \<Rightarrow> int \<Rightarrow> nat" where
  "clamp_idx n i = (if i < 0 then nat (max 0 (int n + i)) else min n (nat i))"

definition py_slice :: "'a list \<Rightarrow> int \<Rightarrow> int \<Rightarrow> 'a list" where
  "py_slice xs a b =
     (let i = clamp_idx (length xs) a; j = clamp_idx (length xs) b in take (j - i) (drop i xs))"

section \<open>Bounded deques\<close>

text \<open>
  \<open>collections.deque(maxlen=n)\<close>: appending to a full deque discards from the left.
\<close>

record 'a deque =
  maxlen :: nat
  items :: "'a list"

definition deque_new :: "nat \<Rightarrow> 'a deque" where
  "deque_new n = \<lparr>maxlen = n, items = []\<rparr>"

definition deque_append :: "'a \<Rightarrow> 'a deque \<Rightarrow> 'a deque" where
  "deque_append x d =
     (let xs = items d @ [x] in d\<lparr>items := drop (length xs - maxlen d) xs\<rparr>)"

section \<open>Configuration\<close>

datatype WFSType = SH | PYRHR | PYRLR | OtherWFS

record Param_wfs =
  wfs_type :: WFSType
  nxsub :: int
  nvalid :: int

record Param_config =
  n_atmos :: nat
  p_wfss :: "Param_wfs list"
  n_dms :: nat
  n_targets :: nat
  cobs :: real
  layout :: "string option"

section \<open>The external supervisor\<close>

text \<open>
  The simulation engine is not part of the file.  It is a black box that the window
  calls: the model records every call with its reply, in order, and takes the replies
  from oracles that may depend on the whole history of calls, so nothing is assumed about
  what the engine computes.  A call that raises is recorded with the reply \<open>Raises\<close>.
  Pixel values, Strehl ratios and clock readings are Python floats; they are idealised
  as real numbers.
\<close>

type_synonym frame = "real list list"

datatype sup_call =
    SingleNext bool
  | CompImage nat
  | GetStrehl int
  | GetFrameCounter
  | ResetStrehl int
  | CloseLoop
  | OpenLoop
  | EnableAtmos bool
  | IsInit
  | GetAtmScreen int
  | GetWfsPhase int
  | GetDmShape int
  | GetTarPhase int
  | GetTarImage int string
  | GetWfsImage int
  | GetPyrHRImage int
  | GetPyrFocalPlane int
  | GetSlopeGeom int
  | GetSlope
  | LoadConfig string
  | GetConfig

datatype reply =
    Raises
  | NoneR
  | FrameR frame
  | StrehlR real real
  | CountR int
  | SlopesR "real list"
  | BoolR bool
  | ConfigR Param_config

type_synonym history = "(sup_call \<times> reply) list"

record CompassSupervisor =
  calls :: history
  completes :: "history \<Rightarrow> sup_call \<Rightarrow> bool"
  frame_of :: "history \<Rightarrow> sup_call \<Rightarrow> frame"
  strehl_of :: "history \<Rightarrow> int \<Rightarrow> real \<times> real"
  counter_of :: "history \<Rightarrow> int"
  slopes_of :: "history \<Rightarrow> sup_call \<Rightarrow> real list"
  init_of :: "history \<Rightarrow> bool"
  config_of :: "history \<Rightarrow> Param_config"
  has_sim :: "history \<Rightarrow> bool"
  sim_is_None :: "history \<Rightarrow> bool"
  seeAtmos :: "history \<Rightarrow> bool"
  d_targets :: "history \<Rightarrow> nat"

definition record_call :: "sup_call \<Rightarrow> reply \<Rightarrow> CompassSupervisor \<Rightarrow> CompassSupervisor" where
  "record_call c r sv = sv\<lparr>calls := calls sv @ [(c, r)]\<rparr>"

section \<open>The window state\<close>

datatype plot = Quiver "real list" int real

datatype img = ImageItem "frame option" | Canvas "plot list" "plot list"

record dock =
  visible :: bool

record viewbox =
  vb_items :: "string list"
  vb_range :: "((real \<times> real) \<times> (real \<times> real)) option"

datatype gui_event =
    SetDisabled string bool
  | SetMaximum string int
  | AddDispDock string string string
  | AddWidgetStrehl string
  | RemoveItem string string
  | SetValue string int
  | PlPyr "real list"
  | SetDevices "int list"
  | PrintInPlace int string string real real
  | ExpertSetSupervisor
  | ExpertUpdatePanels
  | LoadArea string
  | AdjustSize

record ui_state =
  wao_run_checked :: bool
  wao_openLoop_text :: string
  wao_strehlSE :: string
  wao_strehlLE :: string
  wao_currentFreq :: real
  wao_nbiters :: int
  wao_forever :: bool
  wao_allTarget :: bool
  wao_resetSR_tarNum :: int
  wao_dispSR_tar :: int
  wao_frameRate :: real
  actionPSF_Log_Scale :: bool
  wao_selectConfig :: string
  curveSRSE :: "int list \<times> real list"
  curveSRLE :: "int list \<times> real list"

record widget =
  supervisor :: "CompassSupervisor option"
  config :: "Param_config option"
  stop :: bool
  nbiter :: int
  refreshTime :: real
  SRLE :: "real deque"
  SRSE :: "real deque"
  numiter :: "int deque"
  dispStatsInTerminal :: bool
  firstTime :: int
  PSFzoom :: real
  natm :: nat
  nwfs :: nat
  ndm :: nat
  ntar :: nat
  loopLock :: bool
  docks :: "(string \<times> dock) list"
  imgs :: "string \<rightharpoonup> img"
  viewboxes :: "string \<rightharpoonup> viewbox"
  SRcircles :: "(string \<times> string) list"
  SRCrossX :: "(string \<times> string) list"
  SRCrossY :: "(string \<times> string) list"
  PyrEdgeX :: "(string \<times> string) list"
  PyrEdgeY :: "(string \<times> string) list"
  expert :: bool
  devices :: "string option"
  defaultAreaPath :: string
  ui :: ui_state
  gui :: "gui_event list"
  stdout :: "string list"
  clock :: "nat \<Rightarrow> real"
  ticks :: nat
  wao_defined :: bool

section \<open>Primitive steps\<close>

definition time_time :: "widget \<Rightarrow> real \<times> widget" where
  "time_time w = (clock w (ticks w), w\<lparr>ticks := ticks w + 1\<rparr>)"

definition py_print :: "string \<Rightarrow> widget \<Rightarrow> widget" where
  "py_print s w = w\<lparr>stdout := stdout w @ [s]\<rparr>"

definition emit :: "gui_event \<Rightarrow> widget \<Rightarrow> widget" where
  "emit ev w = w\<lparr>gui := gui w @ [ev]\<rparr>"

text \<open>
  A method call on \<open>self.supervisor\<close>: \<open>AttributeError\<close> when the supervisor is
  \<open>None\<close> (nothing is called), otherwise the call is recorded with its reply.
\<close>

definition ask :: "(CompassSupervisor \<Rightarrow> 'a) \<Rightarrow> ('a \<Rightarrow> reply) \<Rightarrow> sup_call \<Rightarrow> widget \<Rightarrow> (py_exn + 'a) \<times> widget" where
  "ask oracle wrap c w =
     (case supervisor w of
        None \<Rightarrow> (Raised AttributeError, w)
      | Some sv \<Rightarrow>
          if completes sv (calls sv) c
          then (Inr (oracle sv), w\<lparr>supervisor := Some (record_call c (wrap (oracle sv)) sv)\<rparr>)
          else (Raised SupervisorError, w\<lparr>supervisor := Some (record_call c Raises sv)\<rparr>))"

definition ask_unit :: "sup_call \<Rightarrow> widget \<Rightarrow> outcome \<times> widget" where
  "ask_unit c = ask (\<lambda>sv. ()) (\<lambda>u. NoneR) c"

definition ask_frame :: "sup_call \<Rightarrow> widget \<Rightarrow> (py_exn + frame) \<times> widget" where
  "ask_frame c = ask (\<lambda>sv. frame_of sv (calls sv) c) FrameR c"

definition ask_slopes :: "sup_call \<Rightarrow> widget \<Rightarrow> (py_exn + real list) \<times> widget" where
  "ask_slopes c = ask (\<lambda>sv. slopes_of sv (calls sv) c) SlopesR c"

definition getStrehl :: "int \<Rightarrow> widget \<Rightarrow> (py_exn + real \<times> real) \<times> widget" where
  "getStrehl t = ask (\<lambda>sv. strehl_of sv (calls sv) t) (\<lambda>(se, le). StrehlR se le) (GetStrehl t)"

definition getFrameCounter :: "widget \<Rightarrow> (py_exn + int) \<times> widget" where
  "getFrameCounter = ask (\<lambda>sv. counter_of sv (calls sv)) CountR GetFrameCounter"

definition isInit :: "widget \<Rightarrow> (py_exn + bool) \<times> widget" where
  "isInit = ask (\<lambda>sv. init_of sv (calls sv)) BoolR IsInit"

text \<open>\<open>self.config.<field>\<close>: \<open>AttributeError\<close> when no configuration is loaded.\<close>

definition get_config :: "widget \<Rightarrow> (py_exn + Param_config) \<times> widget" where
  "get_config w = (case config w of None \<Rightarrow> (Raised AttributeError, w) | Some cfg \<Rightarrow> (Inr cfg, w))"

section \<open>Small callbacks\<close>

definition updateAllTarget :: "bool \<Rightarrow> widget \<Rightarrow> outcome \<times> widget" where
  "updateAllTarget state w = (Returned, emit (SetDisabled ''wao_resetSR_tarNum'' state) w)"

definition updateForever :: "bool \<Rightarrow> widget \<Rightarrow> outcome \<times> widget" where
  "updateForever state w = (Returned, emit (SetDisabled ''wao_nbiters'' state) w)"

definition set_see_atmos :: "bool \<Rightarrow> widget \<Rightarrow> outcome \<times> widget" where
  "set_see_atmos atmos w = ask_unit (EnableAtmos atmos) w"

definition resetSR :: "widget \<Rightarrow> outcome \<times> widget" where
  "resetSR w =
     (if wao_allTarget (ui w) then
        bind (get_config w) (\<lambda>cfg.
          for_each (map int [0..<n_targets cfg]) (\<lambda>t. ask_unit (ResetStrehl t)))
      else
        (let tarnum = wao_resetSR_tarNum (ui w)
         in ask_unit (ResetStrehl tarnum) (py_print (''Reset SR on target '' @ fmt_d tarnum) w)))"

definition aoLoopOpen :: "bool \<Rightarrow> widget \<Rightarrow> outcome \<times> widget" where
  "aoLoopOpen pressed w =
     (if pressed then
        and_then (ask_unit CloseLoop w)
          (\<lambda>w1. (Returned, w1\<lparr>ui := (ui w1)\<lparr>wao_openLoop_text := ''Open Loop''\<rparr>\<rparr>))
      else
        and_then (ask_unit OpenLoop w)
          (\<lambda>w1. (Returned, w1\<lparr>ui := (ui w1)\<lparr>wao_openLoop_text := ''Close Loop''\<rparr>\<rparr>)))"

definition clearSR :: "widget \<Rightarrow> outcome \<times> widget" where
  "clearSR w = (Returned, w\<lparr>SRLE := deque_new 20, SRSE := deque_new 20, numiter := deque_new 20\<rparr>)"

definition updateSRDisplay :: "real \<Rightarrow> real \<Rightarrow> int \<Rightarrow> widget \<Rightarrow> outcome \<times> widget" where
  "updateSRDisplay srle srse n w =
     (let w1 = w\<lparr>SRLE := deque_append srle (SRLE w)\<rparr>;
          w2 = w1\<lparr>SRSE := deque_append srse (SRSE w1)\<rparr>;
          w3 = w2\<lparr>numiter := deque_append n (numiter w2)\<rparr>;
          w4 = w3\<lparr>ui := (ui w3)\<lparr>curveSRSE := (items (numiter w3), items (SRSE w3))\<rparr>\<rparr>
      in (Returned, w4\<lparr>ui := (ui w4)\<lparr>curveSRLE := (items (numiter w4), items (SRLE w4))\<rparr>\<rparr>))"

definition updateSRSE :: "string \<Rightarrow> widget \<Rightarrow> widget" where
  "updateSRSE s w = w\<lparr>ui := (ui w)\<lparr>wao_strehlSE := s\<rparr>\<rparr>"

definition updateSRLE :: "string \<Rightarrow> widget \<Rightarrow> widget" where
  "updateSRLE s w = w\<lparr>ui := (ui w)\<lparr>wao_strehlLE := s\<rparr>\<rparr>"

definition updateCurrentLoopFrequency :: "real \<Rightarrow> widget \<Rightarrow> widget" where
  "updateCurrentLoopFrequency freq w = w\<lparr>ui := (ui w)\<lparr>wao_currentFreq := freq\<rparr>\<rparr>"

section \<open>One iteration of the loop\<close>

definition singleNext :: "widget \<Rightarrow> outcome \<times> widget" where
  "singleNext w =
     (case supervisor w of
        None \<Rightarrow> (Raised AttributeError, w)
      | Some sv \<Rightarrow> ask_unit (SingleNext (seeAtmos sv (calls sv))) w)"

text \<open>\<open>for t in self.supervisor._sim.tar.d_targets: t.comp_image()\<close>\<close>

definition comp_images :: "widget \<Rightarrow> outcome \<times> widget" where
  "comp_images w =
     (case supervisor w of
        None \<Rightarrow> (Raised AttributeError, w)
      | Some sv \<Rightarrow>
          if \<not> has_sim sv (calls sv) \<or> sim_is_None sv (calls sv)
          then (Raised AttributeError, w)
          else for_each [0..<d_targets sv (calls sv)] (\<lambda>t. ask_unit (CompImage t)) w)"

text \<open>
  The body of the loop over the targets; the locals \<open>signal_se\<close> and \<open>signal_le\<close> are
  carried beside the window state.
\<close>

definition strehl_step :: "int \<Rightarrow> (string \<times> string) \<times> widget \<Rightarrow> outcome \<times> ((string \<times> string) \<times> widget)" where
  "strehl_step t s =
     (case s of ((signal_se, signal_le), w) \<Rightarrow>
        (case getStrehl t w of
           (Inl e, w1) \<Rightarrow> (Raised e, ((signal_se, signal_le), w1))
         | (Inr SR, w1) \<Rightarrow>
             (case (if t = wao_dispSR_tar (ui w1)
                    then bind (getFrameCounter w1) (updateSRDisplay (snd SR) (fst SR))
                    else (Returned, w1)) of
                (Inl e, w2) \<Rightarrow> (Raised e, ((signal_se, signal_le), w2))
              | (Inr _, w2) \<Rightarrow>
                  (Returned, ((signal_se @ fmt_2f (fst SR) @ ''   '',
                               signal_le @ fmt_2f (snd SR) @ ''   ''), w2)))))"

definition refresh_displays :: "real \<Rightarrow> real \<Rightarrow> widget \<Rightarrow> outcome \<times> widget" where
  "refresh_displays start loopTime w =
     bind (get_config w) (\<lambda>cfg w1.
       (case for_each (map int [0..<n_targets cfg]) strehl_step (([], []), w1) of
          (Inl e, (sig, w2)) \<Rightarrow> (Raised e, w2)
        | (Inr _, ((signal_se, signal_le), w2)) \<Rightarrow>
            if loopTime = 0 then (Raised ZeroDivisionError, w2)
            else
              (let currentFreq = 1 / loopTime; (t4, w3) = time_time w2
               in if t4 - refreshTime w3 = 0 then (Raised ZeroDivisionError, w3)
                  else
                    (let refreshFreq = 1 / (t4 - refreshTime w3);
                         w4 = updateCurrentLoopFrequency currentFreq
                                (updateSRLE signal_le (updateSRSE signal_se w3))
                     in and_then
                          (if dispStatsInTerminal w4
                           then bind (getFrameCounter w4) (\<lambda>n w5.
                                  (Returned, emit (PrintInPlace n signal_le signal_se refreshFreq currentFreq) w5))
                           else (Returned, w4))
                          (\<lambda>w6. (Returned, w6\<lparr>refreshTime := start\<rparr>))))))"

definition loopOnce_body :: "widget \<Rightarrow> outcome \<times> widget" where
  "loopOnce_body w =
     (let (start, w1) = time_time w
      in and_then (singleNext w1) (\<lambda>w2.
         and_then (comp_images w2) (\<lambda>w3.
           (let (t2, w4) = time_time w3; loopTime = t2 - start
            in if wao_frameRate (ui w4) = 0 then (Raised ZeroDivisionError, w4)
               else
                 (let refreshDisplayTime = 1 / wao_frameRate (ui w4); (t3, w5) = time_time w4
                  in if t3 - refreshTime w5 > refreshDisplayTime
                     then refresh_displays start loopTime w5
                     else (Returned, w5))))))"

text \<open>
  \<open>self.loopLock.acquire(False)\<close> fails when the lock is held (\<open>loopLock\<close> is
  \<open>True\<close>).  The bare \<open>except:\<close> catches every exception of the body.
\<close>

definition loopOnce :: "widget \<Rightarrow> outcome \<times> widget" where
  "loopOnce w =
     (if loopLock w then (Returned, py_print ''Display locked'' w)
      else
        (let (out, w2) = loopOnce_body (w\<lparr>loopLock := True\<rparr>);
             w3 = (case out of Inl e \<Rightarrow> py_print ''error!!'' w2 | Inr u \<Rightarrow> w2)
         in (Returned, w3\<lparr>loopLock := False\<rparr>)))"

section \<open>Running the loop\<close>

text \<open>
  \<open>WidgetBase.run\<close> is defined in \<open>widget_base.py\<close>, which is not part of the file; it
  is the parameter \<open>base_run\<close>.
\<close>

definition run :: "(widget \<Rightarrow> outcome \<times> widget) \<Rightarrow> widget \<Rightarrow> outcome \<times> widget" where
  "run base_run w =
     and_then (base_run w) (\<lambda>w1.
       (let w2 = (if \<not> wao_forever (ui w1) then w1\<lparr>nbiter := nbiter w1 - 1\<rparr> else w1)
        in if nbiter w2 \<le> 0
           then (Returned, w2\<lparr>stop := True, ui := (ui w2)\<lparr>wao_run_checked := False\<rparr>\<rparr>)
           else (Returned, w2)))"

definition aoLoopClicked :: "(widget \<Rightarrow> outcome \<times> widget) \<Rightarrow> bool \<Rightarrow> widget \<Rightarrow> outcome \<times> widget" where
  "aoLoopClicked base_run pressed w =
     (if pressed then
        (let w1 = w\<lparr>stop := False\<rparr>;
             (t, w2) = time_time w1;
             w3 = w2\<lparr>refreshTime := t\<rparr>;
             w4 = w3\<lparr>nbiter := wao_nbiters (ui w3)\<rparr>;
             w5 = (if dispStatsInTerminal w4 then
                     (if wao_forever (ui w4) then py_print ''LOOP STARTED'' w4
                      else py_print (''LOOP STARTED FOR '' @ fmt_d (nbiter w4) @ '' iterations'') w4)
                   else w4)
         in run base_run w5)
      else (Returned, w\<lparr>stop := True\<rparr>))"

section \<open>Refreshing the display\<close>

text \<open>\<open>if cond: data = self.supervisor.<getter>(index)\<close>\<close>

definition fetch :: "bool \<Rightarrow> sup_call \<Rightarrow> frame option \<Rightarrow> widget \<Rightarrow> (py_exn + frame option) \<times> widget" where
  "fetch cond c data w =
     (if cond then bind (ask_frame c w) (\<lambda>f w1. (Inr (Some f), w1)) else (Inr data, w))"

text \<open>The \<open>dm\<close> branch reads \<open>self.config.p_dms[index]\<close> before it calls the supervisor.\<close>

definition fetch_dm :: "string \<Rightarrow> int \<Rightarrow> frame option \<Rightarrow> widget \<Rightarrow> (py_exn + frame option) \<times> widget" where
  "fetch_dm key index data w =
     (if py_in ''dm'' key then
        bind (get_config w) (\<lambda>cfg w1.
          if - int (n_dms cfg) \<le> index \<and> index < int (n_dms cfg)
          then fetch True (GetDmShape index) data w1
          else (Raised IndexError, w1))
      else (Inr data, w))"

text \<open>
  The logarithmic scale of the PSF displays: entries that are not positive are replaced
  by the least positive entry (\<open>np.min\<close> of an empty selection raises \<open>ValueError\<close>),
  then \<open>np.log10\<close> is taken entry by entry.
\<close>

definition np_any_nonpos :: "frame \<Rightarrow> bool" where
  "np_any_nonpos f = list_ex (list_ex (\<lambda>x. x \<le> 0)) f"

definition np_min_pos :: "frame \<Rightarrow> py_exn + real" where
  "np_min_pos f =
     (let ps = filter (\<lambda>x. 0 < x) (concat f)
      in if ps = [] then Raised ValueError else Inr (fold min ps (hd ps)))"

definition log_scale :: "frame \<Rightarrow> py_exn + frame" where
  "log_scale f =
     (if np_any_nonpos f then
        (case np_min_pos f of
           Inl e \<Rightarrow> Raised e
         | Inr m \<Rightarrow> Inr (map (map (\<lambda>x. log 10 (if x \<le> 0 then m else x))) f))
      else Inr (map (map (log 10)) f))"

definition shape0 :: "frame \<Rightarrow> nat" where
  "shape0 f = length f"

definition shape1 :: "frame \<Rightarrow> nat" where
  "shape1 f = (case f of [] \<Rightarrow> 0 | r # rs \<Rightarrow> length r)"

definition psf_view :: "string \<Rightarrow> frame option \<Rightarrow> widget \<Rightarrow> (py_exn + frame option) \<times> widget" where
  "psf_view key data w =
     (if py_in ''psf'' key then
        bind (if actionPSF_Log_Scale (ui w) then
                (case data of
                   None \<Rightarrow> (Raised TypeError, w)
                 | Some f \<Rightarrow>
                     (case log_scale f of Inl e \<Rightarrow> (Raised e, w) | Inr g \<Rightarrow> (Inr (Some g), w)))
              else (Inr data, w)) (\<lambda>data1 w1.
        bind (getFrameCounter w1) (\<lambda>n w2.
          if n < 10 then
            (case viewboxes w2 key of
               None \<Rightarrow> (Raised KeyError, w2)
             | Some vb \<Rightarrow>
                 (case data1 of
                    None \<Rightarrow> (Raised AttributeError, w2)
                  | Some f \<Rightarrow>
                      (Inr data1, w2\<lparr>viewboxes := (viewboxes w2)(key \<mapsto> vb\<lparr>vb_range := Some
                         ((real (shape0 f) / 2 + 1 / 2 - PSFzoom w2, real (shape0 f) / 2 + 1 / 2 + PSFzoom w2),
                          (real (shape1 f) / 2 + 1 / 2 - PSFzoom w2, real (shape1 f) / 2 + 1 / 2 + PSFzoom w2))\<rparr>)\<rparr>)))
          else (Inr data1, w2)))
      else (Inr data, w))"

text \<open>The chain of \<open>if\<close> statements that selects the frame of a dock, in source order.\<close>

definition dock_data :: "string \<Rightarrow> int \<Rightarrow> widget \<Rightarrow> (py_exn + frame option) \<times> widget" where
  "dock_data key index w =
     bind (fetch (py_in ''atm'' key) (GetAtmScreen index) None w) (\<lambda>d1 w1.
     bind (fetch (py_in ''wfs'' key) (GetWfsPhase index) d1 w1) (\<lambda>d2 w2.
     bind (fetch_dm key index d2 w2) (\<lambda>d3 w3.
     bind (fetch (py_in ''tar'' key) (GetTarPhase index) d3 w3) (\<lambda>d4 w4.
     bind (fetch (py_in ''psfLE'' key) (GetTarImage index ''le'') d4 w4) (\<lambda>d5 w5.
     bind (fetch (py_in ''psfSE'' key) (GetTarImage index ''se'') d5 w5) (\<lambda>d6 w6.
     bind (psf_view key d6 w6) (\<lambda>d7 w7.
     bind (fetch (py_in ''SH'' key) (GetWfsImage index) d7 w7) (\<lambda>d8 w8.
     bind (fetch (py_in ''pyrLR'' key) (GetWfsImage index) d8 w8) (\<lambda>d9 w9.
     bind (fetch (py_in ''pyrHR'' key) (GetPyrHRImage index) d9 w9) (\<lambda>d10 w10.
     fetch (py_in ''pyrFocalPlane'' key) (GetPyrFocalPlane index) d10 w10))))))))))"

text \<open>
  \<open>self.imgs[key]\<close> is an image item (\<open>setImage\<close>) or a Matplotlib canvas with its axes
  and what was last drawn; a missing key is a \<open>KeyError\<close>, the wrong kind of object an
  \<open>AttributeError\<close>.
\<close>

definition set_image :: "string \<Rightarrow> frame \<Rightarrow> widget \<Rightarrow> outcome \<times> widget" where
  "set_image key f w =
     (case imgs w key of
        None \<Rightarrow> (Raised KeyError, w)
      | Some (ImageItem old) \<Rightarrow> (Returned, w\<lparr>imgs := (imgs w)(key \<mapsto> ImageItem (Some f))\<rparr>)
      | Some (Canvas a s) \<Rightarrow> (Raised AttributeError, w))"

definition canvas_op :: "string \<Rightarrow> (plot list \<Rightarrow> plot list \<Rightarrow> img) \<Rightarrow> widget \<Rightarrow> outcome \<times> widget" where
  "canvas_op key f w =
     (case imgs w key of
        None \<Rightarrow> (Raised KeyError, w)
      | Some (ImageItem old) \<Rightarrow> (Raised AttributeError, w)
      | Some (Canvas a s) \<Rightarrow> (Returned, w\<lparr>imgs := (imgs w)(key \<mapsto> f a s)\<rparr>))"

definition canvas_clear :: "string \<Rightarrow> widget \<Rightarrow> outcome \<times> widget" where
  "canvas_clear key = canvas_op key (\<lambda>a s. Canvas [] s)"

definition canvas_quiver :: "string \<Rightarrow> plot \<Rightarrow> widget \<Rightarrow> outcome \<times> widget" where
  "canvas_quiver key q = canvas_op key (\<lambda>a s. Canvas (a @ [q]) s)"

definition canvas_draw :: "string \<Rightarrow> widget \<Rightarrow> outcome \<times> widget" where
  "canvas_draw key = canvas_op key (\<lambda>a s. Canvas a a)"

text \<open>
  \<open>plsh(slopes, self.config.p_wfss[index].nxsub, self.config.p_tel.cobs,
  returnquiver=True)\<close>: the function \<open>plsh\<close> of \<open>shesha.util.tools\<close> is not part of the
  file, so the mesh and vectors it returns are the term \<open>Quiver\<close> of its arguments.
\<close>

definition plsh_call :: "real list \<Rightarrow> int \<Rightarrow> widget \<Rightarrow> (py_exn + plot) \<times> widget" where
  "plsh_call sl index w =
     bind (get_config w) (\<lambda>cfg w1.
       (case py_nth (p_wfss cfg) index of
          Inl e \<Rightarrow> (Raised e, w1)
        | Inr pw \<Rightarrow> (Inr (Quiver sl (nxsub pw) (cobs cfg)), w1)))"

text \<open>
  \<open>np.sum(nmes[:index], dtype=np.int32)\<close> adds in 32-bit two's complement: the sum wraps
  around.
\<close>

definition np_int32 :: "int \<Rightarrow> int" where
  "np_int32 x = (x + 2147483648) mod 4294967296 - 2147483648"

text \<open>
  The \<open>Comp\<close> branch.  The locals \<open>x, y, vx, vy\<close> are carried from one dock to the next
  (\<open>xy\<close>): the pyramid case does not assign them before \<open>quiver\<close> reads them, and it
  names the global \<open>wao\<close>, which exists only when the file runs as a script.
\<close>

definition slopes_comp :: "string \<Rightarrow> int \<Rightarrow> plot option \<Rightarrow> widget \<Rightarrow> (py_exn + plot option) \<times> widget" where
  "slopes_comp key index xy w =
     bind (ask_slopes GetSlope w) (\<lambda>centroids w1.
     bind (get_config w1) (\<lambda>cfg w2.
       (let nmes = map (\<lambda>p. 2 * nvalid p) (p_wfss cfg);
            first_ind = np_int32 (sum_list (py_slice nmes 0 index))
        in case py_nth (p_wfss cfg) index of
             Inl e \<Rightarrow> (Raised e, w2)
           | Inr pw \<Rightarrow>
               (let part = py_slice centroids first_ind (first_ind + 2 * nvalid pw)
                in if wfs_type pw = PYRHR \<or> wfs_type pw = PYRLR then
                     (if \<not> wao_defined w2 then (Raised NameError, w2)
                      else
                        (let w3 = emit (PlPyr part) w2
                         in case xy of
                              None \<Rightarrow> (Raised UnboundLocalError, w3)
                            | Some q \<Rightarrow> and_then (canvas_quiver key q w3) (\<lambda>w4. (Inr xy, w4))))
                   else
                     (let q = Quiver part (nxsub pw) (cobs cfg)
                      in and_then (canvas_quiver key q w2) (\<lambda>w3. (Inr (Some q), w3)))))))"

definition show_slopes :: "string \<Rightarrow> int \<Rightarrow> plot option \<Rightarrow> widget \<Rightarrow> (py_exn + plot option) \<times> widget" where
  "show_slopes key index xy w =
     and_then (canvas_clear key w) (\<lambda>w1.
     bind (if py_in ''Geom'' key then
             bind (ask_slopes (GetSlopeGeom index) w1) (\<lambda>slopes w2.
             bind (plsh_call slopes index w2) (\<lambda>q w3. (Inr (Some q), w3)))
           else (Inr xy, w1)) (\<lambda>xy1 w4.
     bind (if py_in ''Comp'' key then slopes_comp key index xy1 w4 else (Inr xy1, w4)) (\<lambda>xy2 w5.
     and_then (canvas_draw key w5) (\<lambda>w6. (Inr xy2, w6)))))"

text \<open>The body of the loop over \<open>self.docks.items()\<close>.\<close>

definition update_dock :: "string \<times> dock \<Rightarrow> plot option \<times> widget \<Rightarrow> outcome \<times> (plot option \<times> widget)" where
  "update_dock kd s =
     (case kd of (key, d) \<Rightarrow> case s of (xy, w) \<Rightarrow>
        if key = ''Strehl'' then (Returned, (xy, w))
        else if visible d then
          (case py_int (last (py_split CHR ''_'' key)) of
             Inl e \<Rightarrow> (Raised e, (xy, w))
           | Inr index \<Rightarrow>
               (case dock_data key index w of
                  (Inl e, w1) \<Rightarrow> (Raised e, (xy, w1))
                | (Inr (Some f), w1) \<Rightarrow> (case set_image key f w1 of (r, w2) \<Rightarrow> (r, (xy, w2)))
                | (Inr None, w1) \<Rightarrow>
                    if py_in ''slp'' key then
                      (case show_slopes key index xy w1 of
                         (Inl e, w2) \<Rightarrow> (Raised e, (xy, w2))
                       | (Inr xy', w2) \<Rightarrow> (Returned, (xy', w2)))
                    else (Returned, (xy, w1))))
        else (Returned, (xy, w)))"

definition updateDisplay :: "widget \<Rightarrow> outcome \<times> widget" where
  "updateDisplay w =
     (case supervisor w of
        None \<Rightarrow> (Returned, w)
      | Some sv \<Rightarrow>
          if \<not> has_sim sv (calls sv) \<or> sim_is_None sv (calls sv) then (Returned, w)
          else
            bind (isInit w) (\<lambda>ini w1.
              if \<not> ini then (Returned, w1)
              else if loopLock w1 then (Returned, w1)
              else
                (case for_each (docks w1) update_dock (None, w1\<lparr>loopLock := True\<rparr>) of
                   (Inl e, (xy, w2)) \<Rightarrow> (Raised e, w2\<lparr>loopLock := False\<rparr>)
                 | (Inr u, (xy, w2)) \<Rightarrow> (Returned, w2\<lparr>firstTime := 1, loopLock := False\<rparr>))))"

section \<open>Loading a configuration\<close>

text \<open>
  \<open>WidgetBase\<close> (\<open>widget_base.py\<close>) is not part of the file.  Its methods
  \<open>loadConfig\<close> and \<open>add_dispDock\<close> are parameters that act on the docks, the image
  items and the view boxes, which \<open>WidgetBase\<close> owns; each call of
  \<open>WidgetBase.add_dispDock\<close> is also recorded as the event \<open>AddDispDock\<close> with its
  arguments.
\<close>

type_synonym display = "(string \<times> dock) list \<times> (string \<rightharpoonup> img) \<times> (string \<rightharpoonup> viewbox)"

definition on_display :: "(display \<Rightarrow> display) \<Rightarrow> widget \<Rightarrow> widget" where
  "on_display f w =
     (case f (docks w, imgs w, viewboxes w) of
        (d, i, v) \<Rightarrow> w\<lparr>docks := d, imgs := i, viewboxes := v\<rparr>)"

definition add_dispDock :: "(string \<Rightarrow> string \<Rightarrow> string \<Rightarrow> display \<Rightarrow> display) \<Rightarrow> string \<Rightarrow> string \<Rightarrow> string \<Rightarrow> widget \<Rightarrow> widget" where
  "add_dispDock base name parent type w =
     (let w1 = on_display (base name parent type) (emit (AddDispDock name parent type) w)
      in if type = ''SR'' then emit (AddWidgetStrehl name) w1 else w1)"

text \<open>\<open>for key, pgpl in d.items(): self.viewboxes[key].removeItem(pgpl)\<close>\<close>

definition remove_item :: "string \<times> string \<Rightarrow> widget \<Rightarrow> outcome \<times> widget" where
  "remove_item kp w =
     (case kp of (key, pgpl) \<Rightarrow>
        (case viewboxes w key of
           None \<Rightarrow> (Raised KeyError, w)
         | Some vb \<Rightarrow>
             (Returned, emit (RemoveItem key pgpl)
                (w\<lparr>viewboxes := (viewboxes w)(key \<mapsto> vb\<lparr>vb_items := remove1 pgpl (vb_items vb)\<rparr>)\<rparr>))))"

definition remove_items :: "(string \<times> string) list \<Rightarrow> widget \<Rightarrow> outcome \<times> widget" where
  "remove_items d w = for_each d remove_item w"

definition getConfig :: "widget \<Rightarrow> (py_exn + Param_config) \<times> widget" where
  "getConfig = ask (\<lambda>sv. config_of sv (calls sv)) ConfigR GetConfig"

primrec parse_all :: "string list \<Rightarrow> py_exn + int list" where
  "parse_all [] = Inr []"
| "parse_all (d # ds) =
     (case py_int d of
        Inl e \<Rightarrow> Raised e
      | Inr i \<Rightarrow> (case parse_all ds of Inl e \<Rightarrow> Raised e | Inr is \<Rightarrow> Inr (i # is)))"

definition set_devices :: "widget \<Rightarrow> outcome \<times> widget" where
  "set_devices w =
     (case devices w of
        None \<Rightarrow> (Returned, w)
      | Some ds \<Rightarrow>
          if ds = [] then (Returned, w)
          else (case parse_all (py_split CHR '','' ds) of
                  Inl e \<Rightarrow> (Raised e, w)
                | Inr is \<Rightarrow> (Returned, emit (SetDevices is) w)))"

text \<open>
  The docks of one wavefront sensor.  \<open>raise "Analyser unknown"\<close> raises a string, which
  Python 3 answers with a \<open>TypeError\<close>.
\<close>

definition wfs_docks :: "(string \<Rightarrow> string \<Rightarrow> string \<Rightarrow> display \<Rightarrow> display) \<Rightarrow> nat \<Rightarrow> widget \<Rightarrow> outcome \<times> widget" where
  "wfs_docks base wfs w =
     (let w1 = add_dispDock base (''wfs_'' @ fmt_d (int wfs)) ''wao_phasesgroup_cb'' ''pg_image'' w;
          w2 = add_dispDock base (''slpComp_'' @ fmt_d (int wfs)) ''wao_graphgroup_cb'' ''MPL'' w1;
          w3 = add_dispDock base (''slpGeom_'' @ fmt_d (int wfs)) ''wao_graphgroup_cb'' ''MPL'' w2
      in bind (get_config w3) (\<lambda>cfg w4.
           if wfs_type (p_wfss cfg ! wfs) = SH then
             (Returned, add_dispDock base (''SH_'' @ fmt_d (int wfs)) ''wao_imagesgroup_cb'' ''pg_image'' w4)
           else if wfs_type (p_wfss cfg ! wfs) = PYRHR \<or> wfs_type (p_wfss cfg ! wfs) = PYRLR then
             (let w5 = add_dispDock base (''pyrFocalPlane_'' @ fmt_d (int wfs)) ''wao_imagesgroup_cb'' ''pg_image'' w4;
                  w6 = add_dispDock base (''pyrHR_'' @ fmt_d (int wfs)) ''wao_imagesgroup_cb'' ''pg_image'' w5
              in (Returned, add_dispDock base (''pyrLR_'' @ fmt_d (int wfs)) ''wao_imagesgroup_cb'' ''pg_image'' w6))
           else (Raised TypeError, w4)))"

text \<open>\<open>for i in range(n): self.add_dispDock(prefix % i, parent)\<close>\<close>

definition image_docks :: "(string \<Rightarrow> string \<Rightarrow> string \<Rightarrow> display \<Rightarrow> display) \<Rightarrow> string \<Rightarrow> string \<Rightarrow> nat \<Rightarrow> widget \<Rightarrow> widget" where
  "image_docks base prefix parent n w =
     fold (\<lambda>i. add_dispDock base (prefix @ fmt_d (int i)) parent ''pg_image'') [0..<n] w"

text \<open>The end of \<open>loadConfig\<close>, from the Strehl dock on.\<close>

definition finish_load :: "(string \<Rightarrow> string \<Rightarrow> string \<Rightarrow> display \<Rightarrow> display) \<Rightarrow> Param_config \<Rightarrow> widget \<Rightarrow> widget" where
  "finish_load base cfg w =
     (let w1 = add_dispDock base ''Strehl'' ''wao_graphgroup_cb'' ''SR'' w;
          w2 = emit (SetMaximum ''wao_resetSR_tarNum'' (int (n_targets cfg) - 1))
                 (emit (SetValue ''wao_resetSR_tarNum'' 0) (w1\<lparr>ui := (ui w1)\<lparr>wao_resetSR_tarNum := 0\<rparr>\<rparr>));
          w3 = emit (SetMaximum ''wao_dispSR_tar'' (int (n_targets cfg) - 1))
                 (emit (SetValue ''wao_dispSR_tar'' 0) (w2\<lparr>ui := (ui w2)\<lparr>wao_dispSR_tar := 0\<rparr>\<rparr>));
          w4 = emit (SetDisabled ''wao_init'' False)
                 (emit (SetDisabled ''wao_resetSR'' True)
                   (emit (SetDisabled ''wao_unzoom'' True)
                     (emit (SetDisabled ''wao_next'' True)
                       (emit (SetDisabled ''wao_run'' True) w3))));
          w5 = (if expert w4 then emit ExpertUpdatePanels (emit ExpertSetSupervisor w4) else w4);
          w6 = (case layout cfg of
                  None \<Rightarrow> w5
                | Some l \<Rightarrow> emit (LoadArea (defaultAreaPath w5 @ ''/'' @ l @ ''.area'')) w5)
      in emit AdjustSize w6)"

definition loadConfig :: "(display \<Rightarrow> display) \<Rightarrow> (string \<Rightarrow> string \<Rightarrow> string \<Rightarrow> display \<Rightarrow> display) \<Rightarrow> CompassSupervisor \<Rightarrow> string option \<Rightarrow> CompassSupervisor option \<Rightarrow> widget \<Rightarrow> outcome \<times> widget" where
  "loadConfig base_loadConfig base_add fresh configFile supervisor_arg w =
     and_then (remove_items (SRcircles w) (on_display base_loadConfig w)) (\<lambda>w1.
     and_then (remove_items (SRCrossX w1) w1) (\<lambda>w2.
     and_then (remove_items (SRCrossY w2) w2) (\<lambda>w3.
     and_then (remove_items (PyrEdgeX w3) w3) (\<lambda>w4.
     and_then (remove_items (PyrEdgeY w4) w4) (\<lambda>w5.
     and_then
       (case supervisor_arg of
          None \<Rightarrow>
            ask_unit (LoadConfig (case configFile of None \<Rightarrow> wao_selectConfig (ui w5) | Some f \<Rightarrow> f))
              (w5\<lparr>supervisor := Some fresh\<rparr>)
        | Some sv \<Rightarrow> (Returned, w5\<lparr>supervisor := Some sv\<rparr>)) (\<lambda>w6.
     bind (getConfig w6) (\<lambda>cfg w7.
     and_then (set_devices (w7\<lparr>config := Some cfg\<rparr>)) (\<lambda>w8.
       (let w9 = w8\<lparr>SRcircles := [], SRCrossX := [], SRCrossY := [], PyrEdgeX := [], PyrEdgeY := []\<rparr>;
            w10 = image_docks base_add ''atm_'' ''wao_phasesgroup_cb'' (n_atmos cfg) (w9\<lparr>natm := n_atmos cfg\<rparr>);
            w11 = w10\<lparr>nwfs := length (p_wfss cfg)\<rparr>
        in and_then (for_each [0..<nwfs w11] (wfs_docks base_add) w11) (\<lambda>w12.
             (let w13 = image_docks base_add ''dm_'' ''wao_phasesgroup_cb'' (n_dms cfg) (w12\<lparr>ndm := n_dms cfg\<rparr>);
                  w14 = w13\<lparr>ntar := n_targets cfg\<rparr>;
                  w15 = image_docks base_add ''tar_'' ''wao_phasesgroup_cb'' (ntar w14) w14;
                  w16 = image_docks base_add ''psfSE_'' ''wao_imagesgroup_cb'' (ntar w15) w15;
                  w17 = image_docks base_add ''psfLE_'' ''wao_imagesgroup_cb'' (ntar w16) w16
              in (Returned, finish_load base_add cfg w17))))))))))))"

section \<open>Construction and signal wiring\<close>

text \<open>
  The attributes that \<open>__init__\<close> assigns and the widget calls it logs (constructor
  called without a configuration file), on top of the state \<open>WidgetBase.__init__\<close>
  leaves.
\<close>

definition rollingWindow :: nat where
  "rollingWindow = 100"

definition widget_init :: "bool \<Rightarrow> string option \<Rightarrow> widget \<Rightarrow> widget" where
  "widget_init expert_arg devices_arg w =
     w\<lparr>SRLE := deque_new rollingWindow, SRSE := deque_new rollingWindow,
       numiter := deque_new rollingWindow, expert := expert_arg, devices := devices_arg,
       supervisor := None, config := None, stop := False, nbiter := 1000, refreshTime := 0,
       dispStatsInTerminal := False,
       SRCrossX := [], SRCrossY := [], SRcircles := [], PyrEdgeX := [], PyrEdgeY := [],
       natm := 0, nwfs := 0, ndm := 0, ntar := 0, PSFzoom := 50, firstTime := 1,
       ui := (ui w)\<lparr>wao_nbiters := 1000\<rparr>,
       gui := gui w @ [SetValue ''wao_nbiters'' 1000,
                       SetDisabled ''wao_run'' True, SetDisabled ''wao_next'' True,
                       SetDisabled ''wao_unzoom'' True, SetDisabled ''wao_resetSR'' True,
                       AdjustSize]\<rparr>"

text \<open>The \<open>connect\<close> calls of \<open>__init__\<close>: which slot a signal of the window runs.\<close>

datatype signal =
    Run_clicked bool
  | OpenLoop_clicked bool
  | Next_clicked
  | ResetSR_clicked
  | AllTarget_stateChanged bool
  | Forever_stateChanged bool
  | Atmosphere_clicked bool
  | ClearSR_clicked

definition on_signal :: "(widget \<Rightarrow> outcome \<times> widget) \<Rightarrow> signal \<Rightarrow> widget \<Rightarrow> outcome \<times> widget" where
  "on_signal base_run sg w =
     (case sg of
        Run_clicked pressed \<Rightarrow> aoLoopClicked base_run pressed w
      | OpenLoop_clicked pressed \<Rightarrow> aoLoopOpen pressed w
      | Next_clicked \<Rightarrow> loopOnce w
      | ResetSR_clicked \<Rightarrow> resetSR w
      | AllTarget_stateChanged state \<Rightarrow> updateAllTarget state w
      | Forever_stateChanged state \<Rightarrow> updateForever state w
      | Atmosphere_clicked atmos \<Rightarrow> set_see_atmos atmos w
      | ClearSR_clicked \<Rightarrow> clearSR w)"

section \<open>A concrete window\<close>

text \<open>
  A small supervisor and window on which the theorems below are instantiated: every call
  returns, the frame counter is the number of calls received so far, there are one
  atmosphere layer, one Shack-Hartmann sensor, one mirror and one target.
\<close>

definition demo_config :: Param_config where
  "demo_config =
     \<lparr>n_atmos = 1, p_wfss = [\<lparr>wfs_type = SH, nxsub = 8, nvalid = 2\<rparr>], n_dms = 1,
      n_targets = 1, cobs = 0, layout = None\<rparr>"

definition demo_supervisor :: CompassSupervisor where
  "demo_supervisor =
     \<lparr>calls = [], completes = (\<lambda>h c. True), frame_of = (\<lambda>h c. [[10, 1], [1, 1]]),
      strehl_of = (\<lambda>h t. (1 / 2, 1 / 4)), counter_of = (\<lambda>h. int (length h)),
      slopes_of = (\<lambda>h c. [0, 1, 2, 3]), init_of = (\<lambda>h. True),
      config_of = (\<lambda>h. demo_config), has_sim = (\<lambda>h. True),
      sim_is_None = (\<lambda>h. False), seeAtmos = (\<lambda>h. True), d_targets = (\<lambda>h. 1)\<rparr>"

definition demo_ui :: ui_state where
  "demo_ui =
     \<lparr>wao_run_checked = True, wao_openLoop_text = [], wao_strehlSE = [], wao_strehlLE = [],
      wao_currentFreq = 0, wao_nbiters = 3, wao_forever = False, wao_allTarget = False,
      wao_resetSR_tarNum = 0, wao_dispSR_tar = 0, wao_frameRate = 1,
      actionPSF_Log_Scale = False, wao_selectConfig = ''scao_sh_16x16_8pix.py'',
      curveSRSE = ([], []), curveSRLE = ([], [])\<rparr>"

definition demo_widget :: widget where
  "demo_widget =
     \<lparr>supervisor = Some demo_supervisor, config = Some demo_config, stop = False, nbiter = 3,
      refreshTime = 0, SRLE = deque_new 100, SRSE = deque_new 100, numiter = deque_new 100,
      dispStatsInTerminal = False, firstTime = 1, PSFzoom = 50, natm = 1, nwfs = 1, ndm = 1,
      ntar = 1, loopLock = False, docks = [], imgs = Map.empty, viewboxes = Map.empty,
      SRcircles = [], SRCrossX = [], SRCrossY = [], PyrEdgeX = [], PyrEdgeY = [],
      expert = False, devices = None, defaultAreaPath = ''/data/layouts'', ui = demo_ui, gui = [], stdout = [], clock = (\<lambda>n. real n), ticks = 0,
      wao_defined = False\<rparr>"

text \<open>The calls the supervisor has received so far (none when there is no supervisor).\<close>

definition sup_calls :: "widget \<Rightarrow> history" where
  "sup_calls w = (case supervisor w of None \<Rightarrow> [] | Some sv \<Rightarrow> calls sv)"

section \<open>Vocabulary of the statements\<close>

text \<open>
  What one iteration of the loop leaves alone: \<open>loopOnce\<close> writes the supervisor's call
  record, the clock position, the Strehl buffers, the Strehl displays and
  \<open>refreshTime\<close>, and nothing of what is listed here.
\<close>

definition loop_frame :: "widget \<Rightarrow> widget \<Rightarrow> bool" where
  "loop_frame w w' \<longleftrightarrow>
     config w' = config w \<and> stop w' = stop w \<and> nbiter w' = nbiter w \<and>
     loopLock w' = loopLock w \<and> stdout w' = stdout w \<and> docks w' = docks w \<and>
     imgs w' = imgs w \<and> viewboxes w' = viewboxes w \<and> clock w' = clock w \<and>
     dispStatsInTerminal w' = dispStatsInTerminal w \<and>
     wao_forever (ui w') = wao_forever (ui w) \<and> wao_frameRate (ui w') = wao_frameRate (ui w) \<and>
     wao_dispSR_tar (ui w') = wao_dispSR_tar (ui w) \<and> wao_run_checked (ui w') = wao_run_checked (ui w) \<and>
     (supervisor w = None \<longrightarrow> supervisor w' = None)"

text \<open>\<open>k\<close> run steps in a row, each one call of \<open>run\<close>.\<close>

primrec run_steps :: "(widget \<Rightarrow> outcome \<times> widget) \<Rightarrow> nat \<Rightarrow> widget \<Rightarrow> widget" where
  "run_steps base_run 0 w = w"
| "run_steps base_run (Suc k) w = run_steps base_run k (snd (run base_run w))"

text \<open>
  The assumption on the missing \<open>WidgetBase.run\<close>: it returns, and it leaves the
  iteration counter, the stop flag and the "forever" box as they are.
\<close>

definition keeps_counters :: "(widget \<Rightarrow> outcome \<times> widget) \<Rightarrow> bool" where
  "keeps_counters base_run \<longleftrightarrow>
     (\<forall>w. fst (base_run w) = Returned \<and> nbiter (snd (base_run w)) = nbiter w \<and>
          stop (snd (base_run w)) = stop w \<and>
          wao_forever (ui (snd (base_run w))) = wao_forever (ui w))"


definition display_frame :: "widget \<Rightarrow> widget \<Rightarrow> bool" where
  "display_frame w w' \<longleftrightarrow>
     config w' = config w \<and> stop w' = stop w \<and> nbiter w' = nbiter w \<and>
     refreshTime w' = refreshTime w \<and> SRLE w' = SRLE w \<and> SRSE w' = SRSE w \<and>
     numiter w' = numiter w \<and> loopLock w' = loopLock w \<and> firstTime w' = firstTime w \<and>
     stdout w' = stdout w \<and> docks w' = docks w \<and> ui w' = ui w \<and>
     wao_defined w' = wao_defined w \<and> PSFzoom w' = PSFzoom w \<and>
     clock w' = clock w \<and> ticks w' = ticks w \<and>
     (supervisor w = None \<longrightarrow> supervisor w' = None)"

definition same_buffers :: "widget \<Rightarrow> widget \<Rightarrow> bool" where
  "same_buffers w w' \<longleftrightarrow> SRLE w' = SRLE w \<and> SRSE w' = SRSE w \<and> numiter w' = numiter w"

datatype method_call =
    Signal signal
  | Call_updateDisplay
  | Call_updateSRDisplay real real int
  | Call_loadConfig "string option" "CompassSupervisor option"
  | Call_run

definition call_method :: "(widget \<Rightarrow> outcome \<times> widget) \<Rightarrow> (display \<Rightarrow> display) \<Rightarrow> (string \<Rightarrow> string \<Rightarrow> string \<Rightarrow> display \<Rightarrow> display) \<Rightarrow> CompassSupervisor \<Rightarrow> method_call \<Rightarrow> widget \<Rightarrow> widget" where
  "call_method base_run base_loadConfig base_add fresh m w =
     snd (case m of
            Signal sg \<Rightarrow> on_signal base_run sg w
          | Call_updateDisplay \<Rightarrow> updateDisplay w
          | Call_updateSRDisplay le se n \<Rightarrow> updateSRDisplay le se n w
          | Call_loadConfig configFile sv \<Rightarrow> loadConfig base_loadConfig base_add fresh configFile sv w
          | Call_run \<Rightarrow> run base_run w)"

definition call_all :: "(widget \<Rightarrow> outcome \<times> widget) \<Rightarrow> (display \<Rightarrow> display) \<Rightarrow> (string \<Rightarrow> string \<Rightarrow> string \<Rightarrow> display \<Rightarrow> display) \<Rightarrow> CompassSupervisor \<Rightarrow> method_call list \<Rightarrow> widget \<Rightarrow> widget" where
  "call_all base_run base_loadConfig base_add fresh ms w =
     fold (call_method base_run base_loadConfig base_add fresh) ms w"

definition sr_inv :: "nat \<Rightarrow> widget \<Rightarrow> bool" where
  "sr_inv n w \<longleftrightarrow>
     length (items (SRSE w)) = length (items (SRLE w)) \<and>
     length (items (numiter w)) = length (items (SRLE w)) \<and>
     maxlen (SRLE w) = n \<and> maxlen (SRSE w) = n \<and> maxlen (numiter w) = n \<and>
     length (items (SRLE w)) \<le> n"

definition clears :: "method_call \<Rightarrow> bool" where
  "clears m = (case m of Signal ClearSR_clicked \<Rightarrow> True | _ \<Rightarrow> False)"

definition window_after :: "method_call list \<Rightarrow> nat \<Rightarrow> nat" where
  "window_after ms n = (if list_ex clears ms then 20 else n)"

definition strehl_log :: "history \<Rightarrow> (int \<times> real \<times> real) list" where
  "strehl_log h =
     concat (map (\<lambda>(c, r). case c of
                              GetStrehl t \<Rightarrow> (case r of StrehlR se le \<Rightarrow> [(t, se, le)] | _ \<Rightarrow> [])
                            | _ \<Rightarrow> []) h)"

definition strehl_only :: "history \<Rightarrow> bool" where
  "strehl_only h =
     list_all (\<lambda>(c, r). case c of GetStrehl t \<Rightarrow> True | GetFrameCounter \<Rightarrow> True | _ \<Rightarrow> False) h"

definition grown :: "CompassSupervisor \<Rightarrow> history \<Rightarrow> widget \<Rightarrow> bool" where
  "grown sv ext s \<longleftrightarrow> supervisor s = Some (sv\<lparr>calls := calls sv @ ext\<rparr>)"

definition strehl_frame :: "widget \<Rightarrow> widget \<Rightarrow> bool" where
  "strehl_frame w w' \<longleftrightarrow>
     config w' = config w \<and> refreshTime w' = refreshTime w \<and> ticks w' = ticks w \<and>
     clock w' = clock w \<and> dispStatsInTerminal w' = dispStatsInTerminal w \<and> gui w' = gui w \<and>
     wao_dispSR_tar (ui w') = wao_dispSR_tar (ui w) \<and> wao_strehlSE (ui w') = wao_strehlSE (ui w) \<and>
     wao_strehlLE (ui w') = wao_strehlLE (ui w) \<and> wao_currentFreq (ui w') = wao_currentFreq (ui w)"

definition sr_text :: "((real \<times> real) \<Rightarrow> real) \<Rightarrow> (int \<times> real \<times> real) list \<Rightarrow> string" where
  "sr_text pick l = concat (map (\<lambda>(t, sr). fmt_2f (pick sr) @ ''   '') l)"

definition refresh_due :: "widget \<Rightarrow> bool" where
  "refresh_due w \<longleftrightarrow>
     wao_frameRate (ui w) \<noteq> 0 \<and>
     clock w (ticks w + 2) - refreshTime w > 1 / wao_frameRate (ui w)"

definition is_singleNext :: "sup_call \<Rightarrow> bool" where
  "is_singleNext c = (case c of SingleNext b \<Rightarrow> True | _ \<Rightarrow> False)"

definition bursty_clock :: "nat \<Rightarrow> real" where
  "bursty_clock n = [100, 1009 / 10, 1009 / 10, 1009 / 10, 10095 / 100, 10105 / 100, 10105 / 100, 10105 / 100] ! n"

definition sup_only :: "widget \<Rightarrow> widget \<Rightarrow> bool" where
  "sup_only w s \<longleftrightarrow> (\<exists>x. s = w\<lparr>supervisor := x\<rparr>)"

definition bursty_widget :: widget where
  "bursty_widget = demo_widget\<lparr>clock := bursty_clock\<rparr>"

text \<open>
  What \<open>loadConfig\<close> is expected to do to the window, as lists of events:
  \<open>removal_events\<close> are the \<open>removeItem\<close> calls for the stored overlay items,
  \<open>device_events\<close> the \<open>set_devices\<close> call, \<open>expected_docks\<close> the docks of a
  configuration in creation order, and \<open>closing_events\<close> what follows the Strehl
  dock.  \<open>replay\<close> is what a logged call does to the docks, images and view boxes:
  \<open>add_dispDock\<close> hands them to \<open>WidgetBase.add_dispDock\<close>, \<open>removeItem\<close> takes the
  item out of its view box, the other calls leave them alone.
  \<open>load_step base evs s s'\<close> says that \<open>s'\<close> is \<open>s\<close> with \<open>evs\<close> appended to the
  event log, the docks, images and view boxes those of \<open>s\<close> after the calls \<open>evs\<close>, and
  the attributes read later in \<open>loadConfig\<close> unchanged.
  \<open>loaded_config\<close> is the configuration the supervisor hands back and
  \<open>load_calls_complete\<close> says that its \<open>loadConfig\<close> and \<open>getConfig\<close> return.
\<close>

definition numbered_docks :: "string \<Rightarrow> string \<Rightarrow> nat \<Rightarrow> gui_event list" where
  "numbered_docks prefix parent n =
     map (\<lambda>i. AddDispDock (prefix @ fmt_d (int i)) parent ''pg_image'') [0..<n]"

definition sensor_docks :: "Param_wfs \<Rightarrow> nat \<Rightarrow> gui_event list" where
  "sensor_docks p i =
     [AddDispDock (''wfs_'' @ fmt_d (int i)) ''wao_phasesgroup_cb'' ''pg_image'',
      AddDispDock (''slpComp_'' @ fmt_d (int i)) ''wao_graphgroup_cb'' ''MPL'',
      AddDispDock (''slpGeom_'' @ fmt_d (int i)) ''wao_graphgroup_cb'' ''MPL''] @
     (if wfs_type p = SH
      then [AddDispDock (''SH_'' @ fmt_d (int i)) ''wao_imagesgroup_cb'' ''pg_image'']
      else [AddDispDock (''pyrFocalPlane_'' @ fmt_d (int i)) ''wao_imagesgroup_cb'' ''pg_image'',
            AddDispDock (''pyrHR_'' @ fmt_d (int i)) ''wao_imagesgroup_cb'' ''pg_image'',
            AddDispDock (''pyrLR_'' @ fmt_d (int i)) ''wao_imagesgroup_cb'' ''pg_image''])"

definition expected_docks :: "Param_config \<Rightarrow> gui_event list" where
  "expected_docks cfg =
     numbered_docks ''atm_'' ''wao_phasesgroup_cb'' (n_atmos cfg) @
     concat (map (\<lambda>i. sensor_docks (p_wfss cfg ! i) i) [0..<length (p_wfss cfg)]) @
     numbered_docks ''dm_'' ''wao_phasesgroup_cb'' (n_dms cfg) @
     numbered_docks ''tar_'' ''wao_phasesgroup_cb'' (n_targets cfg) @
     numbered_docks ''psfSE_'' ''wao_imagesgroup_cb'' (n_targets cfg) @
     numbered_docks ''psfLE_'' ''wao_imagesgroup_cb'' (n_targets cfg) @
     [AddDispDock ''Strehl'' ''wao_graphgroup_cb'' ''SR'']"

definition removal_events :: "widget \<Rightarrow> gui_event list" where
  "removal_events w =
     map (\<lambda>(key, pgpl). RemoveItem key pgpl)
       (SRcircles w @ SRCrossX w @ SRCrossY w @ PyrEdgeX w @ PyrEdgeY w)"

definition device_events :: "widget \<Rightarrow> gui_event list" where
  "device_events w =
     (case devices w of
        None \<Rightarrow> []
      | Some ds \<Rightarrow>
          if ds = [] then []
          else (case parse_all (py_split CHR '','' ds) of Inl e \<Rightarrow> [] | Inr is \<Rightarrow> [SetDevices is]))"

definition devices_ok :: "widget \<Rightarrow> bool" where
  "devices_ok w =
     (case devices w of
        None \<Rightarrow> True
      | Some ds \<Rightarrow> ds = [] \<or> (case parse_all (py_split CHR '','' ds) of Inl e \<Rightarrow> False | Inr is \<Rightarrow> True))"

definition closing_events :: "widget \<Rightarrow> Param_config \<Rightarrow> gui_event list" where
  "closing_events w cfg =
     [AddWidgetStrehl ''Strehl'',
      SetValue ''wao_resetSR_tarNum'' 0, SetMaximum ''wao_resetSR_tarNum'' (int (n_targets cfg) - 1),
      SetValue ''wao_dispSR_tar'' 0, SetMaximum ''wao_dispSR_tar'' (int (n_targets cfg) - 1),
      SetDisabled ''wao_run'' True, SetDisabled ''wao_next'' True, SetDisabled ''wao_unzoom'' True,
      SetDisabled ''wao_resetSR'' True, SetDisabled ''wao_init'' False] @
     (if expert w then [ExpertSetSupervisor, ExpertUpdatePanels] else []) @
     (case layout cfg of None \<Rightarrow> [] | Some l \<Rightarrow> [LoadArea (defaultAreaPath w @ ''/'' @ l @ ''.area'')]) @
     [AdjustSize]"

definition display_of :: "widget \<Rightarrow> display" where
  "display_of w = (docks w, imgs w, viewboxes w)"

definition replay :: "(string \<Rightarrow> string \<Rightarrow> string \<Rightarrow> display \<Rightarrow> display) \<Rightarrow> gui_event \<Rightarrow> display \<Rightarrow> display" where
  "replay base ev disp =
     (case ev of
        AddDispDock name parent type \<Rightarrow> base name parent type disp
      | RemoveItem key pgpl \<Rightarrow>
          (case disp of (d, i, v) \<Rightarrow>
             (case v key of
                None \<Rightarrow> disp
              | Some vb \<Rightarrow> (d, i, v(key \<mapsto> vb\<lparr>vb_items := remove1 pgpl (vb_items vb)\<rparr>))))
      | _ \<Rightarrow> disp)"

definition load_step :: "(string \<Rightarrow> string \<Rightarrow> string \<Rightarrow> display \<Rightarrow> display) \<Rightarrow> gui_event list \<Rightarrow> widget \<Rightarrow> widget \<Rightarrow> bool" where
  "load_step base evs s s' \<longleftrightarrow>
     gui s' = gui s @ evs \<and> display_of s' = fold (replay base) evs (display_of s) \<and>
     config s' = config s \<and> SRcircles s' = SRcircles s \<and>
     SRCrossX s' = SRCrossX s \<and> SRCrossY s' = SRCrossY s \<and> PyrEdgeX s' = PyrEdgeX s \<and>
     PyrEdgeY s' = PyrEdgeY s \<and> expert s' = expert s \<and> defaultAreaPath s' = defaultAreaPath s \<and>
     devices s' = devices s \<and> supervisor s' = supervisor s"

definition chosen_file :: "string option \<Rightarrow> widget \<Rightarrow> string" where
  "chosen_file configFile w = (case configFile of None \<Rightarrow> wao_selectConfig (ui w) | Some f \<Rightarrow> f)"

definition loaded_config :: "CompassSupervisor \<Rightarrow> string option \<Rightarrow> CompassSupervisor option \<Rightarrow> widget \<Rightarrow> Param_config" where
  "loaded_config fresh configFile supervisor_arg w =
     (case supervisor_arg of
        None \<Rightarrow> config_of fresh (calls fresh @ [(LoadConfig (chosen_file configFile w), NoneR)])
      | Some sv \<Rightarrow> config_of sv (calls sv))"

definition load_calls_complete :: "CompassSupervisor \<Rightarrow> string option \<Rightarrow> CompassSupervisor option \<Rightarrow> widget \<Rightarrow> bool" where
  "load_calls_complete fresh configFile supervisor_arg w =
     (case supervisor_arg of
        None \<Rightarrow>
          completes fresh (calls fresh) (LoadConfig (chosen_file configFile w)) \<and>
          completes fresh (calls fresh @ [(LoadConfig (chosen_file configFile w), NoneR)]) GetConfig
      | Some sv \<Rightarrow> completes sv (calls sv) GetConfig)"

definition overlay_items :: "widget \<Rightarrow> (string \<times> string) list" where
  "overlay_items w = SRcircles w @ SRCrossX w @ SRCrossY w @ PyrEdgeX w @ PyrEdgeY w"

text \<open>
  A stand-in for \<open>WidgetBase.add_dispDock\<close> in the examples: a visible dock is
  appended, with a canvas for the type \<open>MPL\<close>, an image item otherwise, and an empty
  view box.
\<close>

definition demo_add :: "string \<Rightarrow> string \<Rightarrow> string \<Rightarrow> display \<Rightarrow> display" where
  "demo_add name parent type disp =
     (case disp of (d, i, v) \<Rightarrow>
        (d @ [(name, \<lparr>visible = True\<rparr>)],
         i(name \<mapsto> (if type = ''MPL'' then Canvas [] [] else ImageItem None)),
         v(name \<mapsto> \<lparr>vb_items = [], vb_range = None\<rparr>)))"

definition load_window :: widget where
  "load_window =
     demo_widget\<lparr>SRcircles := [(''hist'', ''circle'')], PyrEdgeX := [(''pyrHR_0'', ''edge'')],
       viewboxes := [''hist'' \<mapsto> \<lparr>vb_items = [''circle'', ''axis''], vb_range = None\<rparr>,
                     ''pyrHR_0'' \<mapsto> \<lparr>vb_items = [''edge''], vb_range = None\<rparr>],
       devices := Some ''0,1'', supervisor := None, config := None\<rparr>"

section \<open>Lemmas\<close>

lemmas loop_defs = loopOnce_def loopOnce_body_def singleNext_def comp_images_def
  refresh_displays_def strehl_step_def getStrehl_def getFrameCounter_def ask_unit_def ask_def
  record_call_def time_time_def py_print_def get_config_def updateSRDisplay_def updateSRSE_def
  updateSRLE_def updateCurrentLoopFrequency_def emit_def deque_append_def deque_new_def

lemmas demo_defs = demo_widget_def demo_ui_def demo_supervisor_def demo_config_def

lemma bind_Inr [simp]: "bind (Inr v, s) f = f v s"
  by (simp add: bind_def)

lemma bind_Inl [simp]: "bind (Inl e, s) f = (Inl e, s)"
  by (simp add: bind_def)

lemma and_then_Inr [simp]: "and_then (Inr v, s) f = f s"
  by (simp add: and_then_def)

lemma and_then_Inl [simp]: "and_then (Inl e, s) f = (Inl e, s)"
  by (simp add: and_then_def)

lemma ask_Some:
  "supervisor w = Some sv \<Longrightarrow>
   ask oracle wrap c w =
     (if completes sv (calls sv) c
      then (Inr (oracle sv), w\<lparr>supervisor := Some (record_call c (wrap (oracle sv)) sv)\<rparr>)
      else (Raised SupervisorError, w\<lparr>supervisor := Some (record_call c Raises sv)\<rparr>))"
  by (simp add: ask_def)

text \<open>A loop of calls that all return appends one record per element, in order.\<close>

lemma for_each_ask_unit:
  "supervisor w = Some sv \<Longrightarrow> \<forall>h c. completes sv h c \<Longrightarrow>
   for_each xs (\<lambda>x. ask_unit (f x)) w =
     (Returned, w\<lparr>supervisor := Some (sv\<lparr>calls := calls sv @ map (\<lambda>x. (f x, NoneR)) xs\<rparr>)\<rparr>)"
proof (induction xs arbitrary: w sv)
  case Nil
  then show ?case by simp
next
  case (Cons x xs)
  let ?sv = "record_call (f x) NoneR sv"
  let ?w = "w\<lparr>supervisor := Some ?sv\<rparr>"
  have step: "ask_unit (f x) w = (Returned, ?w)"
    using Cons.prems by (simp add: ask_unit_def ask_Some)
  have "for_each xs (\<lambda>x. ask_unit (f x)) ?w =
     (Returned, ?w\<lparr>supervisor := Some (?sv\<lparr>calls := calls ?sv @ map (\<lambda>x. (f x, NoneR)) xs\<rparr>)\<rparr>)"
    using Cons.prems by (intro Cons.IH) (simp_all add: record_call_def)
  then show ?case using step by (simp add: record_call_def)
qed

section \<open>The open-loop button\<close>

text \<open>
  Claim C6.  \<open>aoLoopOpen\<close>, the slot of the open-loop toggle button: pressed, the window
  calls \<open>supervisor.closeLoop()\<close> and sets the button text to "Open Loop"; released, it
  calls \<open>supervisor.openLoop()\<close> and sets the text to "Close Loop".  The call is the only
  one made, and the text changes once the call has returned; if the call raises, the
  exception leaves the slot and the text stays.
\<close>

theorem aoLoopOpen_wiring:
  assumes "supervisor w = Some sv"
  shows "aoLoopOpen pressed w =
    (let c = (if pressed then CloseLoop else OpenLoop)
     in if completes sv (calls sv) c
        then (Returned, w\<lparr>supervisor := Some (record_call c NoneR sv),
                 ui := (ui w)\<lparr>wao_openLoop_text := (if pressed then ''Open Loop'' else ''Close Loop'')\<rparr>\<rparr>)
        else (Raised SupervisorError, w\<lparr>supervisor := Some (record_call c Raises sv)\<rparr>))"
  using assms by (simp add: aoLoopOpen_def ask_unit_def ask_Some)

theorem aoLoopOpen_wiring_witness:
  "supervisor demo_widget = Some demo_supervisor \<and>
   sup_calls (snd (aoLoopOpen True demo_widget)) = [(CloseLoop, NoneR)] \<and>
   wao_openLoop_text (ui (snd (aoLoopOpen True demo_widget))) = ''Open Loop'' \<and>
   sup_calls (snd (aoLoopOpen False demo_widget)) = [(OpenLoop, NoneR)] \<and>
   wao_openLoop_text (ui (snd (aoLoopOpen False demo_widget))) = ''Close Loop''"
  using aoLoopOpen_wiring [of demo_widget demo_supervisor True]
        aoLoopOpen_wiring [of demo_widget demo_supervisor False]
  by (simp add: demo_widget_def demo_supervisor_def sup_calls_def record_call_def)

section \<open>The reset-SR button\<close>

text \<open>
  Claim C7.  \<open>resetSR\<close>, the slot of the reset-SR button: with the "all targets" box
  checked it calls \<open>supervisor.resetStrehl(t)\<close> for every target index \<open>t\<close> from 0 to the
  number of configured targets minus one, in this order and nothing else; otherwise it
  calls \<open>supervisor.resetStrehl\<close> exactly once, on the target number of the spin box.
\<close>

theorem resetSR_calls:
  assumes "supervisor w = Some sv"
  shows "(wao_allTarget (ui w) \<longrightarrow> config w = Some cfg \<longrightarrow> (\<forall>h c. completes sv h c) \<longrightarrow>
            fst (resetSR w) = Returned \<and>
            sup_calls (snd (resetSR w)) =
              sup_calls w @ map (\<lambda>t. (ResetStrehl (int t), NoneR)) [0..<n_targets cfg]) \<and>
         (\<not> wao_allTarget (ui w) \<longrightarrow>
            (\<exists>r. sup_calls (snd (resetSR w)) =
                    sup_calls w @ [(ResetStrehl (wao_resetSR_tarNum (ui w)), r)]))"
proof (intro conjI impI)
  assume a: "wao_allTarget (ui w)" "config w = Some cfg" "\<forall>h c. completes sv h c"
  have "resetSR w = for_each (map int [0..<n_targets cfg]) (\<lambda>t. ask_unit (ResetStrehl t)) w"
    using a by (simp add: resetSR_def get_config_def)
  also have "\<dots> = (Returned, w\<lparr>supervisor := Some (sv\<lparr>calls := calls sv @
       map (\<lambda>t. (ResetStrehl t, NoneR)) (map int [0..<n_targets cfg])\<rparr>)\<rparr>)"
    using assms a(3) by (rule for_each_ask_unit)
  finally show "fst (resetSR w) = Returned"
    and "sup_calls (snd (resetSR w)) =
              sup_calls w @ map (\<lambda>t. (ResetStrehl (int t), NoneR)) [0..<n_targets cfg]"
    using assms by (simp_all add: sup_calls_def comp_def)
next
  assume "\<not> wao_allTarget (ui w)"
  then show "\<exists>r. sup_calls (snd (resetSR w)) =
                    sup_calls w @ [(ResetStrehl (wao_resetSR_tarNum (ui w)), r)]"
    using assms
    by (simp add: resetSR_def ask_unit_def ask_def py_print_def sup_calls_def record_call_def Let_def)
qed


theorem resetSR_calls_witness:
  "sup_calls (snd (resetSR (demo_widget\<lparr>ui := demo_ui\<lparr>wao_allTarget := True\<rparr>\<rparr>))) =
     [(ResetStrehl 0, NoneR)] \<and>
   (\<exists>r. sup_calls (snd (resetSR demo_widget)) = [(ResetStrehl 0, r)])"
  using resetSR_calls [of "demo_widget\<lparr>ui := demo_ui\<lparr>wao_allTarget := True\<rparr>\<rparr>" demo_supervisor demo_config]
        resetSR_calls [of demo_widget demo_supervisor demo_config]
  by (simp add: demo_widget_def demo_supervisor_def demo_config_def demo_ui_def sup_calls_def)

section \<open>The run button\<close>

text \<open>
  Claim C5.  The \<open>clicked\<close> signal of the run button runs \<open>aoLoopClicked\<close>: pressed, it
  sets the stop flag to \<open>False\<close>, records the current time as \<open>refreshTime\<close>, reads the
  iteration count of the \<open>nbiters\<close> box into \<open>nbiter\<close> and starts the loop by calling
  \<open>run\<close> on that state; unpressed, it sets the stop flag to \<open>True\<close> and does nothing else.
\<close>

theorem run_button_wiring:
  "on_signal base_run (Run_clicked True) w =
     (let s = w\<lparr>stop := False, ticks := ticks w + 1, refreshTime := clock w (ticks w),
                 nbiter := wao_nbiters (ui w)\<rparr>
      in run base_run
           (if dispStatsInTerminal w
            then py_print (if wao_forever (ui w) then ''LOOP STARTED''
                           else ''LOOP STARTED FOR '' @ fmt_d (wao_nbiters (ui w)) @ '' iterations'') s
            else s)) \<and>
   on_signal base_run (Run_clicked False) w = (Returned, w\<lparr>stop := True\<rparr>)"
  by (simp add: on_signal_def aoLoopClicked_def time_time_def Let_def py_print_def)

section \<open>What an iteration leaves alone\<close>

lemma loop_frame_refl [simp]: "loop_frame w w"
  by (simp add: loop_frame_def)

lemma loop_frame_trans: "loop_frame a b \<Longrightarrow> loop_frame b c \<Longrightarrow> loop_frame a c"
  by (simp add: loop_frame_def)

lemma bind_rel:
  assumes "R w (snd m)" and "\<And>v s. R w s \<Longrightarrow> R w (snd (f v s))"
  shows "R w (snd (bind m f))"
  using assms by (cases m) (auto simp: bind_def split: sum.splits)

lemma and_then_rel:
  assumes "R w (snd m)" and "\<And>s. R w s \<Longrightarrow> R w (snd (f s))"
  shows "R w (snd (and_then m f))"
  unfolding and_then_def by (rule bind_rel) (use assms in simp_all)

lemma for_each_rel:
  assumes "R w s" and "\<And>x a. R w a \<Longrightarrow> R w (snd (body x a))"
  shows "R w (snd (for_each xs body s))"
  using assms(1)
proof (induction xs arbitrary: s)
  case Nil
  then show ?case by simp
next
  case (Cons x xs)
  have "R w (snd (body x s))" using Cons.prems by (rule assms(2))
  then show ?case
    using Cons.IH [of "snd (body x s)"] by (cases "body x s") (auto split: sum.splits)
qed

lemmas lf_bind = bind_rel [where R = loop_frame]
lemmas lf_and_then = and_then_rel [where R = loop_frame]
lemmas lf_for_each = for_each_rel [where R = loop_frame]

lemma ask_frame_rel: "loop_frame w s \<Longrightarrow> loop_frame w (snd (ask oracle wrap c s))"
  by (auto simp: ask_def loop_frame_def split: option.splits)

lemma updateSRDisplay_frame: "loop_frame w s \<Longrightarrow> loop_frame w (snd (updateSRDisplay a b n s))"
  by (simp add: updateSRDisplay_def loop_frame_def Let_def)

lemma getStrehl_frame: "loop_frame w s \<Longrightarrow> loop_frame w (snd (getStrehl t s))"
  unfolding getStrehl_def by (rule ask_frame_rel)

lemma getFrameCounter_frame: "loop_frame w s \<Longrightarrow> loop_frame w (snd (getFrameCounter s))"
  unfolding getFrameCounter_def by (rule ask_frame_rel)

lemma strehl_step_frame:
  assumes "loop_frame w (snd s)"
  shows "loop_frame w (snd (snd (strehl_step t s)))"
proof -
  obtain a b s0 where s: "s = ((a, b), s0)" by (cases s) auto
  obtain r1 w1 where g: "getStrehl t s0 = (r1, w1)" by (cases "getStrehl t s0")
  have "loop_frame w (snd (getStrehl t s0))"
    using assms s by (intro getStrehl_frame) simp
  then have f1: "loop_frame w w1" using g by simp
  show ?thesis
  proof (cases r1)
    case (Inl e)
    then show ?thesis using s g f1 by (simp add: strehl_step_def)
  next
    case (Inr SR)
    let ?m = "if t = wao_dispSR_tar (ui w1)
              then bind (getFrameCounter w1) (updateSRDisplay (snd SR) (fst SR))
              else (Returned, w1)"
    have "loop_frame w (snd ?m)"
      using f1 by (auto intro!: lf_bind getFrameCounter_frame updateSRDisplay_frame)
    then show ?thesis
      using s g Inr by (cases ?m) (auto simp: strehl_step_def split: sum.splits)
  qed
qed

lemma time_time_frame: "loop_frame w s \<Longrightarrow> loop_frame w (snd (time_time s))"
  by (simp add: time_time_def loop_frame_def)

lemma singleNext_frame: "loop_frame w s \<Longrightarrow> loop_frame w (snd (singleNext s))"
  by (auto simp: singleNext_def ask_unit_def split: option.splits intro: ask_frame_rel)

lemma comp_images_frame: "loop_frame w s \<Longrightarrow> loop_frame w (snd (comp_images s))"
  by (auto simp: comp_images_def ask_unit_def split: option.splits intro!: lf_for_each ask_frame_rel)

lemma show_texts_frame:
  "loop_frame w s \<Longrightarrow>
   loop_frame w (updateCurrentLoopFrequency f (updateSRLE le (updateSRSE se s)))"
  by (simp add: updateCurrentLoopFrequency_def updateSRLE_def updateSRSE_def loop_frame_def)

lemma emit_frame: "loop_frame w s \<Longrightarrow> loop_frame w (emit ev s)"
  by (simp add: emit_def loop_frame_def)

lemma refreshTime_frame: "loop_frame w s \<Longrightarrow> loop_frame w (s\<lparr>refreshTime := t\<rparr>)"
  by (simp add: loop_frame_def)

lemma refresh_tail_frame:
  assumes "loop_frame w s2"
  shows "loop_frame w (snd
     (if loopTime = 0 then (Raised ZeroDivisionError, s2)
      else
        (let currentFreq = 1 / loopTime; (t4, w3) = time_time s2
         in if t4 - refreshTime w3 = 0 then (Raised ZeroDivisionError, w3)
            else
              (let refreshFreq = 1 / (t4 - refreshTime w3);
                   w4 = updateCurrentLoopFrequency currentFreq
                          (updateSRLE signal_le (updateSRSE signal_se w3))
               in and_then
                    (if dispStatsInTerminal w4
                     then bind (getFrameCounter w4) (\<lambda>n w5.
                            (Returned, emit (PrintInPlace n signal_le signal_se refreshFreq currentFreq) w5))
                     else (Returned, w4))
                    (\<lambda>w6. (Returned :: outcome, w6\<lparr>refreshTime := start\<rparr>))))))"
proof -
  have t: "loop_frame w (snd (time_time s2))" using assms by (rule time_time_frame)
  show ?thesis
    using assms t
    by (auto simp: Let_def split_def
          intro!: lf_and_then lf_bind getFrameCounter_frame emit_frame refreshTime_frame
                  show_texts_frame)
qed

lemma refresh_displays_frame:
  assumes "loop_frame w s"
  shows "loop_frame w (snd (refresh_displays start loopTime s))"
proof (cases "config s")
  case None
  then show ?thesis using assms by (simp add: refresh_displays_def get_config_def)
next
  case (Some cfg)
  obtain r a b s2 where l: "for_each (map int [0..<n_targets cfg]) strehl_step (([], []), s) = (r, ((a, b), s2))"
    by (cases "for_each (map int [0..<n_targets cfg]) strehl_step (([], []), s)") auto
  have "loop_frame w (snd (snd (for_each (map int [0..<n_targets cfg]) strehl_step (([], []), s))))"
    by (rule for_each_rel [where R = "\<lambda>a b. loop_frame a (snd b)"]) (simp_all add: assms strehl_step_frame)
  then have f2: "loop_frame w s2" using l by simp
  show ?thesis
  proof (cases r)
    case (Inl e)
    then show ?thesis using Some l f2 by (simp add: refresh_displays_def get_config_def)
  next
    case (Inr u)
    then show ?thesis
      using Some l refresh_tail_frame [OF f2]
      by (simp add: refresh_displays_def get_config_def)
  qed
qed

lemma loopOnce_body_frame:
  assumes "loop_frame w s"
  shows "loop_frame w (snd (loopOnce_body s))"
  unfolding loopOnce_body_def Let_def split_def
  by (intro lf_and_then singleNext_frame comp_images_frame time_time_frame assms)
     (auto intro!: time_time_frame refresh_displays_frame)


lemma run_step:
  "base_run w = (Returned, w1) \<Longrightarrow>
   run base_run w =
     (Returned,
      (let n = (if wao_forever (ui w1) then nbiter w1 else nbiter w1 - 1)
       in if n \<le> 0 then w1\<lparr>nbiter := n, stop := True, ui := (ui w1)\<lparr>wao_run_checked := False\<rparr>\<rparr>
          else w1\<lparr>nbiter := n\<rparr>))"
  by (simp add: run_def Let_def)


section \<open>Counting the iterations down\<close>

lemma loopOnce_Returned [simp]: "fst (loopOnce w) = Returned"
  by (simp add: loopOnce_def Let_def split_def)

lemma loopOnce_frame:
  "config (snd (loopOnce w)) = config w \<and> stop (snd (loopOnce w)) = stop w \<and>
   nbiter (snd (loopOnce w)) = nbiter w \<and> loopLock (snd (loopOnce w)) = loopLock w \<and>
   docks (snd (loopOnce w)) = docks w \<and> imgs (snd (loopOnce w)) = imgs w \<and>
   viewboxes (snd (loopOnce w)) = viewboxes w \<and>
   wao_forever (ui (snd (loopOnce w))) = wao_forever (ui w) \<and>
   wao_run_checked (ui (snd (loopOnce w))) = wao_run_checked (ui w)"
proof (cases "loopLock w")
  case True
  then show ?thesis by (simp add: loopOnce_def py_print_def)
next
  case False
  have "loop_frame (w\<lparr>loopLock := True\<rparr>) (snd (loopOnce_body (w\<lparr>loopLock := True\<rparr>)))"
    by (rule loopOnce_body_frame) simp
  then show ?thesis
    using False
    by (cases "loopOnce_body (w\<lparr>loopLock := True\<rparr>)")
       (auto simp: loopOnce_def loop_frame_def py_print_def split: sum.splits)
qed

lemma loopOnce_keeps_counters: "keeps_counters loopOnce"
  by (simp add: keeps_counters_def loopOnce_frame)

lemma run_keeps:
  assumes "keeps_counters base_run"
  shows "nbiter (snd (run base_run w)) = (if wao_forever (ui w) then nbiter w else nbiter w - 1)"
    and "stop (snd (run base_run w)) \<longleftrightarrow> stop w \<or> nbiter (snd (run base_run w)) \<le> 0"
    and "wao_forever (ui (snd (run base_run w))) = wao_forever (ui w)"
    and "nbiter (snd (run base_run w)) \<le> 0 \<longrightarrow> \<not> wao_run_checked (ui (snd (run base_run w)))"
    and "fst (run base_run w) = Returned"
proof -
  have a: "fst (base_run w) = Returned" "nbiter (snd (base_run w)) = nbiter w"
    "stop (snd (base_run w)) = stop w" "wao_forever (ui (snd (base_run w))) = wao_forever (ui w)"
    using assms unfolding keeps_counters_def by simp_all
  obtain w1 where b: "base_run w = (Returned, w1)"
    using a(1) by (cases "base_run w") simp
  have k: "nbiter w1 = nbiter w" "stop w1 = stop w" "wao_forever (ui w1) = wao_forever (ui w)"
    using a b by simp_all
  show "nbiter (snd (run base_run w)) = (if wao_forever (ui w) then nbiter w else nbiter w - 1)"
    and "stop (snd (run base_run w)) \<longleftrightarrow> stop w \<or> nbiter (snd (run base_run w)) \<le> 0"
    and "wao_forever (ui (snd (run base_run w))) = wao_forever (ui w)"
    and "nbiter (snd (run base_run w)) \<le> 0 \<longrightarrow> \<not> wao_run_checked (ui (snd (run base_run w)))"
    and "fst (run base_run w) = Returned"
    using k run_step [of base_run w w1, OF b] by (simp_all add: Let_def)
qed

lemma run_steps_counting:
  assumes "keeps_counters base_run" and "\<not> wao_forever (ui w)"
  shows "nbiter (run_steps base_run k w) = nbiter w - int k \<and>
         \<not> wao_forever (ui (run_steps base_run k w)) \<and>
         (stop (run_steps base_run k w) \<longleftrightarrow> stop w \<or> (0 < k \<and> nbiter w \<le> int k))"
  using assms(2)
proof (induction k arbitrary: w)
  case 0
  then show ?case by simp
next
  case (Suc k)
  let ?w = "snd (run base_run w)"
  have n: "nbiter ?w = nbiter w - 1" and f: "\<not> wao_forever (ui ?w)"
    and s: "stop ?w \<longleftrightarrow> stop w \<or> nbiter ?w \<le> 0"
    using run_keeps [OF assms(1), of w] Suc.prems by simp_all
  show ?case
    using Suc.IH [OF f] n s by auto
qed

lemma run_steps_forever:
  assumes "keeps_counters base_run" and "wao_forever (ui w)" and "0 < nbiter w"
  shows "nbiter (run_steps base_run k w) = nbiter w \<and>
         wao_forever (ui (run_steps base_run k w)) \<and>
         (stop (run_steps base_run k w) \<longleftrightarrow> stop w)"
  using assms(2,3)
proof (induction k arbitrary: w)
  case 0
  then show ?case by simp
next
  case (Suc k)
  let ?w = "snd (run base_run w)"
  have n: "nbiter ?w = nbiter w" and f: "wao_forever (ui ?w)"
    and s: "stop ?w \<longleftrightarrow> stop w \<or> nbiter ?w \<le> 0"
    using run_keeps [OF assms(1), of w] Suc.prems by simp_all
  show ?case
    using Suc.IH [OF f] n s Suc.prems by auto
qed

text \<open>
  The counter of \<open>run\<close>.  With \<open>WidgetBase.run\<close> returning and leaving the counter, the
  stop flag and the "forever" box alone: when "forever" is unchecked each run step
  decrements \<open>nbiter\<close> by one; as soon as \<open>nbiter\<close> is 0 or below, \<open>run\<close> sets the stop
  flag and unchecks the run button; so in a row of run steps started with \<open>nbiter = N\<close>,
  \<open>N \<ge> 1\<close>, and the stop flag down, the flag is down after fewer than \<open>N\<close> steps and up
  after the \<open>N\<close>-th and every later one.  When "forever" is checked \<open>nbiter\<close> is never
  decremented, and \<open>run\<close> does not raise the stop flag as long as \<open>nbiter\<close> is positive.
\<close>

lemma run_countdown:
  assumes "keeps_counters base_run"
  shows "(\<not> wao_forever (ui w) \<longrightarrow> nbiter (snd (run base_run w)) = nbiter w - 1) \<and>
         (wao_forever (ui w) \<longrightarrow> nbiter (snd (run base_run w)) = nbiter w) \<and>
         (stop (snd (run base_run w)) \<longleftrightarrow> stop w \<or> nbiter (snd (run base_run w)) \<le> 0) \<and>
         (nbiter (snd (run base_run w)) \<le> 0 \<longrightarrow> \<not> wao_run_checked (ui (snd (run base_run w)))) \<and>
         (\<not> wao_forever (ui w) \<and> \<not> stop w \<and> 1 \<le> nbiter w \<longrightarrow>
            (\<forall>k. stop (run_steps base_run k w) \<longleftrightarrow> nbiter w \<le> int k)) \<and>
         (wao_forever (ui w) \<and> \<not> stop w \<and> 1 \<le> nbiter w \<longrightarrow>
            (\<forall>k. \<not> stop (run_steps base_run k w) \<and> nbiter (run_steps base_run k w) = nbiter w))"
proof (intro conjI impI allI)
  show "stop (snd (run base_run w)) \<longleftrightarrow> stop w \<or> nbiter (snd (run base_run w)) \<le> 0"
    using run_keeps(2) [OF assms] .
next
  assume "nbiter (snd (run base_run w)) \<le> 0"
  then show "\<not> wao_run_checked (ui (snd (run base_run w)))"
    using run_keeps(4) [OF assms, of w] by simp
next
  fix k
  assume a: "\<not> wao_forever (ui w) \<and> \<not> stop w \<and> 1 \<le> nbiter w"
  then show "stop (run_steps base_run k w) \<longleftrightarrow> nbiter w \<le> int k"
    using run_steps_counting [OF assms, of w k] by auto
next
  fix k
  assume a: "wao_forever (ui w) \<and> \<not> stop w \<and> 1 \<le> nbiter w"
  then show "\<not> stop (run_steps base_run k w)" "nbiter (run_steps base_run k w) = nbiter w"
    using run_steps_forever [OF assms, of w k] by auto
qed (simp_all add: run_keeps(1) [OF assms])

lemma run_countdown_example:
  "keeps_counters loopOnce \<and>
   nbiter (snd (run loopOnce demo_widget)) = 2 \<and>
   \<not> stop (run_steps loopOnce 2 demo_widget) \<and>
   stop (run_steps loopOnce 3 demo_widget) \<and>
   \<not> stop (run_steps loopOnce 5 (demo_widget\<lparr>ui := demo_ui\<lparr>wao_forever := True\<rparr>\<rparr>))"
  using run_countdown [OF loopOnce_keeps_counters, of demo_widget]
        run_countdown [OF loopOnce_keeps_counters, of "demo_widget\<lparr>ui := demo_ui\<lparr>wao_forever := True\<rparr>\<rparr>"]
        loopOnce_keeps_counters
  by (simp add: demo_widget_def demo_ui_def)

text \<open>
  Claim C9.  When "forever" is checked, \<open>run\<close> should never stop the loop on its own.
  It does: the test \<open>nbiter \<le> 0\<close> of \<open>run\<close> does not look at the "forever" box.  With
  the box checked and the iterations box at 0, pressing the run button (the slot
  \<open>aoLoopClicked\<close>, with one iteration of the loop standing for \<open>WidgetBase.run\<close>)
  leaves \<open>nbiter\<close> at 0, raises the stop flag and unchecks the run button in its first
  run step.
\<close>

theorem run_forever_stops:
  "wao_forever (ui (demo_widget\<lparr>ui := demo_ui\<lparr>wao_forever := True, wao_nbiters := 0\<rparr>\<rparr>)) \<and>
   \<not> stop (demo_widget\<lparr>ui := demo_ui\<lparr>wao_forever := True, wao_nbiters := 0\<rparr>\<rparr>) \<and>
   fst (on_signal loopOnce (Run_clicked True)
          (demo_widget\<lparr>ui := demo_ui\<lparr>wao_forever := True, wao_nbiters := 0\<rparr>\<rparr>)) = Returned \<and>
   nbiter (snd (on_signal loopOnce (Run_clicked True)
          (demo_widget\<lparr>ui := demo_ui\<lparr>wao_forever := True, wao_nbiters := 0\<rparr>\<rparr>))) = 0 \<and>
   stop (snd (on_signal loopOnce (Run_clicked True)
          (demo_widget\<lparr>ui := demo_ui\<lparr>wao_forever := True, wao_nbiters := 0\<rparr>\<rparr>))) \<and>
   \<not> wao_run_checked (ui (snd (on_signal loopOnce (Run_clicked True)
          (demo_widget\<lparr>ui := demo_ui\<lparr>wao_forever := True, wao_nbiters := 0\<rparr>\<rparr>))))"
proof -
  let ?w = "demo_widget\<lparr>ui := demo_ui\<lparr>wao_forever := True, wao_nbiters := 0\<rparr>\<rparr>"
  let ?w5 = "?w\<lparr>stop := False, ticks := Suc (ticks ?w), refreshTime := clock ?w (ticks ?w),
               nbiter := 0\<rparr>"
  have a: "on_signal loopOnce (Run_clicked True) ?w = run loopOnce ?w5"
    by (simp add: on_signal_def aoLoopClicked_def time_time_def Let_def demo_widget_def demo_ui_def)
  have k: "nbiter (snd (run loopOnce ?w5)) = 0 \<and> stop (snd (run loopOnce ?w5)) \<and>
           \<not> wao_run_checked (ui (snd (run loopOnce ?w5)))"
    using run_keeps [OF loopOnce_keeps_counters, of ?w5]
    by (simp add: demo_widget_def demo_ui_def)
  have r: "fst (run loopOnce ?w5) = Returned"
    using loopOnce_keeps_counters by (rule run_keeps(5))
  show ?thesis
    unfolding a using k r by (simp add: demo_widget_def demo_ui_def)
qed


section \<open>The Strehl-history buffers\<close>

lemma display_frame_refl [simp]: "display_frame w w"
  by (simp add: display_frame_def)

lemmas df_bind = bind_rel [where R = display_frame]

lemmas df_and_then = and_then_rel [where R = display_frame]

lemma ask_df: "display_frame w s \<Longrightarrow> display_frame w (snd (ask orc wrap c s))"
  by (auto simp: ask_def display_frame_def split: option.splits)

lemma ask_frame_df: "display_frame w s \<Longrightarrow> display_frame w (snd (ask_frame c s))"
  unfolding ask_frame_def by (rule ask_df)

lemma ask_slopes_df: "display_frame w s \<Longrightarrow> display_frame w (snd (ask_slopes c s))"
  unfolding ask_slopes_def by (rule ask_df)

lemma getFrameCounter_df: "display_frame w s \<Longrightarrow> display_frame w (snd (getFrameCounter s))"
  unfolding getFrameCounter_def by (rule ask_df)

lemma get_config_df: "display_frame w s \<Longrightarrow> display_frame w (snd (get_config s))"
  by (simp add: get_config_def split: option.splits)

lemma get_config_snd [simp]: "snd (get_config s) = s"
  by (simp add: get_config_def split: option.splits)

lemma fetch_df: "display_frame w s \<Longrightarrow> display_frame w (snd (fetch cond c data s))"
  by (auto simp: fetch_def intro!: df_bind ask_frame_df)

lemma fetch_dm_df: "display_frame w s \<Longrightarrow> display_frame w (snd (fetch_dm key index data s))"
  by (auto simp: fetch_dm_def get_config_def split: option.splits intro!: fetch_df)

lemma viewboxes_df: "display_frame w s \<Longrightarrow> display_frame w (s\<lparr>viewboxes := x\<rparr>)"
  by (simp add: display_frame_def)

lemma imgs_df: "display_frame w s \<Longrightarrow> display_frame w (s\<lparr>imgs := x\<rparr>)"
  by (simp add: display_frame_def)

lemma emit_df: "display_frame w s \<Longrightarrow> display_frame w (emit ev s)"
  by (simp add: display_frame_def emit_def)

lemma psf_view_df:
  assumes "display_frame w s"
  shows "display_frame w (snd (psf_view key data s))"
  unfolding psf_view_def using assms
  by (auto split: option.splits sum.splits intro!: df_bind getFrameCounter_df viewboxes_df)

lemma dock_data_df:
  assumes "display_frame w s"
  shows "display_frame w (snd (dock_data key index s))"
  unfolding dock_data_def
  by (intro df_bind fetch_df fetch_dm_df psf_view_df assms)

lemma set_image_df: "display_frame w s \<Longrightarrow> display_frame w (snd (set_image key f s))"
  by (auto simp: set_image_def split: option.splits img.splits intro!: imgs_df)

lemma canvas_op_df: "display_frame w s \<Longrightarrow> display_frame w (snd (canvas_op key f s))"
  by (auto simp: canvas_op_def split: option.splits img.splits intro!: imgs_df)

lemma plsh_call_df: "display_frame w s \<Longrightarrow> display_frame w (snd (plsh_call sl index s))"
  by (auto simp: plsh_call_def get_config_def split: option.splits sum.splits)

lemma slopes_comp_df:
  assumes "display_frame w s"
  shows "display_frame w (snd (slopes_comp key index xy s))"
  unfolding slopes_comp_def canvas_quiver_def Let_def using assms
  by (auto simp: get_config_def split: option.splits sum.splits
        intro!: df_bind df_and_then ask_slopes_df canvas_op_df emit_df)

lemma show_slopes_df:
  assumes "display_frame w s"
  shows "display_frame w (snd (show_slopes key index xy s))"
  unfolding show_slopes_def canvas_clear_def canvas_draw_def using assms
  by (auto intro!: df_bind df_and_then ask_slopes_df canvas_op_df plsh_call_df slopes_comp_df)

lemma update_dock_df:
  assumes "display_frame w (snd s)"
  shows "display_frame w (snd (snd (update_dock kd s)))"
proof -
  obtain key d xy s0 where kd: "kd = (key, d)" and s: "s = (xy, s0)"
    by (cases kd, cases s) auto
  have 0: "display_frame w s0" using assms s by simp
  have 1: "\<And>i. display_frame w (snd (dock_data key i s0))"
    by (rule dock_data_df [OF 0])
  show ?thesis
    unfolding kd s update_dock_def
    using 0 1 set_image_df [of w] show_slopes_df [of w]
    by (auto split: sum.splits option.splits prod.splits) (metis snd_conv)+
qed

lemma docks_loop_df:
  assumes "display_frame w (snd s)"
  shows "display_frame w (snd (snd (for_each ds update_dock s)))"
  by (rule for_each_rel [where R = "\<lambda>a b. display_frame a (snd b)"])
     (simp_all add: assms update_dock_df)

lemma length_deque_append:
  "length (items (deque_append x d)) = min (maxlen d) (length (items d) + 1)"
  by (simp add: deque_append_def Let_def)

lemma maxlen_deque_append [simp]: "maxlen (deque_append x d) = maxlen d"
  by (simp add: deque_append_def Let_def)

lemma sr_inv_same: "same_buffers w s \<Longrightarrow> sr_inv n s = sr_inv n w"
  by (simp add: same_buffers_def sr_inv_def)

lemmas si_bind = bind_rel [where R = sr_inv]

lemmas si_and_then = and_then_rel [where R = sr_inv]

lemmas si_for_each = for_each_rel [where R = sr_inv]

lemma ask_si: "sr_inv n s \<Longrightarrow> sr_inv n (snd (ask orc wrap c s))"
  by (auto simp: ask_def sr_inv_def split: option.splits)

lemma ask_unit_si: "sr_inv n s \<Longrightarrow> sr_inv n (snd (ask_unit c s))"
  unfolding ask_unit_def by (rule ask_si)

lemma updateSRDisplay_si: "sr_inv n s \<Longrightarrow> sr_inv n (snd (updateSRDisplay a b k s))"
  by (simp add: updateSRDisplay_def sr_inv_def Let_def length_deque_append)

lemma strehl_step_si:
  assumes "sr_inv n (snd s)"
  shows "sr_inv n (snd (snd (strehl_step t s)))"
proof -
  obtain a b s0 where s: "s = ((a, b), s0)" by (cases s) auto
  obtain r1 w1 where g: "getStrehl t s0 = (r1, w1)" by (cases "getStrehl t s0")
  have "sr_inv n (snd (getStrehl t s0))"
    unfolding getStrehl_def using assms s by (intro ask_si) simp
  then have f1: "sr_inv n w1" using g by simp
  show ?thesis
  proof (cases r1)
    case (Inl e)
    then show ?thesis using s g f1 by (simp add: strehl_step_def)
  next
    case (Inr SR)
    let ?m = "if t = wao_dispSR_tar (ui w1)
              then bind (getFrameCounter w1) (updateSRDisplay (snd SR) (fst SR))
              else (Returned, w1)"
    have "sr_inv n (snd ?m)"
      using f1 by (auto simp: getFrameCounter_def intro!: si_bind ask_si updateSRDisplay_si)
    then show ?thesis
      using s g Inr by (cases ?m) (auto simp: strehl_step_def split: sum.splits)
  qed
qed

lemma time_time_si: "sr_inv n s \<Longrightarrow> sr_inv n (snd (time_time s))"
  by (simp add: time_time_def sr_inv_def)

lemma singleNext_si: "sr_inv n s \<Longrightarrow> sr_inv n (snd (singleNext s))"
  by (auto simp: singleNext_def split: option.splits intro: ask_unit_si)

lemma comp_images_si: "sr_inv n s \<Longrightarrow> sr_inv n (snd (comp_images s))"
  by (auto simp: comp_images_def split: option.splits intro!: si_for_each ask_unit_si)

lemma show_texts_si:
  "sr_inv n s \<Longrightarrow> sr_inv n (updateCurrentLoopFrequency f (updateSRLE le (updateSRSE se s)))"
  by (simp add: updateCurrentLoopFrequency_def updateSRLE_def updateSRSE_def sr_inv_def)

lemma emit_si: "sr_inv n s \<Longrightarrow> sr_inv n (emit ev s)"
  by (simp add: emit_def sr_inv_def)

lemma refreshTime_si: "sr_inv n s \<Longrightarrow> sr_inv n (s\<lparr>refreshTime := t\<rparr>)"
  by (simp add: sr_inv_def)

lemma refresh_displays_si:
  assumes "sr_inv n s"
  shows "sr_inv n (snd (refresh_displays start loopTime s))"
proof (cases "config s")
  case None
  then show ?thesis using assms by (simp add: refresh_displays_def get_config_def)
next
  case (Some cfg)
  obtain r a b s2 where l: "for_each (map int [0..<n_targets cfg]) strehl_step (([], []), s) = (r, ((a, b), s2))"
    by (cases "for_each (map int [0..<n_targets cfg]) strehl_step (([], []), s)") auto
  have "sr_inv n (snd (snd (for_each (map int [0..<n_targets cfg]) strehl_step (([], []), s))))"
    by (rule for_each_rel [where R = "\<lambda>a b. sr_inv a (snd b)"]) (simp_all add: assms strehl_step_si)
  then have f2: "sr_inv n s2" using l by simp
  have t: "sr_inv n (snd (time_time s2))" using f2 by (rule time_time_si)
  show ?thesis
  proof (cases r)
    case (Inl e)
    then show ?thesis using Some l f2 by (simp add: refresh_displays_def get_config_def)
  next
    case (Inr u)
    then show ?thesis
      using Some l f2 t
      by (auto simp: refresh_displays_def get_config_def Let_def split_def getFrameCounter_def
            intro!: si_and_then si_bind ask_si emit_si refreshTime_si show_texts_si)
  qed
qed

lemma loopOnce_body_si:
  assumes "sr_inv n s"
  shows "sr_inv n (snd (loopOnce_body s))"
  unfolding loopOnce_body_def Let_def split_def
  by (intro si_and_then singleNext_si comp_images_si time_time_si assms)
     (auto intro!: time_time_si refresh_displays_si)

lemma loopOnce_si: "sr_inv n w \<Longrightarrow> sr_inv n (snd (loopOnce w))"
proof (cases "loopLock w")
  case True
  assume "sr_inv n w"
  then show ?thesis using True by (simp add: loopOnce_def py_print_def sr_inv_def)
next
  case False
  assume "sr_inv n w"
  then have "sr_inv n (w\<lparr>loopLock := True\<rparr>)" by (simp add: sr_inv_def)
  then have "sr_inv n (snd (loopOnce_body (w\<lparr>loopLock := True\<rparr>)))"
    by (rule loopOnce_body_si)
  then show ?thesis
    using False
    by (cases "loopOnce_body (w\<lparr>loopLock := True\<rparr>)")
       (auto simp: loopOnce_def sr_inv_def py_print_def split: sum.splits)
qed

lemma updateDisplay_df:
  "display_frame w ((snd (updateDisplay w))\<lparr>firstTime := firstTime w\<rparr>)"
proof (cases "supervisor w")
  case None
  then show ?thesis by (simp add: updateDisplay_def display_frame_def)
next
  case (Some sv)
  have i: "display_frame w (snd (isInit w))" unfolding isInit_def by (rule ask_df) simp
  obtain r w1 where r: "isInit w = (r, w1)" by (cases "isInit w")
  have w1: "display_frame w w1" using i r by simp
  let ?s = "(None :: plot option, w1\<lparr>loopLock := True\<rparr>)"
  obtain r2 xy w2 where l: "for_each (docks w1) update_dock ?s = (r2, (xy, w2))"
    by (cases "for_each (docks w1) update_dock ?s") auto
  have "display_frame (w1\<lparr>loopLock := True\<rparr>) (snd (snd (for_each (docks w1) update_dock ?s)))"
    by (rule docks_loop_df) simp
  then have w2: "display_frame (w1\<lparr>loopLock := True\<rparr>) w2" using l by simp
  have a: "\<not> loopLock w1 \<Longrightarrow> display_frame w (w2\<lparr>loopLock := False, firstTime := firstTime w\<rparr>)"
    using w1 w2 by (simp add: display_frame_def)
  have b: "display_frame w (w1\<lparr>firstTime := firstTime w\<rparr>)"
    using w1 by (simp add: display_frame_def)
  have c: "display_frame w (w\<lparr>firstTime := firstTime w\<rparr>)"
    by (simp add: display_frame_def)
  show ?thesis
  proof (cases "\<not> has_sim sv (calls sv) \<or> sim_is_None sv (calls sv)")
    case True
    then show ?thesis using Some c by (auto simp: updateDisplay_def)
  next
    case False
    then have u: "updateDisplay w =
       bind (isInit w) (\<lambda>ini w1.
              if \<not> ini then (Returned, w1)
              else if loopLock w1 then (Returned, w1)
              else
                (case for_each (docks w1) update_dock (None, w1\<lparr>loopLock := True\<rparr>) of
                   (Inl e, (xy, w2)) \<Rightarrow> (Raised e, w2\<lparr>loopLock := False\<rparr>)
                 | (Inr u, (xy, w2)) \<Rightarrow> (Returned, w2\<lparr>firstTime := 1, loopLock := False\<rparr>)))"
      using Some by (simp add: updateDisplay_def)
    show ?thesis
      unfolding u r using a b l
      by (cases r; cases r2) auto
  qed
qed

lemma updateDisplay_buffers: "same_buffers w (snd (updateDisplay w))"
  using updateDisplay_df [of w] by (simp add: display_frame_def same_buffers_def)

lemma updateDisplay_loopLock: "loopLock (snd (updateDisplay w)) = loopLock w"
  using updateDisplay_df [of w] by (simp add: display_frame_def)

lemma same_buffers_refl [simp]: "same_buffers w w"
  by (simp add: same_buffers_def)

lemmas sb_bind = bind_rel [where R = same_buffers]

lemmas sb_and_then = and_then_rel [where R = same_buffers]

lemmas sb_for_each = for_each_rel [where R = same_buffers]

lemma ask_sb: "same_buffers w s \<Longrightarrow> same_buffers w (snd (ask orc wrap c s))"
  by (auto simp: ask_def same_buffers_def split: option.splits)

lemma ask_unit_sb: "same_buffers w s \<Longrightarrow> same_buffers w (snd (ask_unit c s))"
  unfolding ask_unit_def by (rule ask_sb)

lemma on_display_sb: "same_buffers w s \<Longrightarrow> same_buffers w (on_display f s)"
  by (simp add: on_display_def same_buffers_def split: prod.splits)

lemma emit_sb: "same_buffers w s \<Longrightarrow> same_buffers w (emit ev s)"
  by (simp add: emit_def same_buffers_def)

lemma add_dispDock_sb: "same_buffers w s \<Longrightarrow> same_buffers w (add_dispDock base name parent type s)"
  by (simp add: add_dispDock_def Let_def on_display_sb emit_sb)

lemma image_docks_sb: "same_buffers w s \<Longrightarrow> same_buffers w (image_docks base prefix parent n s)"
  unfolding image_docks_def
  by (induction n) (auto simp: add_dispDock_sb)

lemma remove_items_sb: "same_buffers w s \<Longrightarrow> same_buffers w (snd (remove_items d s))"
  unfolding remove_items_def
  by (rule sb_for_each)
     (auto simp: remove_item_def same_buffers_def emit_def split: option.splits prod.splits)

lemma set_devices_sb: "same_buffers w s \<Longrightarrow> same_buffers w (snd (set_devices s))"
  by (auto simp: set_devices_def split: option.splits sum.splits intro: emit_sb)

lemma wfs_docks_sb: "same_buffers w s \<Longrightarrow> same_buffers w (snd (wfs_docks base wfs s))"
  unfolding wfs_docks_def Let_def
  by (auto simp: get_config_def split: option.splits intro!: add_dispDock_sb)

lemma finish_load_sb: "same_buffers w s \<Longrightarrow> same_buffers w (finish_load base cfg s)"
proof -
  have u: "\<And>s x. same_buffers w s \<Longrightarrow> same_buffers w (s\<lparr>ui := x\<rparr>)"
    by (simp add: same_buffers_def)
  assume "same_buffers w s"
  then show ?thesis
    unfolding finish_load_def Let_def
    by (auto split: option.splits intro!: emit_sb add_dispDock_sb u)
qed

lemma same_buffers_upd [simp]:
  "same_buffers w (s\<lparr>supervisor := a\<rparr>) = same_buffers w s"
  "same_buffers w (s\<lparr>config := b\<rparr>) = same_buffers w s"
  "same_buffers w (s\<lparr>natm := n\<rparr>) = same_buffers w s"
  "same_buffers w (s\<lparr>nwfs := n\<rparr>) = same_buffers w s"
  "same_buffers w (s\<lparr>ndm := n\<rparr>) = same_buffers w s"
  "same_buffers w (s\<lparr>ntar := n\<rparr>) = same_buffers w s"
  "same_buffers w (s\<lparr>SRcircles := c1, SRCrossX := c2, SRCrossY := c3, PyrEdgeX := c4, PyrEdgeY := c5\<rparr>)
     = same_buffers w s"
  by (simp_all add: same_buffers_def)

lemma loadConfig_sb:
  "same_buffers w (snd (loadConfig base_loadConfig base_add fresh configFile supervisor_arg w))"
  unfolding loadConfig_def Let_def getConfig_def
  apply (intro sb_and_then sb_bind remove_items_sb on_display_sb set_devices_sb ask_sb)
       apply (simp_all split: option.splits)
    apply (auto intro!: ask_unit_sb sb_for_each wfs_docks_sb image_docks_sb finish_load_sb sb_and_then)
  done

lemma run_si:
  assumes "\<forall>w. sr_inv n w \<longrightarrow> sr_inv n (snd (base_run w))" and "sr_inv n w"
  shows "sr_inv n (snd (run base_run w))"
proof -
  obtain r w1 where b: "base_run w = (r, w1)" by (cases "base_run w")
  have "sr_inv n (snd (base_run w))" using assms by simp
  then have "sr_inv n w1" using b by simp
  then show ?thesis
    using b by (cases r) (auto simp: run_def Let_def sr_inv_def)
qed

lemma aoLoopClicked_si:
  assumes "\<forall>w. sr_inv n w \<longrightarrow> sr_inv n (snd (base_run w))" and "sr_inv n w"
  shows "sr_inv n (snd (aoLoopClicked base_run pressed w))"
proof (cases pressed)
  case True
  have "\<And>s. sr_inv n s \<Longrightarrow> sr_inv n (snd (run base_run s))"
    using assms(1) by (rule run_si)
  then show ?thesis
    using True assms(2)
    by (auto simp: aoLoopClicked_def Let_def time_time_def py_print_def sr_inv_def)
next
  case False
  then show ?thesis using assms(2) by (simp add: aoLoopClicked_def sr_inv_def)
qed

lemma resetSR_si: "sr_inv n w \<Longrightarrow> sr_inv n (snd (resetSR w))"
proof -
  assume a: "sr_inv n w"
  then have p: "sr_inv n (py_print x w)" for x by (simp add: py_print_def sr_inv_def)
  show ?thesis
    using a p
    by (auto simp: resetSR_def get_config_def Let_def split: option.splits
          intro!: si_for_each ask_unit_si)
qed

lemma ui_si: "sr_inv n s \<Longrightarrow> sr_inv n (s\<lparr>ui := x\<rparr>)"
  by (simp add: sr_inv_def)

lemma aoLoopOpen_si: "sr_inv n w \<Longrightarrow> sr_inv n (snd (aoLoopOpen pressed w))"
  unfolding aoLoopOpen_def by (auto intro!: si_and_then ask_unit_si ui_si)

lemma clearSR_si: "sr_inv 20 (snd (clearSR w))"
  by (simp add: clearSR_def sr_inv_def deque_new_def)

lemma on_signal_si:
  assumes "\<forall>w. sr_inv n w \<longrightarrow> sr_inv n (snd (base_run w))" and "sr_inv n w"
  shows "sr_inv (if sg = ClearSR_clicked then 20 else n) (snd (on_signal base_run sg w))"
proof (cases sg)
  case (Run_clicked pressed)
  then show ?thesis using aoLoopClicked_si [OF assms] by (simp add: on_signal_def)
next
  case (OpenLoop_clicked pressed)
  then show ?thesis using aoLoopOpen_si [OF assms(2)] by (simp add: on_signal_def)
next
  case Next_clicked
  then show ?thesis using loopOnce_si [OF assms(2)] by (simp add: on_signal_def)
next
  case ResetSR_clicked
  then show ?thesis using resetSR_si [OF assms(2)] by (simp add: on_signal_def)
next
  case (AllTarget_stateChanged x)
  then show ?thesis using assms(2) by (simp add: on_signal_def updateAllTarget_def emit_si)
next
  case (Forever_stateChanged x)
  then show ?thesis using assms(2) by (simp add: on_signal_def updateForever_def emit_si)
next
  case (Atmosphere_clicked x)
  then show ?thesis using assms(2) by (simp add: on_signal_def set_see_atmos_def ask_unit_si)
next
  case ClearSR_clicked
  then show ?thesis using clearSR_si [of w] by (simp add: on_signal_def)
qed

lemma call_method_si:
  assumes "\<forall>w. sr_inv n w \<longrightarrow> sr_inv n (snd (base_run w))" and "sr_inv n w"
  shows "sr_inv (if clears m then 20 else n) (call_method base_run base_loadConfig base_add fresh m w)"
proof (cases m)
  case (Signal sg)
  then show ?thesis
    using on_signal_si [OF assms, of sg]
    by (cases sg) (simp_all add: call_method_def clears_def)
next
  case Call_updateDisplay
  then show ?thesis
    using assms(2) sr_inv_same [OF updateDisplay_buffers [of w]]
    by (simp add: call_method_def clears_def)
next
  case (Call_updateSRDisplay le se k)
  then show ?thesis
    using updateSRDisplay_si [OF assms(2)] by (simp add: call_method_def clears_def)
next
  case (Call_loadConfig cf sa)
  then show ?thesis
    using assms(2) sr_inv_same [OF loadConfig_sb [where w = w]]
    by (simp add: call_method_def clears_def)
next
  case Call_run
  then show ?thesis using run_si [OF assms] by (simp add: call_method_def clears_def)
qed

lemma call_all_si:
  assumes "\<forall>n w. sr_inv n w \<longrightarrow> sr_inv n (snd (base_run w))" and "sr_inv n w"
  shows "sr_inv (window_after ms n) (call_all base_run base_loadConfig base_add fresh ms w)"
  using assms(2) unfolding call_all_def
proof (induction ms arbitrary: n w)
  case Nil
  then show ?case by (simp add: window_after_def)
next
  case (Cons m ms)
  have b: "\<forall>w. sr_inv k w \<longrightarrow> sr_inv k (snd (base_run w))" for k
    using assms(1) by simp
  let ?w = "call_method base_run base_loadConfig base_add fresh m w"
  have 1: "sr_inv (if clears m then 20 else n) ?w"
    using call_method_si [OF b Cons.prems] .
  have 2: "window_after ms (if clears m then 20 else n) = window_after (m # ms) n"
    by (simp add: window_after_def)
  from Cons.IH [OF 1] show ?case unfolding 2 by simp
qed

lemma widget_init_si: "sr_inv 100 (widget_init e d w0)"
  by (simp add: widget_init_def sr_inv_def deque_new_def rollingWindow_def)

lemma deque_append_items:
  "items (deque_append x dq) =
     (if length (items dq) < maxlen dq then items dq @ [x]
      else drop (Suc (length (items dq)) - maxlen dq) (items dq @ [x]))"
  by (simp add: deque_append_def Let_def)

text \<open>
  Claim C8.  The three Strehl-history buffers \<open>SRSE\<close>, \<open>SRLE\<close> and \<open>numiter\<close> always
  have equal length and hold at most 100 entries each.  The constructor creates them
  empty with maximum length 100.  \<open>updateSRDisplay\<close> appends exactly one element to each
  and keeps the maximum length; a buffer that is full drops its oldest entry.  \<open>clearSR\<close>
  replaces all three by empty buffers of maximum length 20.  \<open>sr_inv n\<close> says that the
  three buffers have maximum length \<open>n\<close>, equal lengths and at most \<open>n\<close> entries; after
  any sequence \<open>ms\<close> of calls of the window's methods, from a state with \<open>sr_inv n\<close>,
  the buffers satisfy \<open>sr_inv\<close> for 20 if \<open>ms\<close> contains a \<open>clearSR\<close> and for \<open>n\<close>
  otherwise: after a \<open>clearSR\<close> the window is 20 and does not return to 100.
  \<open>WidgetBase.run\<close> is assumed to keep \<open>sr_inv n\<close> for every \<open>n\<close>.
\<close>

theorem strehl_buffers_invariant:
  assumes "\<forall>n w. sr_inv n w \<longrightarrow> sr_inv n (snd (base_run w))" and "sr_inv n w"
  shows "maxlen (SRLE (widget_init e d w0)) = 100 \<and> maxlen (SRSE (widget_init e d w0)) = 100 \<and>
         maxlen (numiter (widget_init e d w0)) = 100 \<and>
         items (SRLE (widget_init e d w0)) = [] \<and> items (SRSE (widget_init e d w0)) = [] \<and>
         items (numiter (widget_init e d w0)) = [] \<and>
         sr_inv (window_after ms n) (call_all base_run base_loadConfig base_add fresh ms w) \<and>
         sr_inv (window_after ms 100)
           (call_all base_run base_loadConfig base_add fresh ms (widget_init e d w0)) \<and>
         length (items (SRLE (call_all base_run base_loadConfig base_add fresh ms (widget_init e d w0)))) \<le> 100 \<and>
         length (items (SRSE (call_all base_run base_loadConfig base_add fresh ms (widget_init e d w0)))) =
           length (items (SRLE (call_all base_run base_loadConfig base_add fresh ms (widget_init e d w0)))) \<and>
         length (items (numiter (call_all base_run base_loadConfig base_add fresh ms (widget_init e d w0)))) =
           length (items (SRLE (call_all base_run base_loadConfig base_add fresh ms (widget_init e d w0)))) \<and>
         items (SRLE (snd (updateSRDisplay le se k w))) =
           (if length (items (SRLE w)) < maxlen (SRLE w) then items (SRLE w) @ [le]
            else drop (Suc (length (items (SRLE w))) - maxlen (SRLE w)) (items (SRLE w) @ [le])) \<and>
         items (SRSE (snd (updateSRDisplay le se k w))) =
           (if length (items (SRSE w)) < maxlen (SRSE w) then items (SRSE w) @ [se]
            else drop (Suc (length (items (SRSE w))) - maxlen (SRSE w)) (items (SRSE w) @ [se])) \<and>
         items (numiter (snd (updateSRDisplay le se k w))) =
           (if length (items (numiter w)) < maxlen (numiter w) then items (numiter w) @ [k]
            else drop (Suc (length (items (numiter w))) - maxlen (numiter w)) (items (numiter w) @ [k])) \<and>
         maxlen (SRLE (snd (updateSRDisplay le se k w))) = maxlen (SRLE w) \<and>
         maxlen (SRSE (snd (updateSRDisplay le se k w))) = maxlen (SRSE w) \<and>
         maxlen (numiter (snd (updateSRDisplay le se k w))) = maxlen (numiter w) \<and>
         maxlen (SRLE (snd (clearSR w))) = 20 \<and> maxlen (SRSE (snd (clearSR w))) = 20 \<and>
         maxlen (numiter (snd (clearSR w))) = 20 \<and>
         items (SRLE (snd (clearSR w))) = [] \<and> items (SRSE (snd (clearSR w))) = [] \<and>
         items (numiter (snd (clearSR w))) = []"
proof -
  let ?c = "call_all base_run base_loadConfig base_add fresh ms (widget_init e d w0)"
  have a: "sr_inv (window_after ms n) (call_all base_run base_loadConfig base_add fresh ms w)"
    using assms by (rule call_all_si)
  have b: "sr_inv (window_after ms 100) ?c"
    using assms(1) widget_init_si by (rule call_all_si)
  have le: "window_after ms 100 \<le> 100" by (simp add: window_after_def)
  have c: "length (items (SRLE ?c)) \<le> 100 \<and> length (items (SRSE ?c)) = length (items (SRLE ?c)) \<and>
           length (items (numiter ?c)) = length (items (SRLE ?c))"
    using b le by (simp add: sr_inv_def)
  have i: "maxlen (SRLE (widget_init e d w0)) = 100 \<and> maxlen (SRSE (widget_init e d w0)) = 100 \<and>
         maxlen (numiter (widget_init e d w0)) = 100 \<and>
         items (SRLE (widget_init e d w0)) = [] \<and> items (SRSE (widget_init e d w0)) = [] \<and>
         items (numiter (widget_init e d w0)) = []"
    by (simp add: widget_init_def rollingWindow_def deque_new_def)
  have u: "SRLE (snd (updateSRDisplay le se k w)) = deque_append le (SRLE w) \<and>
           SRSE (snd (updateSRDisplay le se k w)) = deque_append se (SRSE w) \<and>
           numiter (snd (updateSRDisplay le se k w)) = deque_append k (numiter w)"
    by (simp add: updateSRDisplay_def Let_def)
  have x: "maxlen (SRLE (snd (clearSR w))) = 20 \<and> maxlen (SRSE (snd (clearSR w))) = 20 \<and>
         maxlen (numiter (snd (clearSR w))) = 20 \<and>
         items (SRLE (snd (clearSR w))) = [] \<and> items (SRSE (snd (clearSR w))) = [] \<and>
         items (numiter (snd (clearSR w))) = []"
    by (simp add: clearSR_def deque_new_def)
  show ?thesis
    using a b c i x by (simp only: u deque_append_items maxlen_deque_append)
qed

lemma demo_sr_inv: "sr_inv 100 demo_widget"
  by (simp add: sr_inv_def demo_widget_def deque_new_def)

lemma demo_two_iterations:
  "items (SRLE (snd (loopOnce (snd (loopOnce demo_widget))))) = [1 / 4, 1 / 4] \<and>
   items (SRSE (snd (loopOnce (snd (loopOnce demo_widget))))) = [1 / 2, 1 / 2] \<and>
   items (numiter (snd (loopOnce (snd (loopOnce demo_widget))))) = [3, 7]"
  by (simp add: loop_defs demo_defs Let_def)

lemma demo_clear_iteration:
  "items (SRLE (snd (loopOnce (snd (clearSR (snd (loopOnce (snd (loopOnce demo_widget)))))))))
     = [1 / 4] \<and>
   items (numiter (snd (loopOnce (snd (clearSR (snd (loopOnce (snd (loopOnce demo_widget)))))))))
     = [11]"
  by (simp add: loop_defs demo_defs clearSR_def Let_def)

theorem strehl_buffers_invariant_witness:
  "sr_inv 100 demo_widget \<and>
   items (SRLE (call_all loopOnce id (\<lambda>a b c. id) demo_supervisor
      [Signal Next_clicked, Signal Next_clicked] demo_widget)) = [1 / 4, 1 / 4] \<and>
   items (numiter (call_all loopOnce id (\<lambda>a b c. id) demo_supervisor
      [Signal Next_clicked, Signal Next_clicked] demo_widget)) = [3, 7] \<and>
   sr_inv 100 (call_all loopOnce id (\<lambda>a b c. id) demo_supervisor
      [Signal Next_clicked, Signal Next_clicked] demo_widget) \<and>
   items (SRLE (call_all loopOnce id (\<lambda>a b c. id) demo_supervisor
      [Signal Next_clicked, Signal Next_clicked, Signal ClearSR_clicked, Signal Next_clicked]
      demo_widget)) = [1 / 4] \<and>
   items (numiter (call_all loopOnce id (\<lambda>a b c. id) demo_supervisor
      [Signal Next_clicked, Signal Next_clicked, Signal ClearSR_clicked, Signal Next_clicked]
      demo_widget)) = [11] \<and>
   sr_inv 20 (call_all loopOnce id (\<lambda>a b c. id) demo_supervisor
      [Signal Next_clicked, Signal Next_clicked, Signal ClearSR_clicked, Signal Next_clicked]
      demo_widget) \<and>
   items (SRSE (snd (updateSRDisplay 0 9 0
      (demo_widget\<lparr>SRSE := \<lparr>maxlen = 3, items = [1, 2, 3]\<rparr>\<rparr>)))) = [2, 3, 9]"
proof -
  have h: "\<forall>n w. sr_inv n w \<longrightarrow> sr_inv n (snd (loopOnce w))"
    using loopOnce_si by simp
  let ?m1 = "[Signal Next_clicked, Signal Next_clicked]"
  let ?m2 = "[Signal Next_clicked, Signal Next_clicked, Signal ClearSR_clicked, Signal Next_clicked]"
  have w1: "window_after ?m1 100 = 100" by (simp add: window_after_def clears_def)
  have w2: "window_after ?m2 100 = 20" by (simp add: window_after_def clears_def)
  have c1: "call_all loopOnce id (\<lambda>a b c. id) demo_supervisor ?m1 demo_widget =
            snd (loopOnce (snd (loopOnce demo_widget)))"
    by (simp add: call_all_def call_method_def on_signal_def)
  have c2: "call_all loopOnce id (\<lambda>a b c. id) demo_supervisor ?m2 demo_widget =
            snd (loopOnce (snd (clearSR (snd (loopOnce (snd (loopOnce demo_widget)))))))"
    by (simp add: call_all_def call_method_def on_signal_def)
  have A: "sr_inv 100 (call_all loopOnce id (\<lambda>a b c. id) demo_supervisor ?m1 demo_widget)"
    using strehl_buffers_invariant [OF h demo_sr_inv, where ms = ?m1 and base_loadConfig = id
          and base_add = "\<lambda>a b c. id" and fresh = demo_supervisor] unfolding w1 by blast
  have B: "sr_inv 20 (call_all loopOnce id (\<lambda>a b c. id) demo_supervisor ?m2 demo_widget)"
    using strehl_buffers_invariant [OF h demo_sr_inv, where ms = ?m2 and base_loadConfig = id
          and base_add = "\<lambda>a b c. id" and fresh = demo_supervisor] unfolding w2 by blast
  have C: "items (SRSE (snd (updateSRDisplay 0 9 0
      (demo_widget\<lparr>SRSE := \<lparr>maxlen = 3, items = [1, 2, 3]\<rparr>\<rparr>)))) = [2, 3, 9]"
    by (simp add: updateSRDisplay_def Let_def deque_append_def)
  show ?thesis
    using demo_sr_inv A B C demo_two_iterations demo_clear_iteration
    by (simp only: c1 c2)
qed

section \<open>Guards of the loop and of the display\<close>

lemma loopOnce_body_stdout: "stdout (snd (loopOnce_body s)) = stdout s"
  using loopOnce_body_frame [of s s] by (simp add: loop_frame_def)

text \<open>
  Claim C10.  \<open>loopOnce\<close> and \<open>updateDisplay\<close> are guarded against re-entry and errors.
  If the display lock is held, \<open>loopOnce\<close> only prints "Display locked" (no call reaches
  the supervisor) and \<open>updateDisplay\<close> changes nothing of the window (at most the
  \<open>isInit\<close> query of its first test is recorded).  \<open>updateDisplay\<close> returns with the
  window unchanged when there is no supervisor, when the supervisor has no simulation,
  and when \<open>isInit()\<close> answers no.  \<open>loopOnce\<close> always returns; an exception of its body
  is caught and "error!!" is printed; and both methods leave the lock as they found it:
  a lock they took is released on every path.
\<close>

theorem loop_guards:
  "(loopLock w \<longrightarrow> loopOnce w = (Returned, py_print ''Display locked'' w)) \<and>
   (loopLock w \<longrightarrow>
      snd (updateDisplay w) = w \<or>
      (\<exists>sv r. supervisor w = Some sv \<and>
              snd (updateDisplay w) = w\<lparr>supervisor := Some (record_call IsInit r sv)\<rparr>)) \<and>
   (supervisor w = None \<longrightarrow> updateDisplay w = (Returned, w)) \<and>
   (supervisor w = Some sv \<and> (\<not> has_sim sv (calls sv) \<or> sim_is_None sv (calls sv)) \<longrightarrow>
      updateDisplay w = (Returned, w)) \<and>
   (supervisor w = Some sv \<and> has_sim sv (calls sv) \<and> \<not> sim_is_None sv (calls sv) \<and>
    completes sv (calls sv) IsInit \<and> \<not> init_of sv (calls sv) \<longrightarrow>
      updateDisplay w = (Returned, w\<lparr>supervisor := Some (record_call IsInit (BoolR False) sv)\<rparr>)) \<and>
   fst (loopOnce w) = Returned \<and>
   loopLock (snd (loopOnce w)) = loopLock w \<and>
   (\<not> loopLock w \<and> fst (loopOnce_body (w\<lparr>loopLock := True\<rparr>)) = Raised e \<longrightarrow>
      stdout (snd (loopOnce w)) = stdout w @ [''error!!'']) \<and>
   loopLock (snd (updateDisplay w)) = loopLock w"
proof (intro conjI impI)
  assume "loopLock w"
  then show "loopOnce w = (Returned, py_print ''Display locked'' w)"
    by (simp add: loopOnce_def)
next
  assume l: "loopLock w"
  show "snd (updateDisplay w) = w \<or>
      (\<exists>sv r. supervisor w = Some sv \<and>
              snd (updateDisplay w) = w\<lparr>supervisor := Some (record_call IsInit r sv)\<rparr>)"
  proof (cases "supervisor w")
    case None
    then show ?thesis by (simp add: updateDisplay_def)
  next
    case (Some sv)
    then show ?thesis
      using l by (auto simp: updateDisplay_def isInit_def ask_def)
  qed
next
  assume "supervisor w = None"
  then show "updateDisplay w = (Returned, w)" by (simp add: updateDisplay_def)
next
  assume "supervisor w = Some sv \<and> (\<not> has_sim sv (calls sv) \<or> sim_is_None sv (calls sv))"
  then show "updateDisplay w = (Returned, w)" by (auto simp: updateDisplay_def)
next
  assume "supervisor w = Some sv \<and> has_sim sv (calls sv) \<and> \<not> sim_is_None sv (calls sv) \<and>
    completes sv (calls sv) IsInit \<and> \<not> init_of sv (calls sv)"
  then show "updateDisplay w = (Returned, w\<lparr>supervisor := Some (record_call IsInit (BoolR False) sv)\<rparr>)"
    by (simp add: updateDisplay_def isInit_def ask_def)
next
  show "fst (loopOnce w) = Returned" by simp
next
  show "loopLock (snd (loopOnce w)) = loopLock w" by (simp add: loopOnce_frame)
next
  assume a: "\<not> loopLock w \<and> fst (loopOnce_body (w\<lparr>loopLock := True\<rparr>)) = Raised e"
  obtain r s where b: "loopOnce_body (w\<lparr>loopLock := True\<rparr>) = (r, s)"
    by (cases "loopOnce_body (w\<lparr>loopLock := True\<rparr>)")
  have "stdout s = stdout w"
    using loopOnce_body_stdout [of "w\<lparr>loopLock := True\<rparr>"] b by simp
  then show "stdout (snd (loopOnce w)) = stdout w @ [''error!!'']"
    using a b by (simp add: loopOnce_def py_print_def)
next
  show "loopLock (snd (updateDisplay w)) = loopLock w" by (rule updateDisplay_loopLock)
qed

lemma demo_zero_rate_raises:
  "fst (loopOnce_body (demo_widget\<lparr>loopLock := True, ui := demo_ui\<lparr>wao_frameRate := 0\<rparr>\<rparr>)) = Raised ZeroDivisionError"
  by (simp add: loop_defs demo_defs Let_def)

theorem loop_guards_witness:
  "loopLock (demo_widget\<lparr>loopLock := True\<rparr>) \<and>
   sup_calls (snd (loopOnce (demo_widget\<lparr>loopLock := True\<rparr>))) = [] \<and>
   stdout (snd (loopOnce (demo_widget\<lparr>loopLock := True\<rparr>))) = [''Display locked''] \<and>
   imgs (snd (updateDisplay (demo_widget\<lparr>loopLock := True\<rparr>))) = Map.empty \<and>
   updateDisplay (demo_widget\<lparr>supervisor := None\<rparr>) = (Returned, demo_widget\<lparr>supervisor := None\<rparr>) \<and>
   updateDisplay (demo_widget\<lparr>supervisor := Some (demo_supervisor\<lparr>sim_is_None := \<lambda>h. True\<rparr>)\<rparr>) =
     (Returned, demo_widget\<lparr>supervisor := Some (demo_supervisor\<lparr>sim_is_None := \<lambda>h. True\<rparr>)\<rparr>) \<and>
   sup_calls (snd (updateDisplay (demo_widget\<lparr>supervisor := Some (demo_supervisor\<lparr>init_of := \<lambda>h. False\<rparr>)\<rparr>))) =
     [(IsInit, BoolR False)] \<and>
   stdout (snd (loopOnce (demo_widget\<lparr>ui := demo_ui\<lparr>wao_frameRate := 0\<rparr>\<rparr>))) = [''error!!''] \<and>
   \<not> loopLock (snd (loopOnce (demo_widget\<lparr>ui := demo_ui\<lparr>wao_frameRate := 0\<rparr>\<rparr>)))"
proof -
  let ?locked = "demo_widget\<lparr>loopLock := True\<rparr>"
  let ?zero = "demo_widget\<lparr>ui := demo_ui\<lparr>wao_frameRate := 0\<rparr>\<rparr>"
  have a: "loopLock ?locked" by simp
  have b: "loopOnce ?locked = (Returned, py_print ''Display locked'' ?locked)"
    using loop_guards [of ?locked demo_supervisor ZeroDivisionError] by simp
  have c: "imgs (snd (updateDisplay ?locked)) = Map.empty"
    using loop_guards [of ?locked demo_supervisor ZeroDivisionError]
    by (auto simp: demo_widget_def)
  have d: "updateDisplay (demo_widget\<lparr>supervisor := None\<rparr>) = (Returned, demo_widget\<lparr>supervisor := None\<rparr>)"
    using loop_guards [of "demo_widget\<lparr>supervisor := None\<rparr>" demo_supervisor ZeroDivisionError]
    by simp
  have e: "updateDisplay (demo_widget\<lparr>supervisor := Some (demo_supervisor\<lparr>sim_is_None := \<lambda>h. True\<rparr>)\<rparr>) =
     (Returned, demo_widget\<lparr>supervisor := Some (demo_supervisor\<lparr>sim_is_None := \<lambda>h. True\<rparr>)\<rparr>)"
    using loop_guards [of "demo_widget\<lparr>supervisor := Some (demo_supervisor\<lparr>sim_is_None := \<lambda>h. True\<rparr>)\<rparr>"
                        "demo_supervisor\<lparr>sim_is_None := \<lambda>h. True\<rparr>" ZeroDivisionError]
    by simp
  have f: "sup_calls (snd (updateDisplay (demo_widget\<lparr>supervisor := Some (demo_supervisor\<lparr>init_of := \<lambda>h. False\<rparr>)\<rparr>))) =
     [(IsInit, BoolR False)]"
    using loop_guards [of "demo_widget\<lparr>supervisor := Some (demo_supervisor\<lparr>init_of := \<lambda>h. False\<rparr>)\<rparr>"
                        "demo_supervisor\<lparr>init_of := \<lambda>h. False\<rparr>" ZeroDivisionError]
    by (simp add: demo_supervisor_def sup_calls_def record_call_def)
  have g: "stdout (snd (loopOnce ?zero)) = stdout ?zero @ [''error!!''] \<and>
           loopLock (snd (loopOnce ?zero)) = loopLock ?zero"
    using loop_guards [of ?zero demo_supervisor ZeroDivisionError] demo_zero_rate_raises
    by (simp add: demo_widget_def)
  show ?thesis
    using a b c d e f g by (simp add: demo_widget_def sup_calls_def py_print_def demo_supervisor_def)
qed

section \<open>What an iteration asks of the supervisor, and when it refreshes\<close>

lemma sup_only_refl [simp]: "sup_only w w"
  unfolding sup_only_def by (rule exI [of _ "supervisor w"]) simp

lemma sup_only_trans: "sup_only a b \<Longrightarrow> sup_only b c \<Longrightarrow> sup_only a c"
  by (auto simp: sup_only_def)

lemma ask_so: "sup_only w s \<Longrightarrow> sup_only w (snd (ask orc wrap c s))"
  by (auto simp: ask_def sup_only_def split: option.splits)

lemma ask_unit_so: "sup_only w s \<Longrightarrow> sup_only w (snd (ask_unit c s))"
  unfolding ask_unit_def by (rule ask_so)

lemmas so_for_each = for_each_rel [where R = sup_only]

lemma singleNext_so: "sup_only w (snd (singleNext w))"
  by (auto simp: singleNext_def split: option.splits intro: ask_unit_so)

lemma comp_images_so: "sup_only w (snd (comp_images w))"
  by (auto simp: comp_images_def split: option.splits intro!: so_for_each ask_unit_so)

text \<open>The body of \<open>loopOnce\<close> up to the throttle test, with the clock readings named.\<close>

lemma loopOnce_body_unfold:
  "loopOnce_body w =
     (case singleNext (w\<lparr>ticks := ticks w + 1\<rparr>) of
        (Inl e, w2) \<Rightarrow> (Raised e, w2)
      | (Inr u, w2) \<Rightarrow>
          (case comp_images w2 of
             (Inl e, w3) \<Rightarrow> (Raised e, w3)
           | (Inr u, w3) \<Rightarrow>
               if wao_frameRate (ui w) = 0 then (Raised ZeroDivisionError, w3\<lparr>ticks := ticks w + 2\<rparr>)
               else if clock w (ticks w + 2) - refreshTime w > 1 / wao_frameRate (ui w)
               then refresh_displays (clock w (ticks w)) (clock w (ticks w + 1) - clock w (ticks w))
                      (w3\<lparr>ticks := ticks w + 3\<rparr>)
               else (Returned, w3\<lparr>ticks := ticks w + 3\<rparr>)))"
proof -
  let ?w1 = "w\<lparr>ticks := Suc (ticks w)\<rparr>"
  obtain r1 w2 where s: "singleNext ?w1 = (r1, w2)" by (cases "singleNext ?w1")
  obtain r2 w3 where c: "comp_images w2 = (r2, w3)" by (cases "comp_images w2")
  have "sup_only ?w1 w2" using singleNext_so [of ?w1] s by simp
  moreover have "sup_only w2 w3" using comp_images_so [of w2] c by simp
  ultimately have "sup_only ?w1 w3" by (rule sup_only_trans)
  then obtain x where w3: "w3 = ?w1\<lparr>supervisor := x\<rparr>" by (auto simp: sup_only_def)
  show ?thesis
    by (cases r1; cases r2)
       (simp_all add: loopOnce_body_def time_time_def s c w3 Let_def numeral_2_eq_2 numeral_3_eq_3)
qed

lemma strehl_log_append [simp]: "strehl_log (x @ y) = strehl_log x @ strehl_log y"
  by (simp add: strehl_log_def)

lemma strehl_only_append [simp]: "strehl_only (x @ y) \<longleftrightarrow> strehl_only x \<and> strehl_only y"
  by (simp add: strehl_only_def)

lemma sr_text_append [simp]: "sr_text p (x @ y) = sr_text p x @ sr_text p y"
  by (simp add: sr_text_def)

lemma strehl_frame_refl [simp]: "strehl_frame w w"
  by (simp add: strehl_frame_def)

lemma strehl_frame_trans: "strehl_frame a b \<Longrightarrow> strehl_frame b c \<Longrightarrow> strehl_frame a c"
  by (simp add: strehl_frame_def)

lemma ask_grown:
  assumes "grown sv e s" and "ask orc wrap c s = (r, s')"
  shows "\<exists>rep. grown sv (e @ [(c, rep)]) s' \<and> s' = s\<lparr>supervisor := supervisor s'\<rparr> \<and>
           (case r of Inr v \<Rightarrow> rep = wrap v | Inl ex \<Rightarrow> rep = Raises)"
  using assms by (auto simp: grown_def ask_def record_call_def split: if_splits)

lemma getStrehl_grown:
  assumes "grown sv e s" and "getStrehl t s = (r, s')"
  shows "\<exists>rep. grown sv (e @ [(GetStrehl t, rep)]) s' \<and> s' = s\<lparr>supervisor := supervisor s'\<rparr> \<and>
           (case r of Inr v \<Rightarrow> rep = StrehlR (fst v) (snd v) | Inl ex \<Rightarrow> rep = Raises)"
proof -
  from ask_grown [OF assms [unfolded getStrehl_def]]
  show ?thesis by (auto split: sum.splits prod.splits)
qed

lemma getFrameCounter_grown:
  assumes "grown sv e s" and "getFrameCounter s = (r, s')"
  shows "\<exists>rep. grown sv (e @ [(GetFrameCounter, rep)]) s' \<and> s' = s\<lparr>supervisor := supervisor s'\<rparr>"
proof -
  from ask_grown [OF assms [unfolded getFrameCounter_def]]
  show ?thesis by blast
qed

lemma strehl_step_spec:
  assumes g: "grown sv e s0" and st: "strehl_step t ((a, b), s0) = (r, ((a', b'), s'))"
  shows "\<exists>x. grown sv (e @ x) s' \<and> strehl_only x \<and> strehl_frame s0 s' \<and>
           set (map fst (strehl_log x)) \<subseteq> {t} \<and>
           (r = Returned \<longrightarrow>
              (\<exists>se le. strehl_log x = [(t, se, le)] \<and>
                 a' = a @ fmt_2f se @ ''   '' \<and> b' = b @ fmt_2f le @ ''   '' \<and>
                 (if t = wao_dispSR_tar (ui s0)
                  then SRSE s' = deque_append se (SRSE s0) \<and> SRLE s' = deque_append le (SRLE s0)
                  else SRSE s' = SRSE s0 \<and> SRLE s' = SRLE s0))) \<and>
           (r \<noteq> Returned \<longrightarrow> SRSE s' = SRSE s0 \<and> SRLE s' = SRLE s0)"
proof -
  obtain r1 s1 where g1: "getStrehl t s0 = (r1, s1)" by (cases "getStrehl t s0")
  from getStrehl_grown [OF g g1] obtain rep1 where
    1: "grown sv (e @ [(GetStrehl t, rep1)]) s1" and s1: "s1 = s0\<lparr>supervisor := supervisor s1\<rparr>"
    and rep1: "case r1 of Inr v \<Rightarrow> rep1 = StrehlR (fst v) (snd v) | Inl ex \<Rightarrow> rep1 = Raises"
    by blast
  have f1: "strehl_frame s0 s1" by (subst s1) (simp add: strehl_frame_def)
  have b1: "SRSE s1 = SRSE s0" "SRLE s1 = SRLE s0" "wao_dispSR_tar (ui s1) = wao_dispSR_tar (ui s0)"
    by (subst s1, simp)+
  show ?thesis
  proof (cases r1)
    case (Inl ex)
    then have "r = Raised ex" "s' = s1" using st g1 by (simp_all add: strehl_step_def)
    then show ?thesis
      using 1 f1 b1 Inl rep1
      by (intro exI [of _ "[(GetStrehl t, rep1)]"]) (simp add: strehl_only_def strehl_log_def)
  next
    case (Inr SR)
    obtain se le where SR: "SR = (se, le)" by (cases SR)
    have rep: "rep1 = StrehlR se le" using rep1 Inr SR by simp
    show ?thesis
    proof (cases "t = wao_dispSR_tar (ui s0)")
      case False
      then have "r = Returned" "s' = s1" "a' = a @ fmt_2f (fst SR) @ ''   ''"
        "b' = b @ fmt_2f (snd SR) @ ''   ''"
        using st g1 Inr b1 by (simp_all add: strehl_step_def)
      then show ?thesis
        using 1 f1 b1 rep False SR
        by (intro exI [of _ "[(GetStrehl t, rep1)]"]) (simp add: strehl_only_def strehl_log_def)
    next
      case True
      obtain r2 s2 where g2: "getFrameCounter s1 = (r2, s2)" by (cases "getFrameCounter s1")
      from getFrameCounter_grown [OF 1 g2] obtain rep2 where
        2: "grown sv ((e @ [(GetStrehl t, rep1)]) @ [(GetFrameCounter, rep2)]) s2"
        and s2: "s2 = s1\<lparr>supervisor := supervisor s2\<rparr>"
        by blast
      have f2: "strehl_frame s0 s2"
        using f1 by (subst s2) (simp add: strehl_frame_def)
      have b2: "SRSE s2 = SRSE s0" "SRLE s2 = SRLE s0"
        using b1 by (subst s2, simp)+
      show ?thesis
      proof (cases r2)
        case (Inl ex)
        then have "r = Raised ex" "s' = s2"
          using st g1 g2 Inr True b1 by (simp_all add: strehl_step_def)
        then show ?thesis
          using 2 f2 b2 rep
          by (intro exI [of _ "[(GetStrehl t, rep1), (GetFrameCounter, rep2)]"])
             (simp add: strehl_only_def strehl_log_def)
      next
        case (Inr n)
        obtain s3 where u: "updateSRDisplay (snd SR) (fst SR) n s2 = (Returned, s3)"
          by (simp add: updateSRDisplay_def Let_def)
        have s3: "grown sv (e @ [(GetStrehl t, rep1), (GetFrameCounter, rep2)]) s3"
          "strehl_frame s0 s3"
          "SRSE s3 = deque_append (fst SR) (SRSE s0)" "SRLE s3 = deque_append (snd SR) (SRLE s0)"
          using u 2 f2 b2 by (auto simp: updateSRDisplay_def Let_def grown_def strehl_frame_def)
        have "r = Returned" "s' = s3" "a' = a @ fmt_2f (fst SR) @ ''   ''"
          "b' = b @ fmt_2f (snd SR) @ ''   ''"
          using st g1 g2 \<open>r1 = Inr SR\<close> Inr True b1 u by (simp_all add: strehl_step_def)
        then show ?thesis
          using s3 rep True SR
          by (intro exI [of _ "[(GetStrehl t, rep1), (GetFrameCounter, rep2)]"])
             (simp add: strehl_only_def strehl_log_def)
      qed
    qed
  qed
qed

lemma strehl_loop_spec:
  assumes "grown sv e s0" and "distinct ts"
    and "for_each ts strehl_step ((a, b), s0) = (r, ((a', b'), s'))"
  shows "\<exists>x. grown sv (e @ x) s' \<and> strehl_only x \<and> strehl_frame s0 s' \<and>
           set (map fst (strehl_log x)) \<subseteq> set ts \<and>
           (r = Returned \<longrightarrow> map fst (strehl_log x) = ts \<and>
              a' = a @ sr_text fst (strehl_log x) \<and> b' = b @ sr_text snd (strehl_log x)) \<and>
           ((SRSE s' = SRSE s0 \<and> SRLE s' = SRLE s0) \<or>
            (\<exists>se le. (wao_dispSR_tar (ui s0), se, le) \<in> set (strehl_log x) \<and>
               SRSE s' = deque_append se (SRSE s0) \<and> SRLE s' = deque_append le (SRLE s0))) \<and>
           (wao_dispSR_tar (ui s0) \<notin> set ts \<longrightarrow> SRSE s' = SRSE s0 \<and> SRLE s' = SRLE s0)"
  using assms
proof (induction ts arbitrary: e a b s0)
  case Nil
  then show ?case
    by (intro exI [of _ "[]"]) (simp add: strehl_only_def strehl_log_def sr_text_def)
next
  case (Cons t ts)
  obtain r1 a1 b1 s1 where st: "strehl_step t ((a, b), s0) = (r1, ((a1, b1), s1))"
    by (cases "strehl_step t ((a, b), s0)") auto
  from strehl_step_spec [OF Cons.prems(1) st] obtain x1 where
    x1: "grown sv (e @ x1) s1" "strehl_only x1" "strehl_frame s0 s1"
        "set (map fst (strehl_log x1)) \<subseteq> {t}"
    and ok1: "r1 = Returned \<longrightarrow>
              (\<exists>se le. strehl_log x1 = [(t, se, le)] \<and>
                 a1 = a @ fmt_2f se @ ''   '' \<and> b1 = b @ fmt_2f le @ ''   '' \<and>
                 (if t = wao_dispSR_tar (ui s0)
                  then SRSE s1 = deque_append se (SRSE s0) \<and> SRLE s1 = deque_append le (SRLE s0)
                  else SRSE s1 = SRSE s0 \<and> SRLE s1 = SRLE s0))"
    and bad1: "r1 \<noteq> Returned \<longrightarrow> SRSE s1 = SRSE s0 \<and> SRLE s1 = SRLE s0"
    by blast
  show ?case
  proof (cases r1)
    case (Inl ex)
    then have "r = Raised ex" "a' = a1" "b' = b1" "s' = s1"
      using Cons.prems(3) st by simp_all
    then show ?thesis
      using x1 bad1 Inl by (intro exI [of _ x1]) auto
  next
    case (Inr u)
    then have r1: "r1 = Returned" by simp
    from ok1 r1 obtain se le where
      l1: "strehl_log x1 = [(t, se, le)]" and a1: "a1 = a @ fmt_2f se @ ''   ''"
      and b1: "b1 = b @ fmt_2f le @ ''   ''"
      and bu: "if t = wao_dispSR_tar (ui s0)
               then SRSE s1 = deque_append se (SRSE s0) \<and> SRLE s1 = deque_append le (SRLE s0)
               else SRSE s1 = SRSE s0 \<and> SRLE s1 = SRLE s0"
      by blast
    have rest: "for_each ts strehl_step ((a1, b1), s1) = (r, ((a', b'), s'))"
      using Cons.prems(3) st r1 by simp
    have d: "distinct ts" "t \<notin> set ts" using Cons.prems(2) by simp_all
    from Cons.IH [OF x1(1) d(1) rest] obtain x2 where
      x2: "grown sv ((e @ x1) @ x2) s'" "strehl_only x2" "strehl_frame s1 s'"
          "set (map fst (strehl_log x2)) \<subseteq> set ts"
      and ok2: "r = Returned \<longrightarrow> map fst (strehl_log x2) = ts \<and>
              a' = a1 @ sr_text fst (strehl_log x2) \<and> b' = b1 @ sr_text snd (strehl_log x2)"
      and bu2: "(SRSE s' = SRSE s1 \<and> SRLE s' = SRLE s1) \<or>
            (\<exists>se le. (wao_dispSR_tar (ui s1), se, le) \<in> set (strehl_log x2) \<and>
               SRSE s' = deque_append se (SRSE s1) \<and> SRLE s' = deque_append le (SRLE s1))"
      and no2: "wao_dispSR_tar (ui s1) \<notin> set ts \<longrightarrow> SRSE s' = SRSE s1 \<and> SRLE s' = SRLE s1"
      by blast
    have tar: "wao_dispSR_tar (ui s1) = wao_dispSR_tar (ui s0)"
      using x1(3) by (simp add: strehl_frame_def)
    have fr: "strehl_frame s0 s'" using x1(3) x2(3) by (rule strehl_frame_trans)
    have tx: "r = Returned \<longrightarrow> map fst (strehl_log (x1 @ x2)) = t # ts \<and>
              a' = a @ sr_text fst (strehl_log (x1 @ x2)) \<and>
              b' = b @ sr_text snd (strehl_log (x1 @ x2))"
      using ok2 l1 a1 b1 by (simp add: sr_text_def)
    have buf: "(SRSE s' = SRSE s0 \<and> SRLE s' = SRLE s0) \<or>
            (\<exists>se le. (wao_dispSR_tar (ui s0), se, le) \<in> set (strehl_log (x1 @ x2)) \<and>
               SRSE s' = deque_append se (SRSE s0) \<and> SRLE s' = deque_append le (SRLE s0))"
    proof (cases "t = wao_dispSR_tar (ui s0)")
      case True
      then have "SRSE s' = SRSE s1 \<and> SRLE s' = SRLE s1" using no2 tar d(2) by simp
      then show ?thesis using bu True l1 by auto
    next
      case False
      then have "SRSE s1 = SRSE s0 \<and> SRLE s1 = SRLE s0" using bu by simp
      then show ?thesis using bu2 tar by auto
    qed
    have no: "wao_dispSR_tar (ui s0) \<notin> set (t # ts) \<longrightarrow> SRSE s' = SRSE s0 \<and> SRLE s' = SRLE s0"
      using no2 tar bu by auto
    have sub: "set (map fst (strehl_log (x1 @ x2))) \<subseteq> set (t # ts)"
      using x1(4) x2(4) by auto
    show ?thesis
      using x2(1) x1(2) x2(2) fr tx buf no sub
      by (intro exI [of _ "x1 @ x2"]) simp
  qed
qed

lemma strehl_log_counter [simp]: "strehl_log [(GetFrameCounter, rep)] = []"
  by (simp add: strehl_log_def)

lemma strehl_only_counter [simp]: "strehl_only [(GetFrameCounter, rep)]"
  by (simp add: strehl_only_def)

lemma refresh_displays_spec:
  assumes g: "grown sv e s" and rd: "refresh_displays start lt s = (r, s')"
  shows "\<exists>x. grown sv (e @ x) s' \<and> strehl_only x \<and>
           (r = Returned \<longrightarrow> refreshTime s' = start \<and> wao_currentFreq (ui s') = 1 / lt) \<and>
           (r \<noteq> Returned \<longrightarrow> refreshTime s' = refreshTime s) \<and>
           ((wao_strehlSE (ui s') = wao_strehlSE (ui s) \<and> wao_strehlLE (ui s') = wao_strehlLE (ui s) \<and>
             wao_currentFreq (ui s') = wao_currentFreq (ui s)) \<or>
            (\<exists>cfg. config s = Some cfg \<and> map fst (strehl_log x) = map int [0..<n_targets cfg] \<and>
               wao_strehlSE (ui s') = sr_text fst (strehl_log x) \<and>
               wao_strehlLE (ui s') = sr_text snd (strehl_log x) \<and>
               wao_currentFreq (ui s') = 1 / lt)) \<and>
           ((SRSE s' = SRSE s \<and> SRLE s' = SRLE s) \<or>
            (\<exists>se le. (wao_dispSR_tar (ui s), se, le) \<in> set (strehl_log x) \<and>
               SRSE s' = deque_append se (SRSE s) \<and> SRLE s' = deque_append le (SRLE s)))"
proof (cases "config s")
  case None
  then have "r = Raised AttributeError" "s' = s"
    using rd by (simp_all add: refresh_displays_def get_config_def)
  then show ?thesis using g by (intro exI [of _ "[]"]) (simp add: strehl_only_def)
next
  case (Some cfg)
  let ?ts = "map int [0..<n_targets cfg]"
  obtain r1 a b s1 where l: "for_each ?ts strehl_step (([], []), s) = (r1, ((a, b), s1))"
    by (cases "for_each ?ts strehl_step (([], []), s)") auto
  have dist: "distinct ?ts" by (simp add: distinct_map inj_on_def)
  from strehl_loop_spec [OF g dist l] obtain x1 where
    x1: "grown sv (e @ x1) s1" "strehl_only x1" "strehl_frame s s1"
    and ok: "r1 = Returned \<longrightarrow> map fst (strehl_log x1) = ?ts \<and>
              a = sr_text fst (strehl_log x1) \<and> b = sr_text snd (strehl_log x1)"
    and buf: "(SRSE s1 = SRSE s \<and> SRLE s1 = SRLE s) \<or>
            (\<exists>se le. (wao_dispSR_tar (ui s), se, le) \<in> set (strehl_log x1) \<and>
               SRSE s1 = deque_append se (SRSE s) \<and> SRLE s1 = deque_append le (SRLE s))"
    by auto
  have fr: "refreshTime s1 = refreshTime s" "wao_strehlSE (ui s1) = wao_strehlSE (ui s)"
    "wao_strehlLE (ui s1) = wao_strehlLE (ui s)" "wao_currentFreq (ui s1) = wao_currentFreq (ui s)"
    using x1(3) by (simp_all add: strehl_frame_def)
  show ?thesis
  proof (cases r1)
    case (Inl ex)
    then have "r = Raised ex" "s' = s1"
      using rd Some l by (simp_all add: refresh_displays_def get_config_def)
    then show ?thesis using x1 fr buf by (intro exI [of _ x1]) simp
  next
    case (Inr u)
    then have r1: "r1 = Returned" by simp
    note ok' = ok [rule_format, OF r1]
    let ?t4 = "clock s1 (ticks s1)"
    let ?w3 = "s1\<lparr>ticks := ticks s1 + 1\<rparr>"
    let ?w4 = "updateCurrentLoopFrequency (1 / lt) (updateSRLE b (updateSRSE a ?w3))"
    have "refresh_displays start lt s =
      (if lt = 0 then (Raised ZeroDivisionError, s1)
       else if ?t4 - refreshTime s1 = 0 then (Raised ZeroDivisionError, ?w3)
       else and_then
              (if dispStatsInTerminal s1
               then bind (getFrameCounter ?w4) (\<lambda>n w5.
                      (Returned, emit (PrintInPlace n b a (1 / (?t4 - refreshTime s1)) (1 / lt)) w5))
               else (Returned, ?w4))
              (\<lambda>w6. (Returned, w6\<lparr>refreshTime := start\<rparr>)))"
      using Some l r1
      by (simp add: refresh_displays_def get_config_def time_time_def Let_def
            updateCurrentLoopFrequency_def updateSRLE_def updateSRSE_def)
    then have tail: "(r, s') =
      (if lt = 0 then (Raised ZeroDivisionError, s1)
       else if ?t4 - refreshTime s1 = 0 then (Raised ZeroDivisionError, ?w3)
       else and_then
              (if dispStatsInTerminal s1
               then bind (getFrameCounter ?w4) (\<lambda>n w5.
                      (Returned, emit (PrintInPlace n b a (1 / (?t4 - refreshTime s1)) (1 / lt)) w5))
               else (Returned, ?w4))
              (\<lambda>w6. (Returned, w6\<lparr>refreshTime := start\<rparr>)))"
      using rd by simp
    have w4: "grown sv (e @ x1) ?w4" "refreshTime ?w4 = refreshTime s" "SRSE ?w4 = SRSE s1"
      "SRLE ?w4 = SRLE s1" "wao_strehlSE (ui ?w4) = a" "wao_strehlLE (ui ?w4) = b"
      "wao_currentFreq (ui ?w4) = 1 / lt"
      using x1(1) fr(1)
      by (simp_all add: grown_def updateCurrentLoopFrequency_def updateSRLE_def updateSRSE_def)
    consider (z1) "lt = 0" | (z2) "lt \<noteq> 0" "?t4 - refreshTime s1 = 0"
      | (quiet) "lt \<noteq> 0" "?t4 - refreshTime s1 \<noteq> 0" "\<not> dispStatsInTerminal s1"
      | (stats) "lt \<noteq> 0" "?t4 - refreshTime s1 \<noteq> 0" "dispStatsInTerminal s1"
      by blast
    then show ?thesis
    proof cases
      case z1
      then have "r = Raised ZeroDivisionError" "s' = s1" using tail by simp_all
      then show ?thesis using x1 fr buf by (intro exI [of _ x1]) simp
    next
      case z2
      then have "r = Raised ZeroDivisionError" "s' = ?w3" using tail by simp_all
      then show ?thesis using x1 fr buf by (intro exI [of _ x1]) (simp add: grown_def)
    next
      case quiet
      then have "r = Returned" "s' = ?w4\<lparr>refreshTime := start\<rparr>" using tail by simp_all
      then show ?thesis
        using w4 x1(2) ok' buf Some
        by (intro exI [of _ x1]) (auto simp: grown_def)
    next
      case stats
      obtain r2 s2 where g2: "getFrameCounter ?w4 = (r2, s2)" by (cases "getFrameCounter ?w4")
      from getFrameCounter_grown [OF w4(1) g2] obtain rep where
        2: "grown sv ((e @ x1) @ [(GetFrameCounter, rep)]) s2"
        and s2: "s2 = ?w4\<lparr>supervisor := supervisor s2\<rparr>"
        by blast
      have f2: "refreshTime s2 = refreshTime s" "SRSE s2 = SRSE s1" "SRLE s2 = SRLE s1"
        "wao_strehlSE (ui s2) = a" "wao_strehlLE (ui s2) = b" "wao_currentFreq (ui s2) = 1 / lt"
        using w4(2-7) by (subst s2, simp)+
      show ?thesis
      proof (cases r2)
        case (Inl ex)
        then have "r = Raised ex" "s' = s2" using tail stats g2 by simp_all
        then show ?thesis
          using 2 f2 x1(2) ok' buf Some
          by (intro exI [of _ "x1 @ [(GetFrameCounter, rep)]"]) auto
      next
        case (Inr n)
        then have "r = Returned"
          "s' = (emit (PrintInPlace n b a (1 / (?t4 - refreshTime s1)) (1 / lt)) s2)\<lparr>refreshTime := start\<rparr>"
          using tail stats g2 by simp_all
        then show ?thesis
          using 2 f2 x1(2) ok' buf Some
          by (intro exI [of _ "x1 @ [(GetFrameCounter, rep)]"]) (auto simp: emit_def grown_def)
      qed
    qed
  qed
qed

lemma ask_unit_grown:
  assumes "grown sv e s" and "ask_unit c s = (r, s')"
  shows "\<exists>rep. grown sv (e @ [(c, rep)]) s' \<and> (r = Returned \<longrightarrow> rep = NoneR)"
proof -
  from ask_grown [OF assms [unfolded ask_unit_def]] obtain rep where
    rep: "grown sv (e @ [(c, rep)]) s'" "case r of Inr v \<Rightarrow> rep = NoneR | Inl ex \<Rightarrow> rep = Raises"
    by blast
  then have "r = Returned \<longrightarrow> rep = NoneR" by (cases r) simp_all
  then show ?thesis using rep(1) by blast
qed

lemma for_each_ask_unit_spec:
  assumes "grown sv e s" and "for_each xs (\<lambda>x. ask_unit (f x)) s = (r, s')"
  shows "\<exists>x. grown sv (e @ x) s' \<and> (\<exists>k. map fst x = map f (take k xs)) \<and>
           (r = Returned \<longrightarrow> x = map (\<lambda>y. (f y, NoneR)) xs)"
  using assms
proof (induction xs arbitrary: e s)
  case Nil
  then show ?case by (intro exI [of _ "[]"]) simp
next
  case (Cons y ys)
  obtain r1 s1 where a: "ask_unit (f y) s = (r1, s1)" by (cases "ask_unit (f y) s")
  from ask_unit_grown [OF Cons.prems(1) a] obtain rep where
    1: "grown sv (e @ [(f y, rep)]) s1" and rep: "r1 = Returned \<longrightarrow> rep = NoneR"
    by blast
  show ?case
  proof (cases r1)
    case (Inl ex)
    then have "r = Raised ex" "s' = s1" using Cons.prems(2) a by simp_all
    moreover have "map fst [(f y, rep)] = map f (take 1 (y # ys))" by simp
    ultimately show ?thesis using 1 by (intro exI [of _ "[(f y, rep)]"]) blast
  next
    case (Inr u)
    then have rest: "for_each ys (\<lambda>x. ask_unit (f x)) s1 = (r, s')"
      using Cons.prems(2) a by simp
    from Cons.IH [OF 1 rest] obtain x k where
      x: "grown sv ((e @ [(f y, rep)]) @ x) s'" "map fst x = map f (take k ys)"
         "r = Returned \<longrightarrow> x = map (\<lambda>y. (f y, NoneR)) ys"
      by blast
    have "map fst ((f y, rep) # x) = map f (take (Suc k) (y # ys))" using x(2) by simp
    then have "\<exists>ka. map fst ((f y, rep) # x) = map f (take ka (y # ys))" by (rule exI)
    moreover have "r = Returned \<longrightarrow> (f y, rep) # x = map (\<lambda>y. (f y, NoneR)) (y # ys)"
      using x(3) rep Inr by simp
    ultimately show ?thesis
      using x(1) by (intro exI [of _ "(f y, rep) # x"]) simp
  qed
qed

lemma comp_images_spec:
  assumes "grown sv e s" and "comp_images s = (r, s')"
  shows "\<exists>x. grown sv (e @ x) s' \<and> (\<exists>k. map fst x = map CompImage [0..<k]) \<and>
           (r = Returned \<longrightarrow>
              x = map (\<lambda>t. (CompImage t, NoneR)) [0..<d_targets sv (calls sv @ e)])"
proof (cases "\<not> has_sim sv (calls sv @ e) \<or> sim_is_None sv (calls sv @ e)")
  case True
  then have "r = Raised AttributeError" "s' = s"
    using assms by (auto simp: comp_images_def grown_def)
  moreover have "map fst ([] :: history) = map CompImage [0..<0]" by simp
  ultimately show ?thesis using assms(1) by (intro exI [of _ "[]"]) auto
next
  case False
  then have "for_each [0..<d_targets sv (calls sv @ e)] (\<lambda>t. ask_unit (CompImage t)) s = (r, s')"
    using assms by (auto simp: comp_images_def grown_def)
  from for_each_ask_unit_spec [OF assms(1) this] obtain x k where
    x: "grown sv (e @ x) s'" "map fst x = map CompImage (take k [0..<d_targets sv (calls sv @ e)])"
       "r = Returned \<longrightarrow> x = map (\<lambda>t. (CompImage t, NoneR)) [0..<d_targets sv (calls sv @ e)]"
    by blast
  have "take k [0..<d_targets sv (calls sv @ e)] = [0..<min k (d_targets sv (calls sv @ e))]"
    by (simp add: take_upt min_def)
  then show ?thesis using x by (intro exI [of _ x]) auto
qed

lemma singleNext_spec:
  assumes "grown sv e s" and "singleNext s = (r, s')"
  shows "\<exists>rep. grown sv (e @ [(SingleNext (seeAtmos sv (calls sv @ e)), rep)]) s' \<and>
           (r = Returned \<longrightarrow> rep = NoneR)"
proof -
  have "ask_unit (SingleNext (seeAtmos sv (calls sv @ e))) s = (r, s')"
    using assms by (simp add: singleNext_def grown_def)
  from ask_unit_grown [OF assms(1) this] show ?thesis .
qed

lemma sup_only_fields:
  assumes "sup_only w s"
  shows "ui s = ui w" "SRSE s = SRSE w" "SRLE s = SRLE w" "numiter s = numiter w"
    "refreshTime s = refreshTime w" "config s = config w" "gui s = gui w" "ticks s = ticks w"
  using assms by (auto simp: sup_only_def)

lemma loopOnce_body_spec:
  assumes sv: "supervisor w = Some sv" and body: "loopOnce_body w = (r, s')"
  shows "\<exists>rep ext2 ext3.
     grown sv ((SingleNext (seeAtmos sv (calls sv)), rep) # ext2 @ ext3) s' \<and>
     (\<exists>k. map fst ext2 = map CompImage [0..<k]) \<and>
     (r = Returned \<longrightarrow> rep = NoneR \<and>
        ext2 = map (\<lambda>t. (CompImage t, NoneR))
                 [0..<d_targets sv (calls sv @ [(SingleNext (seeAtmos sv (calls sv)), NoneR)])]) \<and>
     strehl_only ext3 \<and>
     ((wao_strehlSE (ui s') = wao_strehlSE (ui w) \<and> wao_strehlLE (ui s') = wao_strehlLE (ui w) \<and>
       wao_currentFreq (ui s') = wao_currentFreq (ui w)) \<or>
      (\<exists>cfg. config w = Some cfg \<and> map fst (strehl_log ext3) = map int [0..<n_targets cfg] \<and>
         wao_strehlSE (ui s') = sr_text fst (strehl_log ext3) \<and>
         wao_strehlLE (ui s') = sr_text snd (strehl_log ext3) \<and>
         wao_currentFreq (ui s') = 1 / (clock w (ticks w + 1) - clock w (ticks w)))) \<and>
     ((SRSE s' = SRSE w \<and> SRLE s' = SRLE w) \<or>
      (\<exists>se le. (wao_dispSR_tar (ui w), se, le) \<in> set (strehl_log ext3) \<and>
         SRSE s' = deque_append se (SRSE w) \<and> SRLE s' = deque_append le (SRLE w)))"
proof -
  let ?b = "seeAtmos sv (calls sv)"
  let ?w1 = "w\<lparr>ticks := ticks w + 1\<rparr>"
  have g0: "grown sv [] ?w1" using sv by (simp add: grown_def)
  obtain r1 w2 where s1: "singleNext ?w1 = (r1, w2)" by (cases "singleNext ?w1")
  from singleNext_spec [OF g0 s1] obtain rep where
    g1: "grown sv [(SingleNext ?b, rep)] w2" and rep: "r1 = Returned \<longrightarrow> rep = NoneR"
    by auto
  have so1: "sup_only ?w1 w2"
    using singleNext_so [of ?w1] s1 by simp
  have f1: "ui w2 = ui w" "SRSE w2 = SRSE w" "SRLE w2 = SRLE w"
    using sup_only_fields [OF so1] by simp_all
  have k0: "\<exists>k. map fst ([] :: history) = map CompImage [0..<k]"
    by (rule exI [of _ 0]) simp
  show ?thesis
  proof (cases r1)
    case (Inl ex)
    then have "r = Raised ex" "s' = w2"
      using body s1 by (simp_all add: loopOnce_body_unfold)
    then show ?thesis
      using g1 f1 k0
      by (intro exI [of _ rep] exI [of _ "[]"]) (simp add: strehl_only_def)
  next
    case (Inr u1)
    then have rep': "rep = NoneR" using rep by simp
    obtain r2 w3 where c: "comp_images w2 = (r2, w3)" by (cases "comp_images w2")
    from comp_images_spec [OF g1 c] obtain ext2 where
      g2: "grown sv ([(SingleNext ?b, rep)] @ ext2) w3"
      and k: "\<exists>k. map fst ext2 = map CompImage [0..<k]"
      and full: "r2 = Returned \<longrightarrow>
              ext2 = map (\<lambda>t. (CompImage t, NoneR))
                       [0..<d_targets sv (calls sv @ [(SingleNext ?b, rep)])]"
      by blast
    have "sup_only w2 w3" using comp_images_so [of w2] c by simp
    with so1 have so2: "sup_only ?w1 w3" by (rule sup_only_trans)
    have f2: "ui w3 = ui w" "SRSE w3 = SRSE w" "SRLE w3 = SRLE w" "config w3 = config w"
      using sup_only_fields [OF so2] by simp_all
    show ?thesis
    proof (cases r2)
      case (Inl ex)
      then have "r = Raised ex" "s' = w3"
        using body s1 c \<open>r1 = Inr u1\<close> by (simp_all add: loopOnce_body_unfold)
      then show ?thesis
        using g2 f2 k
        by (intro exI [of _ rep] exI [of _ ext2] exI [of _ "[]"]) (simp add: strehl_only_def)
    next
      case (Inr u2)
      then have full': "ext2 = map (\<lambda>t. (CompImage t, NoneR))
                       [0..<d_targets sv (calls sv @ [(SingleNext ?b, NoneR)])]"
        using full rep' by simp
      let ?thr = "wao_frameRate (ui w) \<noteq> 0 \<and>
                  clock w (ticks w + 2) - refreshTime w > 1 / wao_frameRate (ui w)"
      show ?thesis
      proof (cases ?thr)
        case False
        then have "s' = w3\<lparr>ticks := ticks w + 2\<rparr> \<or> s' = w3\<lparr>ticks := ticks w + 3\<rparr>"
          using body s1 c \<open>r1 = Inr u1\<close> Inr by (auto simp: loopOnce_body_unfold split: if_splits)
        then show ?thesis
          using g2 f2 k full' rep'
          by (intro exI [of _ rep] exI [of _ ext2] exI [of _ "[]"])
             (auto simp: strehl_only_def grown_def)
      next
        case True
        let ?s = "w3\<lparr>ticks := ticks w + 3\<rparr>"
        have rd: "refresh_displays (clock w (ticks w)) (clock w (ticks w + 1) - clock w (ticks w)) ?s
                  = (r, s')"
          using body s1 c \<open>r1 = Inr u1\<close> Inr True by (simp add: loopOnce_body_unfold)
        have gs: "grown sv ([(SingleNext ?b, rep)] @ ext2) ?s"
          using g2 by (simp add: grown_def)
        from refresh_displays_spec [OF gs rd] obtain x where
          x: "grown sv (([(SingleNext ?b, rep)] @ ext2) @ x) s'" "strehl_only x"
          and tx: "(wao_strehlSE (ui s') = wao_strehlSE (ui ?s) \<and>
                    wao_strehlLE (ui s') = wao_strehlLE (ui ?s) \<and>
                    wao_currentFreq (ui s') = wao_currentFreq (ui ?s)) \<or>
            (\<exists>cfg. config ?s = Some cfg \<and> map fst (strehl_log x) = map int [0..<n_targets cfg] \<and>
               wao_strehlSE (ui s') = sr_text fst (strehl_log x) \<and>
               wao_strehlLE (ui s') = sr_text snd (strehl_log x) \<and>
               wao_currentFreq (ui s') = 1 / (clock w (ticks w + 1) - clock w (ticks w)))"
          and bu: "(SRSE s' = SRSE ?s \<and> SRLE s' = SRLE ?s) \<or>
            (\<exists>se le. (wao_dispSR_tar (ui ?s), se, le) \<in> set (strehl_log x) \<and>
               SRSE s' = deque_append se (SRSE ?s) \<and> SRLE s' = deque_append le (SRLE ?s))"
          by blast
        show ?thesis
          using x k full' rep' tx bu f2
          by (intro exI [of _ rep] exI [of _ ext2] exI [of _ x]) simp
      qed
    qed
  qed
qed

lemma loopOnce_body_throttle:
  assumes body: "loopOnce_body w = (r, s')"
  shows "(\<not> refresh_due w \<longrightarrow>
            ui s' = ui w \<and> refreshTime s' = refreshTime w \<and> SRSE s' = SRSE w \<and>
            SRLE s' = SRLE w \<and> numiter s' = numiter w \<and> gui s' = gui w) \<and>
         (refreshTime s' = refreshTime w \<or> (refresh_due w \<and> refreshTime s' = clock w (ticks w))) \<and>
         (r = Returned \<and> refresh_due w \<longrightarrow>
            refreshTime s' = clock w (ticks w) \<and>
            wao_currentFreq (ui s') = 1 / (clock w (ticks w + 1) - clock w (ticks w)))"
proof -
  let ?w1 = "w\<lparr>ticks := ticks w + 1\<rparr>"
  obtain r1 w2 where s1: "singleNext ?w1 = (r1, w2)" by (cases "singleNext ?w1")
  obtain r2 w3 where c: "comp_images w2 = (r2, w3)" by (cases "comp_images w2")
  have so1: "sup_only ?w1 w2" using singleNext_so [of ?w1] s1 by simp
  have "sup_only w2 w3" using comp_images_so [of w2] c by simp
  with so1 have so2: "sup_only ?w1 w3" by (rule sup_only_trans)
  note f1 = sup_only_fields [OF so1, simplified]
  note f2 = sup_only_fields [OF so2, simplified]
  show ?thesis
  proof (cases r1)
    case (Inl ex)
    then have "r = Raised ex" "s' = w2" using body s1 by (simp_all add: loopOnce_body_unfold)
    then show ?thesis using f1 by simp
  next
    case (Inr u1)
    show ?thesis
    proof (cases r2)
      case (Inl ex)
      then have "r = Raised ex" "s' = w3"
        using body s1 c \<open>r1 = Inr u1\<close> by (simp_all add: loopOnce_body_unfold)
      then show ?thesis using f2 by simp
    next
      case (Inr u2)
      show ?thesis
      proof (cases "refresh_due w")
        case False
        then have "s' = w3\<lparr>ticks := ticks w + 2\<rparr> \<or> s' = w3\<lparr>ticks := ticks w + 3\<rparr>"
          using body s1 c \<open>r1 = Inr u1\<close> Inr
          by (auto simp: loopOnce_body_unfold refresh_due_def split: if_splits)
        then show ?thesis using f2 False by auto
      next
        case True
        let ?s = "w3\<lparr>ticks := ticks w + 3\<rparr>"
        have rd: "refresh_displays (clock w (ticks w)) (clock w (ticks w + 1) - clock w (ticks w)) ?s
                  = (r, s')"
          using body s1 c \<open>r1 = Inr u1\<close> Inr True
          by (simp add: loopOnce_body_unfold refresh_due_def)
        have "supervisor w \<noteq> None"
          using s1 \<open>r1 = Inr u1\<close> by (auto simp: singleNext_def split: option.splits)
        then obtain sv where sv: "supervisor w = Some sv" by auto
        then have g0: "grown sv [] ?w1" by (simp add: grown_def)
        from singleNext_spec [OF g0 s1] obtain e1 where g1: "grown sv e1 w2" by auto
        from comp_images_spec [OF g1 c] obtain e2 where "grown sv e2 w3" by blast
        then have gs: "grown sv e2 ?s" by (simp add: grown_def)
        from refresh_displays_spec [OF gs rd]
        have "(r = Returned \<longrightarrow> refreshTime s' = clock w (ticks w) \<and>
                 wao_currentFreq (ui s') = 1 / (clock w (ticks w + 1) - clock w (ticks w))) \<and>
              (r \<noteq> Returned \<longrightarrow> refreshTime s' = refreshTime ?s)"
          by blast
        then show ?thesis using True f2 by (cases "r = Returned") auto
      qed
    qed
  qed
qed

lemma no_singleNext_comp:
  "map fst ext = map CompImage ks \<Longrightarrow> filter is_singleNext (map fst ext) = []"
  by (simp add: is_singleNext_def filter_empty_conv)

lemma no_singleNext_strehl:
  "strehl_only ext \<Longrightarrow> filter is_singleNext (map fst ext) = []"
  by (auto simp: strehl_only_def is_singleNext_def filter_empty_conv list_all_iff
           split: sup_call.splits)

lemma loopOnce_free:
  assumes "\<not> loopLock w" and "loopOnce_body (w\<lparr>loopLock := True\<rparr>) = (r, s')"
  shows "supervisor (snd (loopOnce w)) = supervisor s'" "ui (snd (loopOnce w)) = ui s'"
    "SRSE (snd (loopOnce w)) = SRSE s'" "SRLE (snd (loopOnce w)) = SRLE s'"
    "numiter (snd (loopOnce w)) = numiter s'" "refreshTime (snd (loopOnce w)) = refreshTime s'"
    "gui (snd (loopOnce w)) = gui s'"
  using assms by (cases r; simp add: loopOnce_def py_print_def)+


text \<open>
  The throttle of \<open>loopOnce\<close>.  \<open>refresh_due\<close> is its test: the reading
  of the clock after the simulation step, minus \<open>refreshTime\<close>, exceeds 1 divided by the
  frame rate of the GUI.  When it fails, the Strehl plot, the Strehl text fields and the
  loop-frequency display (the whole \<open>ui\<close> record), the Strehl buffers and \<open>refreshTime\<close>
  are unchanged.  \<open>refreshTime\<close> changes only when the test holds, and then to the start
  time of the current iteration; it does so whenever the iteration raises nothing, and
  the frequency display then shows 1 over the duration of the simulation step.
\<close>

lemma refresh_throttle:
  "(\<not> refresh_due w \<longrightarrow>
      ui (snd (loopOnce w)) = ui w \<and> refreshTime (snd (loopOnce w)) = refreshTime w \<and>
      SRSE (snd (loopOnce w)) = SRSE w \<and> SRLE (snd (loopOnce w)) = SRLE w \<and>
      numiter (snd (loopOnce w)) = numiter w \<and> gui (snd (loopOnce w)) = gui w) \<and>
   (refreshTime (snd (loopOnce w)) = refreshTime w \<or>
      (refresh_due w \<and> refreshTime (snd (loopOnce w)) = clock w (ticks w))) \<and>
   (\<not> loopLock w \<and> fst (loopOnce_body (w\<lparr>loopLock := True\<rparr>)) = Returned \<and> refresh_due w \<longrightarrow>
      refreshTime (snd (loopOnce w)) = clock w (ticks w) \<and>
      wao_currentFreq (ui (snd (loopOnce w))) = 1 / (clock w (ticks w + 1) - clock w (ticks w)))"
proof (cases "loopLock w")
  case True
  then show ?thesis by (simp add: loopOnce_def py_print_def)
next
  case False
  let ?w0 = "w\<lparr>loopLock := True\<rparr>"
  obtain r s' where body: "loopOnce_body ?w0 = (r, s')" by (cases "loopOnce_body ?w0")
  note fin = loopOnce_free [OF False body]
  have d: "refresh_due ?w0 = refresh_due w" by (simp add: refresh_due_def)
  from loopOnce_body_throttle [OF body] show ?thesis
    by (simp add: fin d body)
qed

lemmas fmt_defs = fmt_2f_def round_half_even_def dec_digits.simps digit_char_def

lemma demo_loopOnce_calls:
  "sup_calls (snd (loopOnce demo_widget)) =
     [(SingleNext True, NoneR), (CompImage 0, NoneR), (GetStrehl 0, StrehlR (1 / 2) (1 / 4)),
      (GetFrameCounter, CountR 3)]"
  by (simp add: loop_defs demo_defs sup_calls_def Let_def)

lemma demo_loopOnce_texts:
  "wao_strehlSE (ui (snd (loopOnce demo_widget))) = ''0.50   '' \<and>
   wao_strehlLE (ui (snd (loopOnce demo_widget))) = ''0.25   ''"
  by (simp add: loop_defs demo_defs fmt_defs Let_def)


lemma bursty_first:
  "refreshTime (snd (loopOnce bursty_widget)) = 100 \<and>
   ticks (snd (loopOnce bursty_widget)) = 4 \<and>
   curveSRSE (ui (snd (loopOnce bursty_widget))) = ([3], [1 / 2])"
  by (simp add: bursty_widget_def bursty_clock_def loop_defs demo_defs Let_def)

lemma bursty_body_returns:
  "fst (loopOnce_body (bursty_widget\<lparr>loopLock := True\<rparr>)) = Returned"
  by (simp add: bursty_widget_def bursty_clock_def loop_defs demo_defs Let_def)

lemma bursty_due: "refresh_due bursty_widget"
  by (simp add: refresh_due_def bursty_widget_def bursty_clock_def demo_defs)

lemma refresh_throttle_example:
  "\<not> refresh_due (demo_widget\<lparr>refreshTime := 5\<rparr>) \<and>
   ui (snd (loopOnce (demo_widget\<lparr>refreshTime := 5\<rparr>))) = demo_ui \<and>
   refreshTime (snd (loopOnce (demo_widget\<lparr>refreshTime := 5\<rparr>))) = 5 \<and>
   \<not> loopLock bursty_widget \<and>
   fst (loopOnce_body (bursty_widget\<lparr>loopLock := True\<rparr>)) = Returned \<and>
   refresh_due bursty_widget \<and>
   refreshTime (snd (loopOnce bursty_widget)) = 100 \<and>
   wao_currentFreq (ui (snd (loopOnce bursty_widget))) = 10 / 9"
proof -
  let ?q = "demo_widget\<lparr>refreshTime := 5\<rparr>"
  have a: "\<not> refresh_due ?q"
    by (simp add: refresh_due_def demo_defs)
  have b: "\<not> loopLock bursty_widget" by (simp add: bursty_widget_def demo_widget_def)
  have c: "clock bursty_widget (ticks bursty_widget) = 100"
    "clock bursty_widget (ticks bursty_widget + 1) = 1009 / 10"
    by (simp_all add: bursty_widget_def bursty_clock_def demo_widget_def)
  have q: "ui ?q = demo_ui" "refreshTime ?q = 5" by (simp_all add: demo_widget_def)
  have A: "ui (snd (loopOnce ?q)) = ui ?q \<and> refreshTime (snd (loopOnce ?q)) = refreshTime ?q"
    using refresh_throttle [of ?q] a by blast
  have C: "refreshTime (snd (loopOnce bursty_widget)) = clock bursty_widget (ticks bursty_widget) \<and>
           wao_currentFreq (ui (snd (loopOnce bursty_widget))) =
             1 / (clock bursty_widget (ticks bursty_widget + 1) - clock bursty_widget (ticks bursty_widget))"
    using refresh_throttle [of bursty_widget] b bursty_body_returns bursty_due by blast
  show ?thesis
    using a b bursty_body_returns bursty_due A C unfolding q c by simp
qed

text \<open>
  Claim C2.  The displays should never be refreshed more often than the frame rate of
  the GUI.  They are: \<open>refreshTime\<close>, documented as the system time at the last display
  refresh, is set to the start of the iteration, not to the time of the refresh.  With
  a frame rate of 1 Hz, a slow iteration (started at 100.0, tested at 100.9) followed
  by a fast one (started at 100.95, tested at 101.05) passes the throttle test both
  times and plots a point both times, 0.15 seconds apart.
\<close>

theorem refresh_burst:
  "refresh_due bursty_widget \<and> refresh_due (snd (loopOnce bursty_widget)) \<and>
   refreshTime (snd (loopOnce bursty_widget)) = 100 \<and>
   refreshTime (snd (loopOnce (snd (loopOnce bursty_widget)))) = 10095 / 100 \<and>
   curveSRSE (ui (snd (loopOnce bursty_widget))) = ([3], [1 / 2]) \<and>
   curveSRSE (ui (snd (loopOnce (snd (loopOnce bursty_widget))))) = ([3, 7], [1 / 2, 1 / 2]) \<and>
   clock bursty_widget 6 - clock bursty_widget 2 < 1 / wao_frameRate (ui bursty_widget)"
  by (simp add: refresh_due_def bursty_widget_def bursty_clock_def loop_defs demo_defs Let_def)

section \<open>Docks and overlays of a loaded configuration\<close>

lemma load_step_trans:
  "load_step base a s s' \<Longrightarrow> load_step base b s' s'' \<Longrightarrow> load_step base (a @ b) s s''"
  by (simp add: load_step_def)

lemma load_step_refl [simp]: "load_step base [] s s"
  by (simp add: load_step_def)

lemma add_dispDock_step:
  "type \<noteq> ''SR'' \<Longrightarrow>
   load_step base [AddDispDock name parent type] s (add_dispDock base name parent type s)"
  by (simp add: load_step_def add_dispDock_def on_display_def emit_def Let_def display_of_def
        replay_def split: prod.splits)

lemma image_docks_step:
  "load_step base (numbered_docks prefix parent n) s (image_docks base prefix parent n s)"
proof (induction n)
  case 0
  then show ?case by (simp add: numbered_docks_def image_docks_def)
next
  case (Suc n)
  have "load_step base [AddDispDock (prefix @ fmt_d (int n)) parent ''pg_image'']
          (image_docks base prefix parent n s)
          (add_dispDock base (prefix @ fmt_d (int n)) parent ''pg_image''
             (image_docks base prefix parent n s))"
    by (rule add_dispDock_step) simp
  from load_step_trans [OF Suc this] show ?case
    by (simp add: numbered_docks_def image_docks_def)
qed

lemma remove_items_step:
  assumes "\<forall>k \<in> fst ` set d. k \<in> dom (viewboxes s)"
  shows "fst (remove_items d s) = Returned \<and>
         load_step base (map (\<lambda>(key, pgpl). RemoveItem key pgpl) d) s (snd (remove_items d s)) \<and>
         dom (viewboxes (snd (remove_items d s))) = dom (viewboxes s)"
  using assms unfolding remove_items_def
proof (induction d arbitrary: s)
  case Nil
  then show ?case by simp
next
  case (Cons kp d)
  obtain k p where kp: "kp = (k, p)" by (cases kp)
  from Cons.prems kp obtain vb where vb: "viewboxes s k = Some vb" by auto
  let ?s1 = "emit (RemoveItem k p)
                (s\<lparr>viewboxes := (viewboxes s)(k \<mapsto> vb\<lparr>vb_items := remove1 p (vb_items vb)\<rparr>)\<rparr>)"
  have 1: "remove_item kp s = (Returned, ?s1)" using kp vb by (simp add: remove_item_def)
  have d1: "dom (viewboxes ?s1) = dom (viewboxes s)" using vb by (auto simp: emit_def)
  have st: "load_step base [RemoveItem k p] s ?s1"
    using vb by (simp add: load_step_def emit_def display_of_def replay_def)
  have "\<forall>k \<in> fst ` set d. k \<in> dom (viewboxes ?s1)" using Cons.prems d1 by simp
  from Cons.IH [OF this] load_step_trans [OF st] show ?case
    using 1 d1 kp by simp
qed

lemma wfs_docks_step:
  assumes "config s = Some cfg" and "wfs_type (p_wfss cfg ! i) \<noteq> OtherWFS"
  shows "fst (wfs_docks base i s) = Returned \<and>
         load_step base (sensor_docks (p_wfss cfg ! i) i) s (snd (wfs_docks base i s))"
proof -
  let ?w1 = "add_dispDock base (''wfs_'' @ fmt_d (int i)) ''wao_phasesgroup_cb'' ''pg_image'' s"
  let ?w2 = "add_dispDock base (''slpComp_'' @ fmt_d (int i)) ''wao_graphgroup_cb'' ''MPL'' ?w1"
  let ?w3 = "add_dispDock base (''slpGeom_'' @ fmt_d (int i)) ''wao_graphgroup_cb'' ''MPL'' ?w2"
  have 1: "load_step base [AddDispDock (''wfs_'' @ fmt_d (int i)) ''wao_phasesgroup_cb'' ''pg_image''] s ?w1"
    by (rule add_dispDock_step) simp
  have 2: "load_step base [AddDispDock (''slpComp_'' @ fmt_d (int i)) ''wao_graphgroup_cb'' ''MPL''] ?w1 ?w2"
    by (rule add_dispDock_step) simp
  have 3: "load_step base [AddDispDock (''slpGeom_'' @ fmt_d (int i)) ''wao_graphgroup_cb'' ''MPL''] ?w2 ?w3"
    by (rule add_dispDock_step) simp
  note s3 = load_step_trans [OF load_step_trans [OF 1 2] 3]
  have c3: "config ?w3 = Some cfg" using s3 assms(1) by (simp add: load_step_def)
  show ?thesis
  proof (cases "wfs_type (p_wfss cfg ! i) = SH")
    case True
    let ?w4 = "add_dispDock base (''SH_'' @ fmt_d (int i)) ''wao_imagesgroup_cb'' ''pg_image'' ?w3"
    have 4: "load_step base [AddDispDock (''SH_'' @ fmt_d (int i)) ''wao_imagesgroup_cb'' ''pg_image''] ?w3 ?w4"
      by (rule add_dispDock_step) simp
    have "wfs_docks base i s = (Returned, ?w4)"
      using True c3 by (simp add: wfs_docks_def get_config_def Let_def)
    then show ?thesis
      using load_step_trans [OF s3 4] True by (simp add: sensor_docks_def)
  next
    case False
    then have py: "wfs_type (p_wfss cfg ! i) = PYRHR \<or> wfs_type (p_wfss cfg ! i) = PYRLR"
      using assms(2) by (cases "wfs_type (p_wfss cfg ! i)") simp_all
    let ?w5 = "add_dispDock base (''pyrFocalPlane_'' @ fmt_d (int i)) ''wao_imagesgroup_cb'' ''pg_image'' ?w3"
    let ?w6 = "add_dispDock base (''pyrHR_'' @ fmt_d (int i)) ''wao_imagesgroup_cb'' ''pg_image'' ?w5"
    let ?w7 = "add_dispDock base (''pyrLR_'' @ fmt_d (int i)) ''wao_imagesgroup_cb'' ''pg_image'' ?w6"
    have 5: "load_step base [AddDispDock (''pyrFocalPlane_'' @ fmt_d (int i)) ''wao_imagesgroup_cb'' ''pg_image''] ?w3 ?w5"
      by (rule add_dispDock_step) simp
    have 6: "load_step base [AddDispDock (''pyrHR_'' @ fmt_d (int i)) ''wao_imagesgroup_cb'' ''pg_image''] ?w5 ?w6"
      by (rule add_dispDock_step) simp
    have 7: "load_step base [AddDispDock (''pyrLR_'' @ fmt_d (int i)) ''wao_imagesgroup_cb'' ''pg_image''] ?w6 ?w7"
      by (rule add_dispDock_step) simp
    have "wfs_docks base i s = (Returned, ?w7)"
      using False py c3 by (simp add: wfs_docks_def get_config_def Let_def)
    then show ?thesis
      using load_step_trans [OF load_step_trans [OF load_step_trans [OF s3 5] 6] 7] False
      by (simp add: sensor_docks_def)
  qed
qed

lemma for_each_snoc:
  "for_each (xs @ [x]) body s =
     (case for_each xs body s of (Inr u, s') \<Rightarrow> body x s' | (Inl e, s') \<Rightarrow> (Inl e, s'))"
proof (induction xs arbitrary: s)
  case Nil
  then show ?case by (cases "body x s") (auto split: sum.splits)
next
  case (Cons y ys)
  then show ?case by (cases "body y s") (auto split: sum.splits)
qed

lemma wfs_loop_step:
  assumes "config s = Some cfg" and "\<forall>p \<in> set (p_wfss cfg). wfs_type p \<noteq> OtherWFS"
    and "n \<le> length (p_wfss cfg)"
  shows "fst (for_each [0..<n] (wfs_docks base) s) = Returned \<and>
         load_step base (concat (map (\<lambda>i. sensor_docks (p_wfss cfg ! i) i) [0..<n])) s
           (snd (for_each [0..<n] (wfs_docks base) s))"
  using assms(3)
proof (induction n)
  case 0
  then show ?case by simp
next
  case (Suc n)
  let ?r = "for_each [0..<n] (wfs_docks base) s"
  obtain s1 where r: "?r = (Returned, s1)"
    using Suc by (cases ?r) auto
  have st: "load_step base (concat (map (\<lambda>i. sensor_docks (p_wfss cfg ! i) i) [0..<n])) s s1"
    using Suc r by simp
  then have c1: "config s1 = Some cfg" using assms(1) by (simp add: load_step_def)
  have t: "wfs_type (p_wfss cfg ! n) \<noteq> OtherWFS"
    using assms(2) Suc.prems by simp
  from wfs_docks_step [OF c1 t, of base] load_step_trans [OF st]
  show ?case
    by (simp add: for_each_snoc r)
qed

lemma finish_load_step:
  "load_step base (AddDispDock ''Strehl'' ''wao_graphgroup_cb'' ''SR'' # closing_events s cfg) s
     (finish_load base cfg s)"
proof -
  define w1 where "w1 = add_dispDock base ''Strehl'' ''wao_graphgroup_cb'' ''SR'' s"
  define w2 where "w2 = emit (SetMaximum ''wao_resetSR_tarNum'' (int (n_targets cfg) - 1))
                 (emit (SetValue ''wao_resetSR_tarNum'' 0) (w1\<lparr>ui := (ui w1)\<lparr>wao_resetSR_tarNum := 0\<rparr>\<rparr>))"
  define w3 where "w3 = emit (SetMaximum ''wao_dispSR_tar'' (int (n_targets cfg) - 1))
                 (emit (SetValue ''wao_dispSR_tar'' 0) (w2\<lparr>ui := (ui w2)\<lparr>wao_dispSR_tar := 0\<rparr>\<rparr>))"
  define w4 where "w4 = emit (SetDisabled ''wao_init'' False)
                 (emit (SetDisabled ''wao_resetSR'' True)
                   (emit (SetDisabled ''wao_unzoom'' True)
                     (emit (SetDisabled ''wao_next'' True)
                       (emit (SetDisabled ''wao_run'' True) w3))))"
  define w5 where "w5 = (if expert w4 then emit ExpertUpdatePanels (emit ExpertSetSupervisor w4) else w4)"
  define w6 where "w6 = (case layout cfg of
                  None \<Rightarrow> w5
                | Some l \<Rightarrow> emit (LoadArea (defaultAreaPath w5 @ ''/'' @ l @ ''.area'')) w5)"
  have eq: "finish_load base cfg s = emit AdjustSize w6"
    unfolding finish_load_def Let_def w6_def w5_def w4_def w3_def w2_def w1_def ..
  have 1: "load_step base [AddDispDock ''Strehl'' ''wao_graphgroup_cb'' ''SR'', AddWidgetStrehl ''Strehl''] s w1"
    unfolding w1_def
    by (simp add: load_step_def add_dispDock_def emit_def on_display_def Let_def display_of_def
          replay_def split: prod.splits)
  have 2: "load_step base [SetValue ''wao_resetSR_tarNum'' 0,
                      SetMaximum ''wao_resetSR_tarNum'' (int (n_targets cfg) - 1)] w1 w2"
    unfolding w2_def by (simp add: load_step_def emit_def display_of_def replay_def)
  have 3: "load_step base [SetValue ''wao_dispSR_tar'' 0,
                      SetMaximum ''wao_dispSR_tar'' (int (n_targets cfg) - 1)] w2 w3"
    unfolding w3_def by (simp add: load_step_def emit_def display_of_def replay_def)
  have 4: "load_step base [SetDisabled ''wao_run'' True, SetDisabled ''wao_next'' True,
                      SetDisabled ''wao_unzoom'' True, SetDisabled ''wao_resetSR'' True,
                      SetDisabled ''wao_init'' False] w3 w4"
    unfolding w4_def by (simp add: load_step_def emit_def display_of_def replay_def)
  note s4 = load_step_trans [OF load_step_trans [OF load_step_trans [OF 1 2] 3] 4]
  have e4: "expert w4 = expert s" using s4 by (simp add: load_step_def)
  have 5: "load_step base (if expert s then [ExpertSetSupervisor, ExpertUpdatePanels] else []) w4 w5"
    unfolding w5_def e4 by (simp add: load_step_def emit_def display_of_def replay_def)
  note s5 = load_step_trans [OF s4 5]
  have p5: "defaultAreaPath w5 = defaultAreaPath s" using s5 by (simp add: load_step_def)
  have 6: "load_step base (case layout cfg of None \<Rightarrow> []
             | Some l \<Rightarrow> [LoadArea (defaultAreaPath s @ ''/'' @ l @ ''.area'')]) w5 w6"
    unfolding w6_def p5 by (cases "layout cfg") (simp_all add: load_step_def emit_def display_of_def replay_def)
  have 7: "load_step base [AdjustSize] w6 (emit AdjustSize w6)"
    by (simp add: load_step_def emit_def display_of_def replay_def)
  from load_step_trans [OF load_step_trans [OF s5 6] 7]
  show ?thesis unfolding eq by (simp add: closing_events_def)
qed

lemma set_devices_step:
  assumes "devices_ok s"
  shows "fst (set_devices s) = Returned \<and> load_step base (device_events s) s (snd (set_devices s))"
  using assms
  by (auto simp: set_devices_def devices_ok_def device_events_def load_step_def emit_def display_of_def replay_def
        split: option.splits sum.splits)

lemma image_docks_ntar [simp]: "ntar (image_docks base prefix parent n s) = ntar s"
  unfolding image_docks_def
  by (induction n)
     (simp_all add: add_dispDock_def on_display_def emit_def Let_def split: prod.splits)

lemma closing_events_cong:
  "expert s' = expert s \<Longrightarrow> defaultAreaPath s' = defaultAreaPath s \<Longrightarrow>
   closing_events s' cfg = closing_events s cfg"
  by (simp add: closing_events_def split: option.splits)

lemma replay_closing [simp]: "fold (replay base) (closing_events s cfg) disp = disp"
  by (simp add: closing_events_def replay_def split: option.splits)

lemma replay_devices [simp]: "fold (replay base) (device_events s) disp = disp"
  by (simp add: device_events_def replay_def split: option.splits sum.splits)

lemma load_docks_tail:
  assumes cfg: "config w8 = Some cfg"
    and known: "\<forall>p \<in> set (p_wfss cfg). wfs_type p \<noteq> OtherWFS"
  shows "\<exists>wf.
    (let w9 = w8\<lparr>SRcircles := [], SRCrossX := [], SRCrossY := [], PyrEdgeX := [], PyrEdgeY := []\<rparr>;
         w10 = image_docks base_add ''atm_'' ''wao_phasesgroup_cb'' (n_atmos cfg) (w9\<lparr>natm := n_atmos cfg\<rparr>);
         w11 = w10\<lparr>nwfs := length (p_wfss cfg)\<rparr>
     in and_then (for_each [0..<nwfs w11] (wfs_docks base_add) w11) (\<lambda>w12.
          (let w13 = image_docks base_add ''dm_'' ''wao_phasesgroup_cb'' (n_dms cfg) (w12\<lparr>ndm := n_dms cfg\<rparr>);
               w14 = w13\<lparr>ntar := n_targets cfg\<rparr>;
               w15 = image_docks base_add ''tar_'' ''wao_phasesgroup_cb'' (ntar w14) w14;
               w16 = image_docks base_add ''psfSE_'' ''wao_imagesgroup_cb'' (ntar w15) w15;
               w17 = image_docks base_add ''psfLE_'' ''wao_imagesgroup_cb'' (ntar w16) w16
           in (Returned, finish_load base_add cfg w17)))) = (Returned, wf) \<and>
    gui wf = gui w8 @ expected_docks cfg @ closing_events w8 cfg \<and>
    display_of wf = fold (replay base_add) (expected_docks cfg) (display_of w8) \<and>
    SRcircles wf = [] \<and> SRCrossX wf = [] \<and> SRCrossY wf = [] \<and> PyrEdgeX wf = [] \<and>
    PyrEdgeY wf = [] \<and> config wf = Some cfg"
proof -
  let ?w9 = "w8\<lparr>SRcircles := [], SRCrossX := [], SRCrossY := [], PyrEdgeX := [], PyrEdgeY := []\<rparr>"
  let ?w10 = "image_docks base_add ''atm_'' ''wao_phasesgroup_cb'' (n_atmos cfg) (?w9\<lparr>natm := n_atmos cfg\<rparr>)"
  let ?w11 = "?w10\<lparr>nwfs := length (p_wfss cfg)\<rparr>"
  have a: "load_step base_add (numbered_docks ''atm_'' ''wao_phasesgroup_cb'' (n_atmos cfg)) ?w9 ?w11"
    using image_docks_step [of base_add "''atm_''" "''wao_phasesgroup_cb''" "n_atmos cfg" "?w9\<lparr>natm := n_atmos cfg\<rparr>"]
    by (simp add: load_step_def display_of_def)
  have c11: "config ?w11 = Some cfg" using a cfg by (simp add: load_step_def)
  have n11: "nwfs ?w11 = length (p_wfss cfg)" by simp
  let ?r = "for_each [0..<length (p_wfss cfg)] (wfs_docks base_add) ?w11"
  from wfs_loop_step [OF c11 known order_refl, of base_add]
  obtain w12 where l: "?r = (Returned, w12)"
    and b: "load_step base_add (concat (map (\<lambda>i. sensor_docks (p_wfss cfg ! i) i) [0..<length (p_wfss cfg)])) ?w11 w12"
    by (cases ?r) auto
  let ?w13 = "image_docks base_add ''dm_'' ''wao_phasesgroup_cb'' (n_dms cfg) (w12\<lparr>ndm := n_dms cfg\<rparr>)"
  let ?w14 = "?w13\<lparr>ntar := n_targets cfg\<rparr>"
  let ?w15 = "image_docks base_add ''tar_'' ''wao_phasesgroup_cb'' (n_targets cfg) ?w14"
  let ?w16 = "image_docks base_add ''psfSE_'' ''wao_imagesgroup_cb'' (n_targets cfg) ?w15"
  let ?w17 = "image_docks base_add ''psfLE_'' ''wao_imagesgroup_cb'' (n_targets cfg) ?w16"
  let ?wf = "finish_load base_add cfg ?w17"
  have c: "load_step base_add (numbered_docks ''dm_'' ''wao_phasesgroup_cb'' (n_dms cfg)) w12 ?w14"
    using image_docks_step [of base_add "''dm_''" "''wao_phasesgroup_cb''" "n_dms cfg" "w12\<lparr>ndm := n_dms cfg\<rparr>"]
    by (simp add: load_step_def display_of_def)
  have d: "load_step base_add (numbered_docks ''tar_'' ''wao_phasesgroup_cb'' (n_targets cfg)) ?w14 ?w15"
    by (rule image_docks_step)
  have e: "load_step base_add (numbered_docks ''psfSE_'' ''wao_imagesgroup_cb'' (n_targets cfg)) ?w15 ?w16"
    by (rule image_docks_step)
  have f: "load_step base_add (numbered_docks ''psfLE_'' ''wao_imagesgroup_cb'' (n_targets cfg)) ?w16 ?w17"
    by (rule image_docks_step)
  have g: "load_step base_add (AddDispDock ''Strehl'' ''wao_graphgroup_cb'' ''SR'' # closing_events ?w17 cfg) ?w17 ?wf"
    by (rule finish_load_step)
  note all = load_step_trans [OF load_step_trans [OF load_step_trans [OF load_step_trans
               [OF load_step_trans [OF load_step_trans [OF a b] c] d] e] f] g]
  have ce: "closing_events ?w17 cfg = closing_events w8 cfg"
    by (rule closing_events_cong)
       (use load_step_trans [OF load_step_trans [OF load_step_trans [OF load_step_trans
               [OF load_step_trans [OF a b] c] d] e] f] in \<open>simp_all add: load_step_def\<close>)
  have eq: "(let w9 = w8\<lparr>SRcircles := [], SRCrossX := [], SRCrossY := [], PyrEdgeX := [], PyrEdgeY := []\<rparr>;
         w10 = image_docks base_add ''atm_'' ''wao_phasesgroup_cb'' (n_atmos cfg) (w9\<lparr>natm := n_atmos cfg\<rparr>);
         w11 = w10\<lparr>nwfs := length (p_wfss cfg)\<rparr>
     in and_then (for_each [0..<nwfs w11] (wfs_docks base_add) w11) (\<lambda>w12.
          (let w13 = image_docks base_add ''dm_'' ''wao_phasesgroup_cb'' (n_dms cfg) (w12\<lparr>ndm := n_dms cfg\<rparr>);
               w14 = w13\<lparr>ntar := n_targets cfg\<rparr>;
               w15 = image_docks base_add ''tar_'' ''wao_phasesgroup_cb'' (ntar w14) w14;
               w16 = image_docks base_add ''psfSE_'' ''wao_imagesgroup_cb'' (ntar w15) w15;
               w17 = image_docks base_add ''psfLE_'' ''wao_imagesgroup_cb'' (ntar w16) w16
           in (Returned, finish_load base_add cfg w17)))) = (Returned, ?wf)"
    unfolding Let_def n11 l by simp
  have gf: "gui ?wf = gui w8 @ expected_docks cfg @ closing_events w8 cfg"
    using all unfolding ce by (simp add: load_step_def expected_docks_def)
  have df: "display_of ?wf = fold (replay base_add) (expected_docks cfg) (display_of w8)"
    using all unfolding ce by (simp add: load_step_def expected_docks_def display_of_def)
  have rest: "SRcircles ?wf = [] \<and> SRCrossX ?wf = [] \<and> SRCrossY ?wf = [] \<and> PyrEdgeX ?wf = [] \<and>
              PyrEdgeY ?wf = [] \<and> config ?wf = Some cfg"
    using all cfg by (simp add: load_step_def)
  show ?thesis
    by (rule exI [of _ ?wf]) (use eq gf df rest in blast)
qed

lemma remove_items_ui [simp]: "ui (snd (remove_items d s)) = ui s"
  unfolding remove_items_def
proof (induction d arbitrary: s)
  case Nil
  then show ?case by simp
next
  case (Cons kp d)
  show ?case
  proof (cases "remove_item kp s")
    case (Pair r s1)
    then have u: "ui s1 = ui s"
      by (auto simp: remove_item_def emit_def split: prod.splits option.splits)
    show ?thesis using Pair u Cons.IH [of s1] by (cases r) simp_all
  qed
qed

lemma removals_step:
  assumes "\<forall>k \<in> fst ` set (overlay_items w). k \<in> dom (viewboxes (on_display bl w))"
  shows "\<exists>w5. (\<forall>k.
           and_then (remove_items (SRcircles w) (on_display bl w)) (\<lambda>w1.
           and_then (remove_items (SRCrossX w1) w1) (\<lambda>w2.
           and_then (remove_items (SRCrossY w2) w2) (\<lambda>w3.
           and_then (remove_items (PyrEdgeX w3) w3) (\<lambda>w4.
           and_then (remove_items (PyrEdgeY w4) w4) k)))) = k w5) \<and>
         load_step base (removal_events w) (on_display bl w) w5 \<and> ui w5 = ui w"
proof -
  let ?s0 = "on_display bl w"
  have s0: "load_step base [] ?s0 ?s0" by simp
  have f0: "SRcircles ?s0 = SRcircles w" "SRCrossX ?s0 = SRCrossX w" "SRCrossY ?s0 = SRCrossY w"
    "PyrEdgeX ?s0 = PyrEdgeX w" "PyrEdgeY ?s0 = PyrEdgeY w"
    by (simp_all add: on_display_def split: prod.splits)
  have u0: "ui ?s0 = ui w" by (simp add: on_display_def split: prod.splits)
  note ev = load_step_def
  let ?ev = "map (\<lambda>(key, pgpl). RemoveItem key pgpl)"
  let ?s1 = "snd (remove_items (SRcircles w) ?s0)"
  have 1: "fst (remove_items (SRcircles w) ?s0) = Returned \<and> load_step base (?ev (SRcircles w)) ?s0 ?s1 \<and>
           dom (viewboxes ?s1) = dom (viewboxes ?s0)"
    by (rule remove_items_step) (use assms in \<open>simp add: overlay_items_def\<close>)
  then have r1: "remove_items (SRcircles w) ?s0 = (Returned, ?s1)"
    by (cases "remove_items (SRcircles w) ?s0") simp
  have x1: "SRCrossX ?s1 = SRCrossX w" using 1 f0 by (simp add: ev)
  let ?s2 = "snd (remove_items (SRCrossX w) ?s1)"
  have 2: "fst (remove_items (SRCrossX w) ?s1) = Returned \<and> load_step base (?ev (SRCrossX w)) ?s1 ?s2 \<and>
           dom (viewboxes ?s2) = dom (viewboxes ?s1)"
    by (rule remove_items_step) (use assms 1 in \<open>simp add: overlay_items_def\<close>)
  then have r2: "remove_items (SRCrossX w) ?s1 = (Returned, ?s2)"
    by (cases "remove_items (SRCrossX w) ?s1") simp
  have x2: "SRCrossY ?s2 = SRCrossY w" using 1 2 f0 by (simp add: ev)
  let ?s3 = "snd (remove_items (SRCrossY w) ?s2)"
  have 3: "fst (remove_items (SRCrossY w) ?s2) = Returned \<and> load_step base (?ev (SRCrossY w)) ?s2 ?s3 \<and>
           dom (viewboxes ?s3) = dom (viewboxes ?s2)"
    by (rule remove_items_step) (use assms 1 2 in \<open>simp add: overlay_items_def\<close>)
  then have r3: "remove_items (SRCrossY w) ?s2 = (Returned, ?s3)"
    by (cases "remove_items (SRCrossY w) ?s2") simp
  have x3: "PyrEdgeX ?s3 = PyrEdgeX w" using 1 2 3 f0 by (simp add: ev)
  let ?s4 = "snd (remove_items (PyrEdgeX w) ?s3)"
  have 4: "fst (remove_items (PyrEdgeX w) ?s3) = Returned \<and> load_step base (?ev (PyrEdgeX w)) ?s3 ?s4 \<and>
           dom (viewboxes ?s4) = dom (viewboxes ?s3)"
    by (rule remove_items_step) (use assms 1 2 3 in \<open>simp add: overlay_items_def\<close>)
  then have r4: "remove_items (PyrEdgeX w) ?s3 = (Returned, ?s4)"
    by (cases "remove_items (PyrEdgeX w) ?s3") simp
  have x4: "PyrEdgeY ?s4 = PyrEdgeY w" using 1 2 3 4 f0 by (simp add: ev)
  let ?s5 = "snd (remove_items (PyrEdgeY w) ?s4)"
  have 5: "fst (remove_items (PyrEdgeY w) ?s4) = Returned \<and> load_step base (?ev (PyrEdgeY w)) ?s4 ?s5 \<and>
           dom (viewboxes ?s5) = dom (viewboxes ?s4)"
    by (rule remove_items_step) (use assms 1 2 3 4 in \<open>simp add: overlay_items_def\<close>)
  then have r5: "remove_items (PyrEdgeY w) ?s4 = (Returned, ?s5)"
    by (cases "remove_items (PyrEdgeY w) ?s4") simp
  have eq: "and_then (remove_items (SRcircles w) (on_display bl w)) (\<lambda>w1.
           and_then (remove_items (SRCrossX w1) w1) (\<lambda>w2.
           and_then (remove_items (SRCrossY w2) w2) (\<lambda>w3.
           and_then (remove_items (PyrEdgeX w3) w3) (\<lambda>w4.
           and_then (remove_items (PyrEdgeY w4) w4) k)))) = k ?s5" for k
    apply (subst r1, simp only: and_then_Inr x1)
    apply (subst r2, simp only: and_then_Inr x2)
    apply (subst r3, simp only: and_then_Inr x3)
    apply (subst r4, simp only: and_then_Inr x4)
    apply (subst r5, simp only: and_then_Inr)
    done
  have st: "load_step base (removal_events w) ?s0 ?s5"
    using load_step_trans [OF load_step_trans [OF load_step_trans [OF load_step_trans
            [OF load_step_trans [OF s0 conjunct1 [OF conjunct2 [OF 1]]]
              conjunct1 [OF conjunct2 [OF 2]]] conjunct1 [OF conjunct2 [OF 3]]]
              conjunct1 [OF conjunct2 [OF 4]]] conjunct1 [OF conjunct2 [OF 5]]]
    by (simp add: removal_events_def)
  have u: "ui ?s5 = ui w" by (simp add: u0)
  show ?thesis
    by (rule exI [of _ ?s5]) (use eq st u in blast)
qed

lemma supervisor_step:
  assumes "load_calls_complete fresh configFile supervisor_arg w" and "ui w5 = ui w"
  shows "\<exists>sv'. \<forall>k.
    and_then
       (case supervisor_arg of
          None \<Rightarrow>
            ask_unit (LoadConfig (case configFile of None \<Rightarrow> wao_selectConfig (ui w5) | Some f \<Rightarrow> f))
              (w5\<lparr>supervisor := Some fresh\<rparr>)
        | Some sv \<Rightarrow> (Returned, w5\<lparr>supervisor := Some sv\<rparr>)) (\<lambda>w6.
     bind (getConfig w6) k) =
    k (loaded_config fresh configFile supervisor_arg w) (w5\<lparr>supervisor := Some sv'\<rparr>)"
proof (cases supervisor_arg)
  case None
  let ?f = "chosen_file configFile w"
  have f: "(case configFile of None \<Rightarrow> wao_selectConfig (ui w5) | Some f \<Rightarrow> f) = ?f"
    using assms(2) by (simp add: chosen_file_def split: option.splits)
  have c: "completes fresh (calls fresh) (LoadConfig ?f)"
    "completes fresh (calls fresh @ [(LoadConfig ?f, NoneR)]) GetConfig"
    using assms(1) None by (simp_all add: load_calls_complete_def)
  show ?thesis
    unfolding None f
    by (rule exI [of _ "record_call GetConfig (ConfigR (loaded_config fresh configFile None w))
                          (record_call (LoadConfig ?f) NoneR fresh)"])
       (simp add: ask_unit_def ask_def getConfig_def record_call_def c loaded_config_def)
next
  case (Some sv)
  have c: "completes sv (calls sv) GetConfig"
    using assms(1) Some by (simp add: load_calls_complete_def)
  show ?thesis
    unfolding Some
    by (rule exI [of _ "record_call GetConfig (ConfigR (loaded_config fresh configFile (Some sv) w)) sv"])
       (simp add: ask_def getConfig_def record_call_def c loaded_config_def)
qed



end
